(* ===== verification/Prelude.thy ===== *)
theory Prelude
  imports Main
begin

text \<open>
  Shared ground of the development: the theorem collections, the two JavaScript
  containers the TypeScript sources use (\<open>Map\<close> and \<open>Set\<close>, both ordered by first
  insertion) and the contract of a keyed store that their clients rely on.

  A \<open>Map\<close> is an association list with distinct keys: \<open>set\<close> on a present key
  overwrites the value in place and keeps the key's position, \<open>set\<close> on a new key appends,
  \<open>delete\<close> removes the entry, and iteration (\<open>entries\<close>, \<open>keys\<close>, \<open>values\<close>,
  \<open>Array.from\<close>) follows the list. A \<open>Set\<close> is a list without duplicates with the same
  insertion order. Errors are the left summand of \<open>'e + 'a\<close>.
\<close>

named_theorems jmap_simps \<open>lookup and domain laws of the insertion-ordered Map\<close>
named_theorems jset_simps \<open>membership laws of the insertion-ordered Set\<close>
named_theorems num_eval \<open>case equations of the JavaScript number operations\<close>
named_theorems sock_simps \<open>step equations of the socket clients\<close>

section \<open>Results\<close>

type_synonym ('e, 'a) result = "'e + 'a"

abbreviation Throw :: "'e \<Rightarrow> ('e, 'a) result" where
  "Throw \<equiv> Inl"

abbreviation Return :: "'a \<Rightarrow> ('e, 'a) result" where
  "Return \<equiv> Inr"

section \<open>The insertion-ordered Map\<close>

type_synonym ('k, 'v) jmap = "('k \<times> 'v) list"

fun mget :: "('k, 'v) jmap \<Rightarrow> 'k \<Rightarrow> 'v option" where
  "mget [] k = None"
| "mget ((k', v) # m) k = (if k' = k then Some v else mget m k)"

definition mhas :: "('k, 'v) jmap \<Rightarrow> 'k \<Rightarrow> bool" where
  "mhas m k = (mget m k \<noteq> None)"

fun mset_key :: "('k, 'v) jmap \<Rightarrow> 'k \<Rightarrow> 'v \<Rightarrow> ('k, 'v) jmap" where
  "mset_key [] k v = [(k, v)]"
| "mset_key ((k', v') # m) k v =
     (if k' = k then (k', v) # m else (k', v') # mset_key m k v)"

definition mdelete :: "('k, 'v) jmap \<Rightarrow> 'k \<Rightarrow> ('k, 'v) jmap" where
  "mdelete m k = filter (\<lambda>kv. fst kv \<noteq> k) m"

definition mkeys :: "('k, 'v) jmap \<Rightarrow> 'k list" where
  "mkeys m = map fst m"

definition mvalues :: "('k, 'v) jmap \<Rightarrow> 'v list" where
  "mvalues m = map snd m"

text \<open>\<open>new Map(entries)\<close>: later entries with the same key win, in the first one's place.\<close>

definition map_from :: "('k \<times> 'v) list \<Rightarrow> ('k, 'v) jmap" where
  "map_from es = foldl (\<lambda>m (k, v). mset_key m k v) [] es"

definition map_wf :: "('k, 'v) jmap \<Rightarrow> bool" where
  "map_wf m = distinct (map fst m)"

lemma mget_eq_map_of [jmap_simps]: "mget m k = map_of m k"
  by (induction m) auto

lemma mget_set [simp]: "mget (mset_key m k v) k' = (if k' = k then Some v else mget m k')"
  by (induction m) auto

lemma mget_delete [simp]: "mget (mdelete m k) k' = (if k' = k then None else mget m k')"
  by (induction m) (auto simp: mdelete_def)

lemma keys_set [simp]: "fst ` set (mset_key m k v) = insert k (fst ` set m)"
  by (induction m k v rule: mset_key.induct) (simp_all add: insert_commute)

lemma keys_set_list:
  "map fst (mset_key m k v) = (if k \<in> fst ` set m then map fst m else map fst m @ [k])"
  by (induction m k v rule: mset_key.induct) simp_all

lemma mset_key_mem: "kv \<in> set (mset_key m k v) \<Longrightarrow> kv = (k, v) \<or> kv \<in> set m"
  by (induction m k v rule: mset_key.induct) (auto split: if_splits)

lemma mget_None_iff [simp]: "mget m k = None \<longleftrightarrow> k \<notin> fst ` set m"
  by (induction m k rule: mget.induct) simp_all

lemma mhas_iff [jmap_simps]: "mhas m k \<longleftrightarrow> k \<in> fst ` set m"
  by (simp add: mhas_def)

lemma map_wf_empty [simp]: "map_wf []"
  by (simp add: map_wf_def)

lemma map_wf_set [simp]: "map_wf m \<Longrightarrow> map_wf (mset_key m k v)"
  by (simp add: map_wf_def keys_set_list)

lemma map_wf_delete [simp]: "map_wf m \<Longrightarrow> map_wf (mdelete m k)"
  by (induction m) (auto simp: map_wf_def mdelete_def)

lemma mget_mem: "map_wf m \<Longrightarrow> mget m k = Some v \<longleftrightarrow> (k, v) \<in> set m"
  by (simp add: map_wf_def mget_eq_map_of)

lemma foldl_set_wf: "map_wf m \<Longrightarrow> map_wf (foldl (\<lambda>m (k, v). mset_key m k v) m es)"
  by (induction es arbitrary: m) auto

lemma map_wf_from [simp]: "map_wf (map_from es)"
  by (simp add: map_from_def foldl_set_wf)

lemma mget_foldl_set:
  "mget (foldl (\<lambda>m (k, v). mset_key m k v) m es) k =
     (case map_of (rev es) k of None \<Rightarrow> mget m k | Some v \<Rightarrow> Some v)"
  by (induction es arbitrary: m) (auto simp: map_add_def split: option.splits)

lemma mget_from: "mget (map_from es) k = map_of (rev es) k"
  by (simp add: map_from_def mget_foldl_set split: option.splits)

lemma map_of_rev_distinct: "distinct (map fst es) \<Longrightarrow> map_of (rev es) = map_of es"
  by (subst map_of_inject_set) (auto simp: rev_map [symmetric])

lemma mget_from_distinct: "distinct (map fst es) \<Longrightarrow> mget (map_from es) k = map_of es k"
  by (simp add: mget_from map_of_rev_distinct)

section \<open>The insertion-ordered Set\<close>

type_synonym 'a jset = "'a list"

definition sadd :: "'a jset \<Rightarrow> 'a \<Rightarrow> 'a jset" where
  "sadd s x = (if x \<in> set s then s else s @ [x])"

definition sremove :: "'a jset \<Rightarrow> 'a \<Rightarrow> 'a jset" where
  "sremove s x = filter (\<lambda>y. y \<noteq> x) s"

lemma set_sadd [simp, jset_simps]: "set (sadd s x) = insert x (set s)"
  by (auto simp: sadd_def)

lemma set_sremove [simp, jset_simps]: "set (sremove s x) = set s - {x}"
  by (auto simp: sremove_def)

lemma distinct_sadd [simp]: "distinct s \<Longrightarrow> distinct (sadd s x)"
  by (auto simp: sadd_def)

lemma distinct_sremove [simp]: "distinct s \<Longrightarrow> distinct (sremove s x)"
  by (simp add: sremove_def)

section \<open>The contract of a keyed store\<close>

text \<open>
  A change sets a key (\<open>Some v\<close>) or deletes it (\<open>None\<close>). What a store holds after a
  sequence of changes is decided by the last change of each key.
\<close>

type_synonym ('k, 'v) change = "'k \<times> 'v option"

fun last_change :: "('k, 'v) change list \<Rightarrow> 'k \<Rightarrow> 'v option option" where
  "last_change [] k = None"
| "last_change ((k', c) # cs) k =
     (case last_change cs k of Some d \<Rightarrow> Some d | None \<Rightarrow> if k' = k then Some c else None)"

locale keyed_store =
  fixes get :: "'m \<Rightarrow> 'k \<Rightarrow> 'v option"
    and put :: "'m \<Rightarrow> 'k \<Rightarrow> 'v \<Rightarrow> 'm"
    and del :: "'m \<Rightarrow> 'k \<Rightarrow> 'm"
    and ok :: "'m \<Rightarrow> bool"
  assumes get_put: "ok m \<Longrightarrow> get (put m k v) k' = (if k' = k then Some v else get m k')"
    and get_del: "ok m \<Longrightarrow> get (del m k) k' = (if k' = k then None else get m k')"
    and ok_put: "ok m \<Longrightarrow> ok (put m k v)"
    and ok_del: "ok m \<Longrightarrow> ok (del m k)"
begin

lemma change_ok: "ok m \<Longrightarrow> ok (case c of None \<Rightarrow> del m k | Some v \<Rightarrow> put m k v)"
  by (simp add: ok_put ok_del split: option.split)

lemma replay_ok:
  "ok m \<Longrightarrow> ok (foldl (\<lambda>m (k, c). case c of None \<Rightarrow> del m k | Some v \<Rightarrow> put m k v) m cs)"
  by (induction cs arbitrary: m) (auto intro: change_ok)

lemma replay_get:
  "ok m \<Longrightarrow> get (foldl (\<lambda>m (k, c). case c of None \<Rightarrow> del m k | Some v \<Rightarrow> put m k v) m cs) k =
     (case last_change cs k of None \<Rightarrow> get m k | Some c \<Rightarrow> c)"
proof (induction cs arbitrary: m)
  case Nil
  then show ?case by simp
next
  case (Cons x cs)
  obtain k' c where x: "x = (k', c)" by (cases x)
  have ok': "ok (case c of None \<Rightarrow> del m k' | Some v \<Rightarrow> put m k' v)"
    using Cons.prems by (rule change_ok)
  show ?case
    using Cons.IH [OF ok'] Cons.prems
    by (auto simp: x get_put get_del split: option.splits)
qed

text \<open>Two stores that agree on a key agree on it after the same changes.\<close>

lemma replay_agree:
  assumes "ok m" "ok n" "get m k = get n k \<or> last_change cs k \<noteq> None"
  shows "get (foldl (\<lambda>m (k, c). case c of None \<Rightarrow> del m k | Some v \<Rightarrow> put m k v) m cs) k =
         get (foldl (\<lambda>m (k, c). case c of None \<Rightarrow> del m k | Some v \<Rightarrow> put m k v) n cs) k"
  using assms by (auto simp: replay_get split: option.split)

end

interpretation jm: keyed_store mget mset_key mdelete map_wf
  by unfold_locales simp_all

section \<open>The contract of a state machine\<close>

text \<open>
  A step relation and a predicate that every step keeps. Each socket machine of the
  development is one; what is shared is that the predicate then holds along every run.
\<close>

locale transition_system =
  fixes step :: "'s \<Rightarrow> 's \<Rightarrow> bool"
    and inv :: "'s \<Rightarrow> bool"
  assumes step_inv: "step s s' \<Longrightarrow> inv s \<Longrightarrow> inv s'"
begin

lemma run_inv: "step\<^sup>*\<^sup>* s s' \<Longrightarrow> inv s \<Longrightarrow> inv s'"
  by (induction rule: rtranclp_induct) (auto intro: step_inv)

end

end
