(* ===== verification/Binary64.thy ===== *)
theory Binary64
  imports Prelude "HOL-Library.Log_Nat"
begin

text \<open>
  The rounding of IEEE 754 binary64, the number format of JavaScript. An operation on
  \<open>number\<close> is the exact rational result rounded to the nearest representable value,
  ties to the even significand; a result whose rounding needs an exponent above the range
  overflows to an infinity. \<open>rnd64\<close> is that rounding on rationals (subnormals included)
  and is executable. The lemmas give what the components use of it: it is odd, monotone,
  fixes exactly the representable values, and is exact on integers up to \<open>2 ^ 53\<close>.
\<close>

section \<open>Rounding to an integer, ties to even\<close>

definition rhe :: "rat \<Rightarrow> int" where
  "rhe x = (let f = \<lfloor>x\<rfloor>; d = x - of_int f in
     if d < 1/2 then f else if d > 1/2 then f + 1 else if even f then f else f + 1)"

lemma rhe_of_int [simp]: "rhe (of_int n) = n"
  by (simp add: rhe_def)

lemma rhe_bounds: "\<lfloor>x\<rfloor> \<le> rhe x \<and> rhe x \<le> \<lceil>x\<rceil>"
proof (cases "x = of_int \<lfloor>x\<rfloor>")
  case True
  then show ?thesis by (metis ceiling_of_int floor_of_int order_refl rhe_of_int)
next
  case False
  then have "\<lceil>x\<rceil> = \<lfloor>x\<rfloor> + 1" by (simp add: ceiling_altdef)
  then show ?thesis by (simp add: rhe_def Let_def)
qed

lemma rhe_le_of_int: "x \<le> of_int n \<Longrightarrow> rhe x \<le> n"
  by (meson ceiling_le_iff order_trans rhe_bounds)

lemma rhe_ge_of_int: "of_int n \<le> x \<Longrightarrow> n \<le> rhe x"
  by (meson le_floor_iff order_trans rhe_bounds)

lemma rhe_error: "\<bar>x - of_int (rhe x)\<bar> \<le> 1/2"
proof -
  have "of_int \<lfloor>x\<rfloor> \<le> x" and "x < of_int \<lfloor>x\<rfloor> + 1" using floor_correct [of x] by simp_all
  then show ?thesis unfolding rhe_def Let_def by (auto simp: abs_le_iff)
qed

lemma rhe_mono: "x \<le> y \<Longrightarrow> rhe x \<le> rhe y"
proof (cases "\<lfloor>x\<rfloor> = \<lfloor>y\<rfloor>")
  case True
  assume "x \<le> y"
  with True show ?thesis by (auto simp: rhe_def Let_def)
next
  case False
  assume "x \<le> y"
  with False have "\<lfloor>x\<rfloor> + 1 \<le> \<lfloor>y\<rfloor>" using floor_mono [of x y] by simp
  moreover have "rhe x \<le> \<lfloor>x\<rfloor> + 1" by (simp add: rhe_def Let_def)
  ultimately show ?thesis using rhe_bounds [of y] by linarith
qed

lemma rhe_minus: "rhe (- x) = - rhe x"
proof (cases "x = of_int \<lfloor>x\<rfloor>")
  case True
  then have "- x = of_int (- \<lfloor>x\<rfloor>)" by simp
  with True show ?thesis by (metis rhe_of_int)
next
  case False
  then have f: "\<lfloor>- x\<rfloor> = - \<lfloor>x\<rfloor> - 1" by (simp add: floor_minus ceiling_altdef)
  show ?thesis unfolding rhe_def Let_def f by (auto simp: field_simps)
qed

section \<open>The binary exponent\<close>

definition ilog2 :: "rat \<Rightarrow> int" where
  "ilog2 x = (let (p, q) = quotient_of x; k = bitlen p - bitlen q
     in if 2 powi k \<le> x then k else k - 1)"

lemma bitlen_powi:
  assumes "0 < (n::int)"
  shows "(2::rat) powi (bitlen n - 1) \<le> of_int n \<and> of_int n < (2::rat) powi (bitlen n)"
proof -
  have b: "0 < bitlen n" using assms by (simp add: bitlen_def floorlog_eq_zero_iff zero_less_iff_neq_zero)
  have "2 ^ nat (bitlen n - 1) \<le> n \<and> n < 2 ^ nat (bitlen n)"
    using assms by (rule bitlen_bounds)
  then have "(of_int (2 ^ nat (bitlen n - 1)) :: rat) \<le> of_int n
      \<and> of_int n < (of_int (2 ^ nat (bitlen n)) :: rat)"
    by (simp only: of_int_le_iff of_int_less_iff)
  with b show ?thesis by (simp add: power_int_def)
qed

lemma ilog2_bounds:
  assumes "0 < x"
  shows "2 powi (ilog2 x) \<le> x" and "x < 2 powi (ilog2 x + 1)"
proof -
  obtain p q where pq: "quotient_of x = (p, q)" by (cases "quotient_of x")
  have q: "0 < q" using pq quotient_of_denom_pos by blast
  have x: "x = of_int p / of_int q" using pq by (rule quotient_of_div)
  have p: "0 < p" using assms q by (simp add: x zero_less_divide_iff)
  let ?k = "bitlen p - bitlen q"
  note P = bitlen_powi [OF p] and Q = bitlen_powi [OF q]
  have pos: "0 < (of_int q :: rat)" using q by simp
  have lo: "2 powi (?k - 1) \<le> x"
  proof -
    have "2 powi (?k - 1) * of_int q \<le> (2::rat) powi (?k - 1) * 2 powi (bitlen q)"
      using Q by (intro mult_left_mono) auto
    also have "\<dots> = (2::rat) powi (bitlen p - 1)"
      by (simp flip: power_int_add)
    also have "\<dots> \<le> of_int p" using P by simp
    finally show ?thesis using pos by (simp add: x pos_le_divide_eq)
  qed
  have hi: "x < 2 powi (?k + 1)"
  proof -
    have "of_int p < (2::rat) powi (bitlen p)" using P by simp
    also have "\<dots> = 2 powi (?k + 1) * 2 powi (bitlen q - 1)"
      by (simp flip: power_int_add)
    also have "\<dots> \<le> (2::rat) powi (?k + 1) * of_int q"
      using Q by (intro mult_left_mono) auto
    finally show ?thesis using pos by (simp add: x pos_divide_less_eq)
  qed
  show "2 powi (ilog2 x) \<le> x" "x < 2 powi (ilog2 x + 1)"
    using lo hi by (auto simp: ilog2_def pq Let_def)
qed

lemma powi2_less_iff: "(2::rat) powi a < 2 powi b \<longleftrightarrow> a < b"
  by (metis linorder_not_less one_less_numeral_iff power_int_increasing
      power_int_strict_increasing semiring_norm(76) order_less_imp_le)

lemma powi2_pos [simp]: "0 < (2::rat) powi e"
  by simp

lemma ilog2_unique: "2 powi k \<le> x \<Longrightarrow> x < 2 powi (k + 1) \<Longrightarrow> ilog2 x = k"
proof -
  assume a: "2 powi k \<le> x" and b: "x < 2 powi (k + 1)"
  then have x: "0 < x" using powi2_pos [of k] by linarith
  have "2 powi k < (2::rat) powi (ilog2 x + 1)" using a ilog2_bounds(2) [OF x] by linarith
  moreover have "2 powi (ilog2 x) < (2::rat) powi (k + 1)"
    using b ilog2_bounds(1) [OF x] by linarith
  ultimately show ?thesis by (simp add: powi2_less_iff)
qed

lemma ilog2_mono: "0 < x \<Longrightarrow> x \<le> y \<Longrightarrow> ilog2 x \<le> ilog2 y"
proof -
  assume x: "0 < x" and xy: "x \<le> y"
  then have y: "0 < y" by simp
  have "2 powi (ilog2 x) < (2::rat) powi (ilog2 y + 1)"
    using ilog2_bounds(1) [OF x] ilog2_bounds(2) [OF y] xy by linarith
  then show ?thesis by (simp add: powi2_less_iff)
qed

section \<open>Rounding to binary64\<close>

text \<open>The exponent of the last significand bit: 52 below the leading one, at least -1074.\<close>

definition ulpx :: "rat \<Rightarrow> int" where
  "ulpx x = max (ilog2 \<bar>x\<bar> - 52) (-1074)"

definition rnd64 :: "rat \<Rightarrow> rat" where
  "rnd64 x = (if x = 0 then 0
     else let e = ulpx x in of_int (rhe (x / 2 powi e)) * 2 powi e)"

definition representable :: "rat \<Rightarrow> bool" where
  "representable r \<longleftrightarrow> (\<exists>m e. r = of_int m * 2 powi e \<and> \<bar>m\<bar> \<le> 2 ^ 53 \<and> - 1074 \<le> e)"

lemma rnd64_0 [simp]: "rnd64 0 = 0"
  by (simp add: rnd64_def)

lemma ulpx_minus [simp]: "ulpx (- x) = ulpx x"
  by (simp add: ulpx_def)

lemma rnd64_minus: "rnd64 (- x) = - rnd64 x"
  by (simp add: rnd64_def Let_def rhe_minus)

lemma powi2_int: "0 \<le> k \<Longrightarrow> (2::rat) powi k = of_int (2 ^ nat k)"
  by (simp add: power_int_def)

lemma powi2_split: "e \<le> k \<Longrightarrow> (2::rat) powi k = of_int (2 ^ nat (k - e)) * 2 powi e"
  by (metis diff_add_cancel diff_ge_0_iff_ge power_int_add powi2_int zero_neq_numeral)

lemma rnd64_le_grid:
  assumes "x \<le> of_int n * 2 powi (ulpx x)" "x \<noteq> 0"
  shows "rnd64 x \<le> of_int n * 2 powi (ulpx x)"
proof -
  have "x / 2 powi (ulpx x) \<le> of_int n" using assms by (simp add: pos_divide_le_eq)
  then have "rhe (x / 2 powi (ulpx x)) \<le> n" by (rule rhe_le_of_int)
  with assms show ?thesis by (simp add: rnd64_def Let_def)
qed

lemma rnd64_ge_grid:
  assumes "of_int n * 2 powi (ulpx x) \<le> x" "x \<noteq> 0"
  shows "of_int n * 2 powi (ulpx x) \<le> rnd64 x"
proof -
  have "of_int n \<le> x / 2 powi (ulpx x)" using assms by (simp add: pos_le_divide_eq)
  then have "n \<le> rhe (x / 2 powi (ulpx x))" by (rule rhe_ge_of_int)
  with assms show ?thesis by (simp add: rnd64_def Let_def)
qed

lemma rnd64_mono_pos:
  assumes x: "0 < x" and xy: "x \<le> y"
  shows "rnd64 x \<le> rnd64 y"
proof (cases "ulpx x = ulpx y")
  case True
  have "x / 2 powi (ulpx y) \<le> y / 2 powi (ulpx y)" using xy by (simp add: divide_right_mono)
  then have "rhe (x / 2 powi (ulpx y)) \<le> rhe (y / 2 powi (ulpx y))" by (rule rhe_mono)
  with True x xy show ?thesis by (simp add: rnd64_def Let_def)
next
  case False
  have y: "0 < y" using x xy by simp
  have il: "ilog2 x \<le> ilog2 y" using x xy by (rule ilog2_mono)
  with False x y have lt: "ilog2 x < ilog2 y" and ey: "ulpx y = ilog2 y - 52"
      and ex: "ulpx x \<le> ilog2 y"
    by (auto simp: ulpx_def)
  let ?b = "(2::rat) powi (ilog2 y)"
  have "x < 2 powi (ilog2 x + 1)" using x by (rule ilog2_bounds)
  also have "\<dots> \<le> ?b" using lt by (simp add: power_int_increasing)
  finally have "x \<le> ?b" by simp
  then have "rnd64 x \<le> ?b"
    using rnd64_le_grid [of x "2 ^ nat (ilog2 y - ulpx x)"] powi2_split [OF ex] x by simp
  also have "?b \<le> rnd64 y"
    using rnd64_ge_grid [of "2 ^ nat (ilog2 y - ulpx y)" y] powi2_split [of "ulpx y" "ilog2 y"]
      ilog2_bounds(1) [OF y] y ey by simp
  finally show ?thesis .
qed

lemma rnd64_nonneg: "0 \<le> x \<Longrightarrow> 0 \<le> rnd64 x"
  using rnd64_ge_grid [of 0 x] by (cases "x = 0") auto

lemma rnd64_nonpos: "x \<le> 0 \<Longrightarrow> rnd64 x \<le> 0"
  using rnd64_nonneg [of "- x"] by (simp add: rnd64_minus)

lemma rnd64_mono: "x \<le> y \<Longrightarrow> rnd64 x \<le> rnd64 y"
proof -
  assume xy: "x \<le> y"
  consider "0 < x" | "y < 0" | "x \<le> 0" "0 \<le> y" by linarith
  then show ?thesis
  proof cases
    case 1
    then show ?thesis using xy by (rule rnd64_mono_pos)
  next
    case 2
    then have "rnd64 (- y) \<le> rnd64 (- x)" using xy by (intro rnd64_mono_pos) auto
    then show ?thesis by (simp add: rnd64_minus)
  next
    case 3
    then show ?thesis using rnd64_nonpos [of x] rnd64_nonneg [of y] by linarith
  qed
qed

lemma rnd64_representable: "representable (rnd64 x)"
proof (cases "x = 0")
  case True
  have "(0::rat) = of_int 0 * 2 powi 0" by simp
  then show ?thesis unfolding True rnd64_0 representable_def
    by (intro exI [of _ 0]) simp
next
  case False
  let ?e = "ulpx x" and ?m = "rhe (x / 2 powi (ulpx x))"
  have ax: "0 < \<bar>x\<bar>" using False by simp
  have "\<bar>x\<bar> \<le> 2 powi (ilog2 \<bar>x\<bar> + 1)" using ilog2_bounds(2) [OF ax] by simp
  also have "\<dots> \<le> (2::rat) powi (53 + ?e)"
    by (intro power_int_increasing) (auto simp: ulpx_def)
  also have "\<dots> = 2 ^ 53 * 2 powi ?e"
    by (simp add: power_int_add)
  finally have "\<bar>x / 2 powi ?e\<bar> \<le> of_int (2 ^ 53)"
    by (simp add: abs_divide pos_divide_le_eq)
  then have "x / 2 powi ?e \<le> of_int (2 ^ 53)" "of_int (- (2 ^ 53)) \<le> x / 2 powi ?e"
    by (simp_all only: abs_le_iff) auto
  then have "\<bar>?m\<bar> \<le> 2 ^ 53"
    using rhe_le_of_int rhe_ge_of_int by (metis abs_le_iff minus_le_iff)
  moreover have "- 1074 \<le> ?e" by (simp add: ulpx_def)
  moreover have "rnd64 x = of_int ?m * 2 powi ?e" using False by (simp add: rnd64_def Let_def)
  ultimately show ?thesis unfolding representable_def by blast
qed

lemma rnd64_grid_exact:
  assumes "x = of_int n * 2 powi (ulpx x)"
  shows "rnd64 x = x"
proof -
  have "x / 2 powi (ulpx x) = of_int n" using assms by (metis nonzero_mult_div_cancel_right
        less_irrefl powi2_pos)
  then show ?thesis using assms by (auto simp: rnd64_def Let_def)
qed

lemma rnd64_id: "representable r \<Longrightarrow> rnd64 r = r"
proof (cases "r = 0")
  case True
  then show ?thesis by simp
next
  case False
  assume "representable r"
  then obtain m e where r: "r = of_int m * 2 powi e" and m: "\<bar>m\<bar> \<le> 2 ^ 53" and e: "- 1074 \<le> e"
    by (auto simp: representable_def)
  have ar: "0 < \<bar>r\<bar>" using False by simp
  have mr: "(of_int \<bar>m\<bar> :: rat) \<le> 2 ^ 53" using m by (metis of_int_le_iff of_int_numeral of_int_power)
  have "2 powi (ilog2 \<bar>r\<bar>) \<le> \<bar>r\<bar>" using ar by (rule ilog2_bounds)
  also have "\<dots> \<le> 2 ^ 53 * 2 powi e" using mr by (simp add: r abs_mult)
  also have "\<dots> = (2::rat) powi (53 + e)" by (simp add: power_int_add)
  finally have il: "ilog2 \<bar>r\<bar> \<le> 53 + e"
    by (metis linorder_not_less powi2_less_iff)
  show ?thesis
  proof (cases "ulpx r \<le> e")
    case True
    have "r = of_int (m * 2 ^ nat (e - ulpx r)) * 2 powi (ulpx r)"
      using powi2_split [OF True] by (simp add: r)
    then show ?thesis by (rule rnd64_grid_exact)
  next
    case False
    with il e have u: "ulpx r = e + 1" and i: "ilog2 \<bar>r\<bar> = 53 + e" by (auto simp: ulpx_def)
    have "(2::rat) powi (53 + e) \<le> of_int \<bar>m\<bar> * 2 powi e"
      using ilog2_bounds(1) [OF ar] by (simp add: i) (simp add: r abs_mult)
    then have "(2::rat) ^ 53 \<le> of_int \<bar>m\<bar>" by (simp add: power_int_add)
    then have "(2::int) ^ 53 \<le> \<bar>m\<bar>" by (metis of_int_le_iff of_int_numeral of_int_power)
    with m have "\<bar>m\<bar> = 2 ^ 53" by simp
    then have "m = (sgn m * 2 ^ 52) * 2" by (simp add: sgn_if abs_if split: if_splits)
    then have "(of_int m :: rat) = of_int (sgn m * 2 ^ 52) * 2"
      by (metis of_int_mult of_int_numeral)
    then have "r = of_int (sgn m * 2 ^ 52) * (2 * 2 powi e)" by (simp add: r)
    also have "2 * 2 powi e = (2::rat) powi (ulpx r)" by (simp add: u power_int_add)
    finally have "r = of_int (sgn m * 2 ^ 52) * 2 powi (ulpx r)" .
    then show ?thesis by (rule rnd64_grid_exact)
  qed
qed

lemma rnd64_idem [simp]: "rnd64 (rnd64 x) = rnd64 x"
  by (rule rnd64_id) (rule rnd64_representable)

lemma representable_of_int: "\<bar>n\<bar> \<le> 2 ^ 53 \<Longrightarrow> representable (of_int n)"
  unfolding representable_def by (intro exI [of _ n] exI [of _ 0]) simp

lemma representable_scaled: "\<bar>m\<bar> \<le> 2 ^ 53 \<Longrightarrow> - 1074 \<le> e \<Longrightarrow> representable (of_int m * 2 powi e)"
  unfolding representable_def by blast

lemma representable_powi: "- 1074 \<le> e \<Longrightarrow> representable (2 powi e)"
  unfolding representable_def by (intro exI [of _ 1] exI [of _ e]) simp

lemma representable_minus [simp]: "representable (- x) = representable x"
  by (metis minus_minus rnd64_id rnd64_minus rnd64_representable)

lemma representable_0 [simp]: "representable 0"
  using representable_of_int [of 0] by simp

lemma representable_1 [simp]: "representable 1"
  using representable_of_int [of 1] by simp

lemma rnd64_1 [simp]: "rnd64 1 = 1"
  by (simp add: rnd64_id)

subsection \<open>The rounding error, and integer division through it\<close>

lemma rnd64_error: "\<bar>rnd64 x - x\<bar> \<le> 2 powi (ulpx x) / 2"
proof (cases "x = 0")
  case False
  let ?u = "(2::rat) powi (ulpx x)"
  have "\<bar>x / ?u - of_int (rhe (x / ?u))\<bar> \<le> 1/2" by (rule rhe_error)
  then have "\<bar>x / ?u - of_int (rhe (x / ?u))\<bar> * ?u \<le> 1/2 * ?u"
    by (intro mult_right_mono) (auto simp: less_imp_le)
  also have "\<bar>x / ?u - of_int (rhe (x / ?u))\<bar> * ?u = \<bar>(x / ?u - of_int (rhe (x / ?u))) * ?u\<bar>"
    by (simp add: abs_mult)
  also have "\<dots> = \<bar>x - rnd64 x\<bar>" using False by (simp add: rnd64_def Let_def left_diff_distrib)
  finally show ?thesis by (simp add: abs_minus_commute)
qed simp

lemma ulpx_le: "x \<noteq> 0 \<Longrightarrow> \<bar>x\<bar> < 2 powi k \<Longrightarrow> - 1021 \<le> k \<Longrightarrow> ulpx x \<le> k - 53"
proof -
  assume x: "x \<noteq> 0" "\<bar>x\<bar> < 2 powi k" and k: "- 1021 \<le> k"
  have "2 powi (ilog2 \<bar>x\<bar>) < (2::rat) powi k" using ilog2_bounds(1) [of "\<bar>x\<bar>"] x by simp
  then have "ilog2 \<bar>x\<bar> < k" by (simp only: powi2_less_iff)
  with k show ?thesis by (simp add: ulpx_def)
qed

text \<open>Dividing two integers and taking the floor is integer division while the operands are small.\<close>

lemma int_quotient_bounds:
  assumes "0 < d"
  shows "of_int (r div d) \<le> (of_int r / of_int d :: rat)" "(of_int r / of_int d :: rat) \<le> of_int (r div d) + 1 - 1 / of_int d"
proof -
  have dpos: "0 < (of_int d :: rat)" using assms by simp
  have "r = (r div d) * d + r mod d" by simp
  moreover have "r mod d \<le> d - 1" "0 \<le> r mod d" using assms by simp_all
  ultimately have e: "(of_int r :: rat) = of_int (r div d) * of_int d + of_int (r mod d)"
      and m: "(of_int (r mod d) :: rat) \<le> of_int d - 1" "0 \<le> (of_int (r mod d) :: rat)"
    by (metis of_int_add of_int_mult, metis of_int_1 of_int_diff of_int_le_iff, simp)
  show "of_int (r div d) \<le> (of_int r / of_int d :: rat)" using m dpos by (simp add: e field_simps)
  have "(of_int (r mod d) :: rat) / of_int d \<le> (of_int d - 1) / of_int d"
    using m dpos by (intro divide_right_mono) auto
  then show "(of_int r / of_int d :: rat) \<le> of_int (r div d) + 1 - 1 / of_int d"
    using dpos by (simp add: e add_divide_distrib diff_divide_distrib)
qed

lemma floor_rnd64_div:
  assumes r: "0 \<le> r" "r < 2 ^ 40 * d" and d: "0 < d" "d \<le> 2 ^ 13"
  shows "\<lfloor>rnd64 (of_int r / of_int d)\<rfloor> = r div d"
proof (rule floor_unique)
  define x :: rat where "x = of_int r / of_int d"
  have dpos: "0 < (of_int d :: rat)" using d by simp
  have q: "of_int (r div d) \<le> x" "x \<le> of_int (r div d) + 1 - 1 / of_int d"
    unfolding x_def using int_quotient_bounds [OF d(1), of r] by simp_all
  have "(of_int r :: rat) < of_int (2 ^ 40 * d)" using r by (simp only: of_int_less_iff)
  then have x40: "x < 2 ^ 40" using dpos by (simp add: x_def pos_divide_less_eq)
  have x0: "0 \<le> x" using r d by (simp add: x_def)
  have "(of_int (r div d) :: rat) < of_int (2 ^ 40)" using q(1) x40 by simp
  then have "r div d < 2 ^ 40" by (simp only: of_int_less_iff)
  then have rep: "representable (of_int (r div d))"
    using r d by (intro representable_of_int) (simp add: pos_imp_zdiv_nonneg_iff)
  show "of_int (r div d) \<le> rnd64 (of_int r / of_int d)"
    using rnd64_mono [OF q(1)] rnd64_id [OF rep] by (simp add: x_def)
  show "rnd64 (of_int r / of_int d) < of_int (r div d) + 1"
  proof (cases "x = 0")
    case True
    then have "r = 0" using dpos by (simp add: x_def)
    then show ?thesis by simp
  next
    case False
    have "ulpx x \<le> - 13" using ulpx_le [of x 40] x0 x40 False by simp
    then have "2 powi (ulpx x) \<le> (2::rat) powi (- 13)" by (intro power_int_increasing) auto
    then have a: "2 powi (ulpx x) / 2 \<le> (1 / 16384 :: rat)" by (simp add: power_int_minus)
    have b: "(1 / 8192 :: rat) \<le> 1 / of_int d"
    proof -
      have "(of_int d :: rat) \<le> of_int (2 ^ 13)" using d by (simp only: of_int_le_iff)
      then show ?thesis using dpos by (simp add: frac_le)
    qed
    have "rnd64 x < of_int (r div d) + 1"
      using a b q(2) abs_le_D1 [OF rnd64_error [of x]] by linarith
    then show ?thesis by (simp add: x_def)
  qed
qed

section \<open>What a numeric routine may rely on\<close>

text \<open>
  The facts the numeric components use of the rounding, as an interface: any monotone, odd
  rounding that fixes its own results. Sign and range arguments of the components need no
  more than this.
\<close>

locale rounding =
  fixes rnd :: "rat \<Rightarrow> rat"
  assumes mono: "x \<le> y \<Longrightarrow> rnd x \<le> rnd y"
    and odd: "rnd (- x) = - rnd x"
    and idem: "rnd (rnd x) = rnd x"
    and one: "rnd 1 = 1"
begin

lemma zero: "rnd 0 = 0"
  using odd [of 0] by simp

lemma nonneg: "0 \<le> x \<Longrightarrow> 0 \<le> rnd x"
  using mono [of 0 x] by (simp add: zero)

lemma nonpos: "x \<le> 0 \<Longrightarrow> rnd x \<le> 0"
  using mono [of x 0] by (simp add: zero)

text \<open>A result between two values of the format stays between them.\<close>

lemma below: "x \<le> b \<Longrightarrow> rnd b = b \<Longrightarrow> rnd x \<le> b"
  using mono [of x b] by simp

lemma above: "a \<le> x \<Longrightarrow> rnd a = a \<Longrightarrow> a \<le> rnd x"
  using mono [of a x] by simp

lemma le_one: "x \<le> 1 \<Longrightarrow> rnd x \<le> 1"
  by (rule below) (simp_all add: one)

lemma ge_minus_one: "- 1 \<le> x \<Longrightarrow> - 1 \<le> rnd x"
  by (rule above) (simp_all add: odd one)

lemma abs: "\<bar>rnd x\<bar> = rnd \<bar>x\<bar>"
  using nonneg [of x] nonpos [of x] by (cases "0 \<le> x") (auto simp: odd abs_if)

end

interpretation b64: rounding rnd64
  by unfold_locales (simp_all add: rnd64_mono rnd64_minus)

end
