(* ===== verification/JsNumber.thy ===== *)
theory JsNumber
  imports Binary64
begin

text \<open>
  The JavaScript \<open>number\<close> type and the operations the sources apply to it. A value is a
  finite binary64 (the rational it denotes), an infinity or \<open>NaN\<close>; negative zero is
  identified with zero, which no operation used by the sources tells apart (it is printed as
  \<open>0\<close> and compares equal to it; the sources guard every division whose divisor may be
  zero or never look at the sign of the infinite result). Arithmetic is exact arithmetic
  followed by \<open>rnd64\<close> and the overflow test. Comparisons with \<open>NaN\<close> are false.
\<close>

datatype number = Fin rat | PInf | MInf | NaN

text \<open>Rounding with overflow: the rounded magnitude reaches \<open>2 ^ 1024\<close>.\<close>

definition flo :: "rat \<Rightarrow> number" where
  "flo x = (let r = rnd64 x in
     if r \<ge> 2 ^ 1024 then PInf else if r \<le> - (2 ^ 1024) then MInf else Fin r)"

definition sgn_inf :: "rat \<Rightarrow> number" where
  "sgn_inf x = (if x > 0 then PInf else if x < 0 then MInf else NaN)"

fun num_neg :: "number \<Rightarrow> number" where
  "num_neg (Fin a) = Fin (- a)"
| "num_neg PInf = MInf"
| "num_neg MInf = PInf"
| "num_neg NaN = NaN"

fun num_add :: "number \<Rightarrow> number \<Rightarrow> number" where
  "num_add (Fin a) (Fin b) = flo (a + b)"
| "num_add NaN _ = NaN"
| "num_add _ NaN = NaN"
| "num_add PInf MInf = NaN"
| "num_add MInf PInf = NaN"
| "num_add PInf _ = PInf"
| "num_add _ PInf = PInf"
| "num_add MInf _ = MInf"
| "num_add _ MInf = MInf"

fun num_mul :: "number \<Rightarrow> number \<Rightarrow> number" where
  "num_mul (Fin a) (Fin b) = flo (a * b)"
| "num_mul NaN _ = NaN"
| "num_mul _ NaN = NaN"
| "num_mul PInf (Fin b) = sgn_inf b"
| "num_mul MInf (Fin b) = sgn_inf (- b)"
| "num_mul (Fin a) PInf = sgn_inf a"
| "num_mul (Fin a) MInf = sgn_inf (- a)"
| "num_mul PInf PInf = PInf"
| "num_mul MInf MInf = PInf"
| "num_mul PInf MInf = MInf"
| "num_mul MInf PInf = MInf"

fun num_div :: "number \<Rightarrow> number \<Rightarrow> number" where
  "num_div (Fin a) (Fin b) = (if b = 0 then sgn_inf a else flo (a / b))"
| "num_div NaN _ = NaN"
| "num_div _ NaN = NaN"
| "num_div (Fin a) _ = Fin 0"
| "num_div PInf (Fin b) = (if b < 0 then MInf else PInf)"
| "num_div MInf (Fin b) = (if b < 0 then PInf else MInf)"
| "num_div _ _ = NaN"

instantiation number :: "{zero, one, plus, uminus, minus, times, inverse}"
begin

definition zero_number :: number where "0 = Fin 0"

definition one_number :: number where "1 = Fin 1"

definition plus_number :: "number \<Rightarrow> number \<Rightarrow> number" where "a + b = num_add a b"

definition uminus_number :: "number \<Rightarrow> number" where "- a = num_neg a"

definition minus_number :: "number \<Rightarrow> number \<Rightarrow> number" where "a - b = num_add a (num_neg b)"

definition times_number :: "number \<Rightarrow> number \<Rightarrow> number" where "a * b = num_mul a b"

definition divide_number :: "number \<Rightarrow> number \<Rightarrow> number" where "a div b = num_div a b"

definition inverse_number :: "number \<Rightarrow> number" where "inverse a = num_div (Fin 1) a"

instance ..

end

lemma fin_ops [simp, num_eval]:
  "Fin a + Fin b = flo (a + b)"
  "Fin a - Fin b = flo (a - b)"
  "Fin a * Fin b = flo (a * b)"
  "Fin a / Fin b = (if b = 0 then sgn_inf a else flo (a / b))"
  "- Fin a = Fin (- a)"
  by (simp_all add: plus_number_def minus_number_def times_number_def divide_number_def
      uminus_number_def)

section \<open>Comparisons and predicates\<close>

fun num_lt :: "number \<Rightarrow> number \<Rightarrow> bool" where
  "num_lt (Fin a) (Fin b) = (a < b)"
| "num_lt NaN _ = False"
| "num_lt _ NaN = False"
| "num_lt MInf b = (b \<noteq> MInf)"
| "num_lt _ MInf = False"
| "num_lt PInf _ = False"
| "num_lt (Fin _) PInf = True"

fun num_le :: "number \<Rightarrow> number \<Rightarrow> bool" where
  "num_le (Fin a) (Fin b) = (a \<le> b)"
| "num_le NaN _ = False"
| "num_le _ NaN = False"
| "num_le MInf _ = True"
| "num_le _ PInf = True"
| "num_le _ _ = False"

text \<open>\<open>===\<close> on numbers: \<open>NaN\<close> equals nothing.\<close>

definition num_eq :: "number \<Rightarrow> number \<Rightarrow> bool" where
  "num_eq a b = (a \<noteq> NaN \<and> a = b)"

fun is_finite :: "number \<Rightarrow> bool" where
  "is_finite (Fin _) = True"
| "is_finite _ = False"

text \<open>Truthiness of a number: \<open>0\<close> and \<open>NaN\<close> are falsy.\<close>

definition truthy :: "number \<Rightarrow> bool" where
  "truthy a = (a \<noteq> NaN \<and> a \<noteq> Fin 0)"

section \<open>The Math functions the sources use\<close>

fun num_abs :: "number \<Rightarrow> number" where
  "num_abs (Fin a) = Fin \<bar>a\<bar>"
| "num_abs PInf = PInf"
| "num_abs MInf = PInf"
| "num_abs NaN = NaN"

definition num_max :: "number \<Rightarrow> number \<Rightarrow> number" where
  "num_max a b = (if a = NaN \<or> b = NaN then NaN else if num_lt a b then b else a)"

definition num_min :: "number \<Rightarrow> number \<Rightarrow> number" where
  "num_min a b = (if a = NaN \<or> b = NaN then NaN else if num_lt b a then b else a)"

fun num_floor :: "number \<Rightarrow> number" where
  "num_floor (Fin a) = Fin (of_int \<lfloor>a\<rfloor>)"
| "num_floor x = x"

text \<open>The remainder operator truncates: the result has the sign of the dividend.\<close>

definition rat_rem :: "rat \<Rightarrow> rat \<Rightarrow> rat" where
  "rat_rem a b = (if a < 0 then - (\<bar>a\<bar> - \<bar>b\<bar> * of_int \<lfloor>\<bar>a\<bar> / \<bar>b\<bar>\<rfloor>)
     else \<bar>a\<bar> - \<bar>b\<bar> * of_int \<lfloor>\<bar>a\<bar> / \<bar>b\<bar>\<rfloor>)"

fun num_rem :: "number \<Rightarrow> number \<Rightarrow> number" where
  "num_rem (Fin a) (Fin b) = (if b = 0 then NaN else Fin (rat_rem a b))"
| "num_rem NaN _ = NaN"
| "num_rem _ NaN = NaN"
| "num_rem (Fin a) _ = Fin a"
| "num_rem _ _ = NaN"

text \<open>\<open>Number(b)\<close> of a BigInt \<open>b\<close>.\<close>

definition num_of_int :: "int \<Rightarrow> number" where
  "num_of_int n = flo (of_int n)"

text \<open>A number literal of the source.\<close>

definition lit :: "rat \<Rightarrow> number" where
  "lit x = flo x"

section \<open>The values of the format\<close>

definition b64_value :: "number \<Rightarrow> bool" where
  "b64_value a = (case a of Fin x \<Rightarrow> representable x \<and> \<bar>x\<bar> < 2 ^ 1024 | _ \<Rightarrow> True)"

lemma flo_b64 [simp]: "b64_value (flo x)"
  by (simp add: flo_def Let_def b64_value_def rnd64_representable abs_less_iff not_le)

lemma sgn_inf_b64 [simp]: "b64_value (sgn_inf x)"
  by (simp add: sgn_inf_def b64_value_def)

lemma flo_Fin: "flo x = Fin y \<Longrightarrow> y = rnd64 x"
  by (auto simp: flo_def Let_def split: if_splits)

lemma flo_not_NaN [simp]: "flo x \<noteq> NaN"
  by (simp add: flo_def Let_def)

lemma flo_exact: "representable x \<Longrightarrow> \<bar>x\<bar> < 2 ^ 1024 \<Longrightarrow> flo x = Fin x"
  by (auto simp: flo_def Let_def rnd64_id)

lemma flo_small:
  assumes "\<bar>x\<bar> \<le> b" "representable b" "b < 2 ^ 1024"
  shows "flo x = Fin (rnd64 x)"
proof -
  have "rnd64 x \<le> b" using assms by (intro b64.below) (auto simp: rnd64_id)
  moreover have "- b \<le> rnd64 x"
    using assms by (intro b64.above) (auto simp: rnd64_id rnd64_minus)
  ultimately show ?thesis using assms(3) by (simp add: flo_def Let_def)
qed

lemma flo_of_int: "\<bar>n\<bar> \<le> 2 ^ 53 \<Longrightarrow> flo (of_int n) = Fin (of_int n)"
proof (rule flo_exact)
  assume n: "\<bar>n\<bar> \<le> 2 ^ 53"
  then show "representable (of_int n)" by (rule representable_of_int)
  have "of_int \<bar>n\<bar> \<le> (of_int (2 ^ 53) :: rat)" using n by (simp only: of_int_le_iff)
  also have "(of_int (2 ^ 53) :: rat) < 2 ^ 1024" by simp
  finally show "\<bar>of_int n\<bar> < (2::rat) ^ 1024" by simp
qed

lemma flo_0 [simp]: "flo 0 = Fin 0"
  using flo_of_int [of 0] by simp

lemma flo_mono: "x \<le> y \<Longrightarrow> num_le (flo x) (flo y)"
  using rnd64_mono [of x y] by (auto simp: flo_def Let_def)

lemma num_add_b64 [simp]: "b64_value (a + b)"
  unfolding plus_number_def by (cases "(a, b)" rule: num_add.cases) (simp_all add: b64_value_def [of PInf] b64_value_def [of MInf] b64_value_def [of NaN])

lemma num_mul_b64 [simp]: "b64_value (a * b)"
  unfolding times_number_def by (cases "(a, b)" rule: num_mul.cases) (simp_all add: b64_value_def [of PInf] b64_value_def [of MInf] b64_value_def [of NaN])

section \<open>Bounded values\<close>

text \<open>
  A finite number of magnitude at most the integer \<open>k\<close>. Since integers up to \<open>2 ^ 53\<close>
  are exact, the bound of a rounded result is the bound of the exact one.
\<close>

definition bnd :: "int \<Rightarrow> number \<Rightarrow> bool" where
  "bnd k n = (\<exists>x. n = Fin x \<and> \<bar>x\<bar> \<le> of_int k)"

lemma bnd_Fin [simp]: "bnd k (Fin x) \<longleftrightarrow> \<bar>x\<bar> \<le> of_int k"
  by (simp add: bnd_def)

lemma bnd_mono: "bnd j n \<Longrightarrow> j \<le> k \<Longrightarrow> bnd k n"
  unfolding bnd_def using of_int_le_iff order_trans by blast

lemma bnd_flo: "\<bar>x\<bar> \<le> of_int k \<Longrightarrow> k \<le> 2 ^ 53 \<Longrightarrow> bnd k (flo x)"
proof -
  assume x: "\<bar>x\<bar> \<le> of_int k" and k: "k \<le> 2 ^ 53"
  have "(0::rat) \<le> of_int k" using x by linarith
  then have k0: "0 \<le> k" by simp
  then have r: "representable (of_int k)" using k by (intro representable_of_int) simp
  have "(of_int k :: rat) \<le> of_int (2 ^ 53)" using k by (simp only: of_int_le_iff)
  then have "(of_int k :: rat) < 2 ^ 1024" by simp
  then have "flo x = Fin (rnd64 x)" by (rule flo_small [OF x r])
  moreover have "rnd64 x \<le> of_int k" using x r by (intro b64.below) (auto simp: rnd64_id)
  moreover have "- of_int k \<le> rnd64 x" using x r by (intro b64.above) (auto simp: rnd64_id rnd64_minus)
  ultimately show ?thesis by simp
qed

lemma bnd_add: "bnd j a \<Longrightarrow> bnd k b \<Longrightarrow> j + k \<le> 2 ^ 53 \<Longrightarrow> bnd (j + k) (a + b)"
  by (auto simp: bnd_def [of j] bnd_def [of k] intro!: bnd_flo)

lemma bnd_diff: "bnd j a \<Longrightarrow> bnd k b \<Longrightarrow> j + k \<le> 2 ^ 53 \<Longrightarrow> bnd (j + k) (a - b)"
  by (auto simp: bnd_def [of j] bnd_def [of k] intro!: bnd_flo)

lemma bnd_mul: "bnd j a \<Longrightarrow> bnd k b \<Longrightarrow> j * k \<le> 2 ^ 53 \<Longrightarrow> bnd (j * k) (a * b)"
proof -
  assume "bnd j a" "bnd k b" and le: "j * k \<le> 2 ^ 53"
  then obtain x y where *: "a = Fin x" "\<bar>x\<bar> \<le> of_int j" "b = Fin y" "\<bar>y\<bar> \<le> of_int k"
    by (auto simp: bnd_def)
  then have "\<bar>x * y\<bar> \<le> of_int (j * k)" unfolding abs_mult of_int_mult by (intro mult_mono) auto
  then show ?thesis using * le by (simp add: bnd_flo)
qed

lemma bnd_floor: "bnd k a \<Longrightarrow> bnd k (num_floor a)"
proof -
  assume "bnd k a"
  then obtain x where x: "a = Fin x" "\<bar>x\<bar> \<le> of_int k" by (auto simp: bnd_def)
  then have "- k \<le> \<lfloor>x\<rfloor>" "\<lfloor>x\<rfloor> \<le> k" by linarith+
  then have "\<bar>\<lfloor>x\<rfloor>\<bar> \<le> k" by simp
  then have "of_int \<bar>\<lfloor>x\<rfloor>\<bar> \<le> (of_int k :: rat)" by (simp only: of_int_le_iff)
  then show ?thesis by (simp add: x)
qed

lemma bnd_lit: "\<bar>x\<bar> \<le> of_int k \<Longrightarrow> k \<le> 2 ^ 53 \<Longrightarrow> bnd k (lit x)"
  unfolding lit_def by (rule bnd_flo)

lemma bnd_finite: "bnd k a \<Longrightarrow> is_finite a"
  by (auto simp: bnd_def)

lemma bnd_div: "bnd k a \<Longrightarrow> 1 \<le> b \<Longrightarrow> k \<le> 2 ^ 53 \<Longrightarrow> bnd k (a / Fin b)"
proof -
  assume "bnd k a" and b: "1 \<le> b" and k: "k \<le> 2 ^ 53"
  then obtain x where x: "a = Fin x" "\<bar>x\<bar> \<le> of_int k" by (auto simp: bnd_def)
  have "\<bar>x\<bar> / b \<le> \<bar>x\<bar>" using divide_left_mono [of 1 b "\<bar>x\<bar>"] b by simp
  then have "\<bar>x / b\<bar> \<le> of_int k" using x b by (simp add: abs_divide)
  then show ?thesis using x b k by (auto intro!: bnd_flo)
qed

end
