(* ===== verification/JsString.thy ===== *)
theory JsString
  imports JsNumber
begin

text \<open>
  The JavaScript string operations the sources use, and the conversions between strings
  and numbers: \<open>Number(s)\<close>, \<open>BigInt(s)\<close>, \<open>String(n)\<close>, \<open>n.toFixed(d)\<close>,
  \<open>indexOf\<close>, \<open>slice\<close>, \<open>split\<close>, \<open>padStart\<close>, \<open>toUpperCase\<close> and the
  thousands separator regular expression. A string is a list of code units below 256; the
  em dash the sources print for a missing number is its UTF-8 encoding \<open>dash\<close>.
\<close>

section \<open>Characters and digits\<close>

definition dash :: string where
  "dash = [CHR 0xE2, CHR 0x80, CHR 0x94]"

definition is_digit :: "char \<Rightarrow> bool" where
  "is_digit c = (let n = (of_char c :: nat) in 48 \<le> n \<and> n \<le> 57)"

definition digit_val :: "char \<Rightarrow> nat" where
  "digit_val c = of_char c - 48"

definition digit_char :: "nat \<Rightarrow> char" where
  "digit_char d = char_of (48 + d)"

text \<open>\<open>\w\<close> of a regular expression: letters, digits and the underscore.\<close>

definition is_word_char :: "char \<Rightarrow> bool" where
  "is_word_char c = (let n = (of_char c :: nat) in
     48 \<le> n \<and> n \<le> 57 \<or> 65 \<le> n \<and> n \<le> 90 \<or> n = 95 \<or> 97 \<le> n \<and> n \<le> 122)"

definition is_space :: "char \<Rightarrow> bool" where
  "is_space c = (let n = (of_char c :: nat) in 9 \<le> n \<and> n \<le> 13 \<or> n = 32 \<or> n = 160)"

lemma of_char_digit [simp]: "d < 10 \<Longrightarrow> (of_char (digit_char d) :: nat) = 48 + d"
  by (simp add: digit_char_def)

lemma digit_char_digit [simp]: "d < 10 \<Longrightarrow> is_digit (digit_char d)"
  by (simp add: is_digit_def Let_def)

lemma digit_val_char [simp]: "d < 10 \<Longrightarrow> digit_val (digit_char d) = d"
  by (simp add: digit_val_def)

lemma digit_char_val [simp]: "is_digit c \<Longrightarrow> digit_char (digit_val c) = c"
  by (simp add: digit_char_def digit_val_def is_digit_def Let_def)

lemma digit_val_less: "is_digit c \<Longrightarrow> digit_val c < 10"
  by (auto simp: digit_val_def is_digit_def Let_def)

lemma digit_is_word [simp]: "is_digit c \<Longrightarrow> is_word_char c"
  by (simp add: is_digit_def is_word_char_def Let_def)

section \<open>Decimal notation of natural numbers\<close>

fun nat_digits :: "int \<Rightarrow> string" where
  "nat_digits n = (if n < 10 then [digit_char (nat n)]
     else nat_digits (n div 10) @ [digit_char (nat (n mod 10))])"

declare nat_digits.simps [simp del]

definition int_str :: "int \<Rightarrow> string" where
  "int_str n = (if n < 0 then CHR ''-'' # nat_digits (- n) else nat_digits n)"

definition digits_val :: "string \<Rightarrow> int" where
  "digits_val s = foldl (\<lambda>a c. 10 * a + int (digit_val c)) 0 s"

lemma digits_val_snoc: "digits_val (s @ [c]) = 10 * digits_val s + int (digit_val c)"
  by (simp add: digits_val_def)

lemma nat_digits_all: "0 \<le> n \<Longrightarrow> list_all is_digit (nat_digits n)"
proof (induction n rule: nat_digits.induct)
  case (1 n)
  then show ?case by (subst nat_digits.simps) (auto simp: nat_less_iff)
qed

lemma nat_digits_ne [simp]: "nat_digits n \<noteq> []"
  by (subst nat_digits.simps) simp

lemma digits_val_nat_digits: "0 \<le> n \<Longrightarrow> digits_val (nat_digits n) = n"
proof (induction n rule: nat_digits.induct)
  case (1 n)
  show ?case
  proof (cases "n < 10")
    case True
    with "1.prems" have "digit_val (digit_char (nat n)) = nat n" by simp
    with True "1.prems" show ?thesis by (subst nat_digits.simps) (simp add: digits_val_def)
  next
    case False
    have "digit_val (digit_char (nat (n mod 10))) = nat (n mod 10)" by simp
    moreover have "digits_val (nat_digits (n div 10)) = n div 10" using 1 False by simp
    ultimately show ?thesis using False
      by (subst nat_digits.simps) (simp add: digits_val_snoc)
  qed
qed

section \<open>Slicing, searching, padding\<close>

text \<open>\<open>s.indexOf(c)\<close> for a single character: -1 when absent.\<close>

fun index_from :: "int \<Rightarrow> char \<Rightarrow> string \<Rightarrow> int" where
  "index_from i c [] = - 1"
| "index_from i c (d # s) = (if d = c then i else index_from (i + 1) c s)"

definition index_of :: "string \<Rightarrow> char \<Rightarrow> int" where
  "index_of s c = index_from 0 c s"

text \<open>\<open>s.slice(i, j)\<close>: negative bounds count from the end, bounds are clamped.\<close>

definition slice_bound :: "int \<Rightarrow> int \<Rightarrow> nat" where
  "slice_bound n i = nat (if i < 0 then max 0 (n + i) else min i n)"

definition slice :: "'a list \<Rightarrow> int \<Rightarrow> int \<Rightarrow> 'a list" where
  "slice s i j = (let n = int (length s); a = slice_bound n i; b = slice_bound n j
     in take (b - a) (drop a s))"

definition slice_from :: "'a list \<Rightarrow> int \<Rightarrow> 'a list" where
  "slice_from s i = drop (slice_bound (int (length s)) i) s"

definition pad_start :: "nat \<Rightarrow> char \<Rightarrow> string \<Rightarrow> string" where
  "pad_start n c s = replicate (n - length s) c @ s"

fun split_at :: "char \<Rightarrow> string \<Rightarrow> string list" where
  "split_at c [] = [[]]"
| "split_at c (d # s) = (if d = c then [] # split_at c s
     else case split_at c s of [] \<Rightarrow> [[d]] | w # ws \<Rightarrow> (d # w) # ws)"

text \<open>\<open>parts.join(sep)\<close>.\<close>

fun join_with :: "string \<Rightarrow> string list \<Rightarrow> string" where
  "join_with sep [] = []"
| "join_with sep [x] = x"
| "join_with sep (x # y # ys) = x @ sep @ join_with sep (y # ys)"

definition to_upper :: "string \<Rightarrow> string" where
  "to_upper s = map (\<lambda>c. if 97 \<le> (of_char c :: nat) \<and> of_char c \<le> (122::nat)
     then char_of ((of_char c :: nat) - 32) else c) s"

definition to_lower :: "string \<Rightarrow> string" where
  "to_lower s = map (\<lambda>c. if 65 \<le> (of_char c :: nat) \<and> of_char c \<le> (90::nat)
     then char_of ((of_char c :: nat) + 32) else c) s"

definition starts_with :: "string \<Rightarrow> string \<Rightarrow> bool" where
  "starts_with s p = (take (length p) s = p)"

text \<open>\<open>s.includes(q)\<close>.\<close>

fun has_infix :: "string \<Rightarrow> string \<Rightarrow> bool" where
  "has_infix q [] = (q = [])"
| "has_infix q (c # cs) = (starts_with (c # cs) q \<or> has_infix q cs)"

lemma split_at_ne [simp]: "split_at c s \<noteq> []"
  by (induction s) (auto split: list.splits)

lemma split_at_absent: "c \<notin> set s \<Longrightarrow> split_at c s = [s]"
  by (induction s) auto

lemma split_at_append: "c \<notin> set s \<Longrightarrow> split_at c (s @ c # t) = s # split_at c t"
  by (induction s) auto

lemma index_from_absent: "c \<notin> set s \<Longrightarrow> index_from i c s = - 1"
  by (induction s arbitrary: i) auto

lemma index_from_append: "c \<notin> set s \<Longrightarrow> index_from i c (s @ c # t) = i + int (length s)"
  by (induction s arbitrary: i) auto

section \<open>Printing numbers\<close>

text \<open>
  \<open>Number.prototype.toFixed\<close>: the integer nearest to \<open>x * 10 ^ f\<close>, the larger one
  on a tie, printed with \<open>f\<close> digits after the point.
\<close>

definition fixed_str :: "rat \<Rightarrow> nat \<Rightarrow> string" where
  "fixed_str x f =
     (let m = nat_digits \<lfloor>x * 10 ^ f + 1/2\<rfloor>;
          m' = pad_start (f + 1) (CHR ''0'') m;
          i = length m' - f
      in if f = 0 then m else take i m' @ CHR ''.'' # drop i m')"

text \<open>
  \<open>Number::toString\<close>: the shortest decimal that rounds back to the value, in plain
  notation for magnitudes from \<open>1e-6\<close> up to \<open>1e21\<close>, with an exponent otherwise;
  an integer of at most \<open>2 ^ 53\<close> is its own shortest decimal and is printed as such.
  The decimal exponent search is bounded by 400 steps, above the 324 a binary64 can need.
\<close>

fun small_expo :: "nat \<Rightarrow> rat \<Rightarrow> int" where
  "small_expo 0 x = 0"
| "small_expo (Suc k) x = (if x \<ge> 1 / 10 then 0 else small_expo k (10 * x) - 1)"

definition dec_expo :: "rat \<Rightarrow> int" where
  "dec_expo x = (if x \<ge> 1 then int (length (nat_digits \<lfloor>x\<rfloor>)) else small_expo 400 x)"

fun shortest :: "nat \<Rightarrow> nat \<Rightarrow> int \<Rightarrow> rat \<Rightarrow> int \<times> nat" where
  "shortest 0 k n x = (\<lfloor>x / 10 powi (n - int k)\<rfloor>, k)"
| "shortest (Suc fuel) k n x =
     (let u = 10 powi (n - int k); lo = \<lfloor>x / u\<rfloor>;
          ok = (\<lambda>c. rnd64 (of_int c * u) = x)
      in if ok lo \<and> ok (lo + 1)
         then (if x - of_int lo * u \<le> of_int (lo + 1) * u - x then lo else lo + 1, k)
         else if ok lo then (lo, k) else if ok (lo + 1) then (lo + 1, k)
         else shortest fuel (Suc k) n x)"

definition drop_zeros :: "string \<Rightarrow> string" where
  "drop_zeros s = rev (dropWhile (\<lambda>c. c = CHR ''0'') (rev s))"

definition pos_str :: "rat \<Rightarrow> string" where
  "pos_str x =
     (let (c, k0) = shortest 17 1 (dec_expo x) x;
          raw = nat_digits c;
          n = dec_expo x + int (length raw) - int k0;
          ds = drop_zeros raw;
          k = int (length ds)
      in if k \<le> n \<and> n \<le> 21 then ds @ replicate (nat (n - k)) (CHR ''0'')
         else if 0 < n \<and> n \<le> 21 then take (nat n) ds @ CHR ''.'' # drop (nat n) ds
         else if - 6 < n \<and> n \<le> 0 then ''0.'' @ replicate (nat (- n)) (CHR ''0'') @ ds
         else let e = n - 1; es = (if e < 0 then ''-'' else ''+'') @ nat_digits \<bar>e\<bar>
              in if k = 1 then ds @ ''e'' @ es else take 1 ds @ ''.'' @ drop 1 ds @ ''e'' @ es)"

fun num_str :: "number \<Rightarrow> string" where
  "num_str NaN = ''NaN''"
| "num_str PInf = ''Infinity''"
| "num_str MInf = ''-Infinity''"
| "num_str (Fin x) =
     (if x = of_int \<lfloor>x\<rfloor> \<and> \<bar>x\<bar> \<le> 2 ^ 53 then int_str \<lfloor>x\<rfloor>
      else if x < 0 then CHR ''-'' # pos_str (- x) else pos_str x)"

text \<open>\<open>toFixed\<close>; the code asks for a few digits only, never for the more than 100 that throw.\<close>

fun to_fixed :: "number \<Rightarrow> nat \<Rightarrow> string" where
  "to_fixed (Fin x) f =
     (if \<bar>x\<bar> \<ge> 10 ^ 21 then num_str (Fin x)
      else if x < 0 then CHR ''-'' # fixed_str (- x) f else fixed_str x f)"
| "to_fixed x f = num_str x"

section \<open>Reading numbers\<close>

definition trim :: "string \<Rightarrow> string" where
  "trim s = rev (dropWhile is_space (rev (dropWhile is_space s)))"

definition exponent_val :: "string \<Rightarrow> int option" where
  "exponent_val s =
     (let (neg, ds) = (case s of c # r \<Rightarrow> if c = CHR ''-'' then (True, r)
          else if c = CHR ''+'' then (False, r) else (False, s) | [] \<Rightarrow> (False, s))
      in if ds = [] \<or> \<not> list_all is_digit ds then None
         else Some (if neg then - digits_val ds else digits_val ds))"

definition decimal_val :: "string \<Rightarrow> rat option" where
  "decimal_val s =
     (let ip = takeWhile is_digit s; r1 = dropWhile is_digit s;
          fp = (case r1 of c # r \<Rightarrow> if c = CHR ''.'' then takeWhile is_digit r else [] | [] \<Rightarrow> []);
          r2 = (case r1 of c # r \<Rightarrow> if c = CHR ''.'' then dropWhile is_digit r else r1 | [] \<Rightarrow> []);
          m = of_int (digits_val (ip @ fp))
      in if ip = [] \<and> fp = [] then None
         else case r2 of [] \<Rightarrow> Some (m * 10 powi (- int (length fp)))
           | c # r \<Rightarrow> if c = CHR ''e'' \<or> c = CHR ''E''
               then (case exponent_val r of None \<Rightarrow> None
                     | Some e \<Rightarrow> Some (m * 10 powi (e - int (length fp))))
               else None)"

definition radix_digit :: "char \<Rightarrow> nat" where
  "radix_digit c = (let n = (of_char c :: nat) in
     if 48 \<le> n \<and> n \<le> 57 then n - 48
     else if 97 \<le> n \<and> n \<le> 122 then n - 87
     else if 65 \<le> n \<and> n \<le> 90 then n - 55 else 99)"

definition radix_val :: "nat \<Rightarrow> string \<Rightarrow> int option" where
  "radix_val b s = (if s = [] \<or> \<not> list_all (\<lambda>c. radix_digit c < b) s then None
     else Some (foldl (\<lambda>a c. int b * a + int (radix_digit c)) 0 s))"

text \<open>\<open>0x\<close>, \<open>0o\<close> and \<open>0b\<close> literals: the outer option says whether a prefix is there.\<close>

definition prefixed_val :: "string \<Rightarrow> int option option" where
  "prefixed_val s = (case s of z # p # r \<Rightarrow>
       if z \<noteq> CHR ''0'' then None
       else if p = CHR ''x'' \<or> p = CHR ''X'' then Some (radix_val 16 r)
       else if p = CHR ''o'' \<or> p = CHR ''O'' then Some (radix_val 8 r)
       else if p = CHR ''b'' \<or> p = CHR ''B'' then Some (radix_val 2 r)
       else None
     | _ \<Rightarrow> None)"

definition signed_part :: "string \<Rightarrow> bool \<times> string" where
  "signed_part s = (case s of c # r \<Rightarrow> if c = CHR ''-'' then (True, r)
     else if c = CHR ''+'' then (False, r) else (False, s) | [] \<Rightarrow> (False, s))"

definition to_number :: "string \<Rightarrow> number" where
  "to_number str =
     (let s = trim str in
      if s = [] then Fin 0
      else case prefixed_val s of
        Some None \<Rightarrow> NaN
      | Some (Some n) \<Rightarrow> num_of_int n
      | None \<Rightarrow> (let (neg, t) = signed_part s in
          if t = ''Infinity'' then (if neg then MInf else PInf)
          else case decimal_val t of None \<Rightarrow> NaN
            | Some x \<Rightarrow> flo (if neg then - x else x)))"

datatype js_error = SyntaxError string | RangeError string | TypeError string | ErrorMsg string

text \<open>\<open>BigInt(s)\<close>.\<close>

definition to_bigint :: "string \<Rightarrow> (js_error, int) result" where
  "to_bigint str =
     (let s = trim str in
      if s = [] then Return 0
      else case prefixed_val s of
        Some None \<Rightarrow> Throw (SyntaxError str)
      | Some (Some n) \<Rightarrow> Return n
      | None \<Rightarrow> (let (neg, t) = signed_part s in
          if t = [] \<or> \<not> list_all is_digit t then Throw (SyntaxError str)
          else Return (if neg then - digits_val t else digits_val t)))"

section \<open>The thousands separator\<close>

text \<open>
  \<open>s.replace(/\\B(?=(\\d{3})+(?!\\d))/g, ",")\<close>: a comma at every position that is not a
  word boundary and whose following run of digits has a positive multiple of three digits.
\<close>

fun commas_from :: "bool \<Rightarrow> string \<Rightarrow> string" where
  "commas_from w [] = []"
| "commas_from w (c # s) =
     (let r = length (takeWhile is_digit (c # s)) in
      if w = is_word_char c \<and> 0 < r \<and> r mod 3 = 0
      then CHR '','' # c # commas_from (is_word_char c) s
      else c # commas_from (is_word_char c) s)"

definition with_commas :: "string \<Rightarrow> string" where
  "with_commas s = commas_from False s"

text \<open>The reference: groups of three digits counted from the right.\<close>

fun group3 :: "string \<Rightarrow> string" where
  "group3 [] = []"
| "group3 (c # s) = (if s \<noteq> [] \<and> length s mod 3 = 0 then c # CHR '','' # group3 s else c # group3 s)"

lemma comma_not_digit [simp]: "\<not> is_digit (CHR '','')"
  by (simp add: is_digit_def Let_def)

lemma commas_from_digits:
  "list_all is_digit s \<Longrightarrow> s \<noteq> [] \<Longrightarrow> commas_from True s =
     (if length s mod 3 = 0 then CHR '','' # group3 s else group3 s)"
proof (induction s)
  case Nil
  then show ?case by simp
next
  case (Cons c s)
  then have tw: "takeWhile is_digit (c # s) = c # s"
    by (simp add: takeWhile_eq_all_conv list_all_iff)
  have c: "is_digit c" using Cons.prems by simp
  have step: "commas_from True (c # s) = (if length (c # s) mod 3 = 0
      then CHR '','' # c # commas_from True s else c # commas_from True s)"
    by (subst commas_from.simps) (simp only: tw Let_def digit_is_word [OF c], simp)
  show ?case using Cons step by (cases "s = []") (simp_all del: commas_from.simps(2))
qed

lemma with_commas_digits: "list_all is_digit s \<Longrightarrow> with_commas s = group3 s"
proof (cases s)
  case Nil
  then show ?thesis by (simp add: with_commas_def)
next
  case (Cons c t)
  assume "list_all is_digit s"
  then show ?thesis
    using commas_from_digits [of t] Cons by (cases t) (auto simp: with_commas_def Let_def)
qed

lemma filter_commas_from:
  "CHR '','' \<notin> set s \<Longrightarrow> filter (\<lambda>c. c \<noteq> CHR '','') (commas_from w s) = s"
  by (induction s arbitrary: w) (auto simp: Let_def)

lemma filter_with_commas: "CHR '','' \<notin> set s \<Longrightarrow> filter (\<lambda>c. c \<noteq> CHR '','') (with_commas s) = s"
  by (simp add: with_commas_def filter_commas_from)

lemma set_commas_from: "set (commas_from w s) \<subseteq> insert (CHR '','') (set s)"
  by (induction s arbitrary: w) (auto simp: Let_def)

section \<open>Printing and reading back\<close>

definition plain_char :: "char \<Rightarrow> bool" where
  "plain_char c = (is_digit c \<or> c = CHR ''.'')"

lemma plain_not_space: "plain_char c \<Longrightarrow> \<not> is_space c"
  by (auto simp: plain_char_def is_digit_def is_space_def Let_def)

lemma trim_plain: "list_all plain_char s \<Longrightarrow> trim s = s"
proof -
  assume a: "list_all plain_char s"
  have "dropWhile is_space t = t" if "list_all plain_char t" for t
    using that by (cases t) (auto simp: plain_not_space)
  then show ?thesis using a by (simp add: trim_def list_all_iff)
qed

lemma to_number_plain:
  assumes "list_all plain_char s" "s \<noteq> []"
  shows "to_number s = (case decimal_val s of None \<Rightarrow> NaN | Some x \<Rightarrow> flo x)"
proof -
  have pc: "\<not> plain_char (CHR ''x'')" "\<not> plain_char (CHR ''X'')" "\<not> plain_char (CHR ''o'')"
    "\<not> plain_char (CHR ''O'')" "\<not> plain_char (CHR ''b'')" "\<not> plain_char (CHR ''B'')"
    "\<not> plain_char (CHR ''-'')" "\<not> plain_char (CHR ''+'')" "\<not> plain_char (CHR ''I'')"
    by (simp_all add: plain_char_def is_digit_def Let_def)
  have p: "prefixed_val s = None"
    using assms pc by (cases s; cases "tl s") (auto simp: prefixed_val_def)
  have sg: "signed_part s = (False, s)"
    using assms pc by (cases s) (auto simp: signed_part_def)
  have inf: "s \<noteq> ''Infinity''" using assms pc by auto
  show ?thesis using assms
    by (simp add: to_number_def trim_plain p sg inf split: option.split)
qed

lemma digits_val_zeros: "digits_val (replicate n (CHR ''0'') @ s) = digits_val s"
proof (induction n)
  case (Suc n)
  have "digits_val (CHR ''0'' # t) = digits_val t" for t
    by (simp add: digits_val_def digit_val_def)
  with Suc show ?case by simp
qed simp

lemma fixed_digits:
  fixes x :: rat and f :: nat
  assumes "0 \<le> x"
  defines "m \<equiv> pad_start (f + 1) (CHR ''0'') (nat_digits \<lfloor>x * 10 ^ f + 1/2\<rfloor>)"
  shows "list_all is_digit m" and "digits_val m = \<lfloor>x * 10 ^ f + 1/2\<rfloor>" and "f < length m"
proof -
  have n: "0 \<le> \<lfloor>x * 10 ^ f + 1/2\<rfloor>" using assms by simp
  have "is_digit (CHR ''0'')" by (simp add: is_digit_def)
  then show "list_all is_digit m"
    using nat_digits_all [OF n] by (auto simp: m_def pad_start_def list_all_iff)
  show "digits_val m = \<lfloor>x * 10 ^ f + 1/2\<rfloor>"
    using digits_val_nat_digits [OF n] by (simp add: m_def pad_start_def digits_val_zeros)
  show "f < length m" by (simp add: m_def pad_start_def)
qed

lemma decimal_val_split:
  assumes "list_all is_digit ip" "list_all is_digit fp" "ip \<noteq> []"
  shows "decimal_val (ip @ CHR ''.'' # fp) =
    Some (of_int (digits_val (ip @ fp)) * 10 powi (- int (length fp)))"
    and "decimal_val ip = Some (of_int (digits_val ip))"
proof -
  have dot: "\<not> is_digit (CHR ''.'')" by (simp add: is_digit_def Let_def)
  have tw: "takeWhile is_digit (ip @ CHR ''.'' # fp) = ip" "dropWhile is_digit (ip @ CHR ''.'' # fp) = CHR ''.'' # fp"
      "takeWhile is_digit fp = fp" "dropWhile is_digit fp = []"
      "takeWhile is_digit ip = ip" "dropWhile is_digit ip = []"
    using assms dot by (auto simp: takeWhile_append list_all_iff takeWhile_eq_all_conv
        dropWhile_append)
  show "decimal_val (ip @ CHR ''.'' # fp) =
      Some (of_int (digits_val (ip @ fp)) * 10 powi (- int (length fp)))"
    "decimal_val ip = Some (of_int (digits_val ip))"
    using assms by (simp_all add: decimal_val_def tw Let_def)
qed

text \<open>The printed decimal denotes the nearest multiple of \<open>10 ^ (- f)\<close>.\<close>

lemma decimal_val_fixed:
  assumes "0 \<le> x"
  shows "decimal_val (fixed_str x f) = Some (of_int \<lfloor>x * 10 ^ f + 1/2\<rfloor> / 10 ^ f)"
proof (cases "f = 0")
  case True
  have n: "0 \<le> \<lfloor>x + 1/2\<rfloor>" using assms by simp
  then show ?thesis using True decimal_val_split(2) [OF nat_digits_all [OF n], of "[]"]
    by (simp add: fixed_str_def digits_val_nat_digits)
next
  case False
  define m where "m = pad_start (f + 1) (CHR ''0'') (nat_digits \<lfloor>x * 10 ^ f + 1/2\<rfloor>)"
  define i where "i = length m - f"
  note d = fixed_digits [OF assms, of f, folded m_def]
  have i: "0 < i" "i \<le> length m" "length m - i = f" using d(3) by (auto simp: i_def)
  have "decimal_val (take i m @ CHR ''.'' # drop i m) =
      Some (of_int (digits_val (take i m @ drop i m)) * 10 powi (- int (length (drop i m))))"
    using d(1) i by (intro decimal_val_split(1))
      (auto simp: list_all_iff dest: in_set_takeD in_set_dropD)
  also have "\<dots> = Some (of_int \<lfloor>x * 10 ^ f + 1/2\<rfloor> / 10 ^ f)"
    using d(2) i by (simp add: power_int_minus field_simps)
  also have "take i m @ CHR ''.'' # drop i m = fixed_str x f"
    using False by (simp add: fixed_str_def Let_def m_def i_def)
  finally show ?thesis .
qed

lemma fixed_str_plain: "0 \<le> x \<Longrightarrow> list_all plain_char (fixed_str x f)"
  using fixed_digits(1) [of x f] nat_digits_all [of "\<lfloor>x + 1/2\<rfloor>"]
  by (auto simp: fixed_str_def Let_def list_all_iff plain_char_def dest: in_set_takeD in_set_dropD)

lemma fixed_str_ne [simp]: "fixed_str x f \<noteq> []"
  by (simp add: fixed_str_def Let_def)

lemma to_number_fixed:
  "0 \<le> x \<Longrightarrow> to_number (fixed_str x f) = flo (of_int \<lfloor>x * 10 ^ f + 1/2\<rfloor> / 10 ^ f)"
  by (simp add: to_number_plain fixed_str_plain decimal_val_fixed)

lemma num_str_int: "\<bar>n\<bar> \<le> 2 ^ 53 \<Longrightarrow> num_str (Fin (of_int n)) = int_str n"
proof -
  assume n: "\<bar>n\<bar> \<le> 2 ^ 53"
  then have "(of_int \<bar>n\<bar> :: rat) \<le> of_int (2 ^ 53)" by (simp only: of_int_le_iff)
  then show ?thesis by simp
qed

section \<open>The value of a fixed decimal\<close>

text \<open>The multiple of \<open>10 ^ (- f)\<close> nearest to \<open>x\<close>, ties away from zero.\<close>

definition near_dec :: "rat \<Rightarrow> nat \<Rightarrow> rat" where
  "near_dec x f = (if x < 0 then - (of_int \<lfloor>- x * 10 ^ f + 1/2\<rfloor> / 10 ^ f)
     else of_int \<lfloor>x * 10 ^ f + 1/2\<rfloor> / 10 ^ f)"

lemma near_dec_pos: "0 \<le> x \<Longrightarrow> \<bar>of_int \<lfloor>x * 10 ^ f + 1/2\<rfloor> / 10 ^ f - x\<bar> \<le> 1 / (2 * 10 ^ f)"
proof -
  have "\<bar>of_int \<lfloor>x * 10 ^ f + 1/2\<rfloor> - x * 10 ^ f\<bar> \<le> 1/2" by linarith
  then have "\<bar>of_int \<lfloor>x * 10 ^ f + 1/2\<rfloor> - x * 10 ^ f\<bar> / 10 ^ f \<le> (1/2) / 10 ^ f"
    by (intro divide_right_mono) auto
  moreover have "of_int \<lfloor>x * 10 ^ f + 1/2\<rfloor> / 10 ^ f - x = (of_int \<lfloor>x * 10 ^ f + 1/2\<rfloor> - x * 10 ^ f) / 10 ^ f"
    by (simp add: field_simps)
  ultimately show ?thesis by (simp add: abs_divide)
qed

lemma near_dec_error: "\<bar>near_dec x f - x\<bar> \<le> 1 / (2 * 10 ^ f)"
proof (cases "x < 0")
  case True
  then show ?thesis using near_dec_pos [of "- x" f] by (simp add: near_dec_def abs_minus_commute algebra_simps)
qed (simp add: near_dec_def near_dec_pos)

lemma near_dec_bound: "\<bar>near_dec x f\<bar> \<le> \<bar>x\<bar> + 1"
proof -
  have "(1::rat) \<le> 10 ^ f" by simp
  then have "1 \<le> 2 * (10::rat) ^ f" by linarith
  then have "1 / (2 * 10 ^ f) \<le> (1::rat)" by (subst divide_le_eq_1_pos) auto
  then show ?thesis using near_dec_error [of x f] by linarith
qed

lemma near_dec_nonneg: "0 \<le> x \<Longrightarrow> 0 \<le> near_dec x f"
  by (simp add: near_dec_def)

lemma near_dec_mono: "0 \<le> x \<Longrightarrow> x \<le> y \<Longrightarrow> near_dec x f \<le> near_dec y f"
  by (auto simp: near_dec_def intro!: divide_right_mono floor_mono mult_right_mono)

lemma to_number_minus:
  assumes "list_all plain_char s" "s \<noteq> []"
  shows "to_number (CHR ''-'' # s) = (case decimal_val s of None \<Rightarrow> NaN | Some x \<Rightarrow> flo (- x))"
proof -
  have t: "trim (CHR ''-'' # s) = CHR ''-'' # s"
  proof -
    have "\<not> is_space (CHR ''-'')" by (simp add: is_space_def Let_def)
    moreover have "dropWhile is_space (rev s @ [CHR ''-'']) = rev s @ [CHR ''-'']"
      using assms plain_not_space by (cases s rule: rev_cases) auto
    ultimately show ?thesis by (simp add: trim_def)
  qed
  have inf: "s \<noteq> ''Infinity''" using assms by (auto simp: plain_char_def is_digit_def Let_def)
  have p: "prefixed_val (CHR ''-'' # s) = None" by (cases s) (simp_all add: prefixed_val_def)
  show ?thesis by (simp add: to_number_def t p signed_part_def inf split: option.split)
qed

text \<open>Reading back what \<open>toFixed\<close> printed gives the binary64 nearest to the printed decimal.\<close>

lemma to_number_to_fixed: "\<bar>x\<bar> < 10 ^ 21 \<Longrightarrow> to_number (to_fixed (Fin x) f) = flo (near_dec x f)"
  by (auto simp: near_dec_def to_number_fixed to_number_minus fixed_str_plain decimal_val_fixed)

lemma finite_to_fixed: "\<bar>x\<bar> < 10 ^ 21 \<Longrightarrow> \<exists>y. to_number (to_fixed (Fin x) f) = Fin y \<and> representable y"
proof -
  assume x: "\<bar>x\<bar> < 10 ^ 21"
  have r: "representable (2 powi 70)"
    unfolding representable_def by (intro exI [of _ 1] exI [of _ 70]) simp
  have e: "(2::rat) powi 70 = 1180591620717411303424" by (simp add: powi2_int)
  have "\<bar>near_dec x f\<bar> \<le> 2 powi 70" using near_dec_bound [of x f] x unfolding e by simp
  moreover have "(2::rat) powi 70 < 2 ^ 1024" unfolding e by simp
  ultimately have "flo (near_dec x f) = Fin (rnd64 (near_dec x f))"
    by (intro flo_small [OF _ r])
  then show ?thesis unfolding to_number_to_fixed [OF x] by (simp add: rnd64_representable)
qed

text \<open>Evaluates \<open>to_number\<close> on an unsigned decimal literal.\<close>

lemma to_number_int_str: "0 \<le> n \<Longrightarrow> n \<le> 2 ^ 53 \<Longrightarrow> to_number (int_str n) = Fin (of_int n)"
proof -
  assume n: "0 \<le> n" "n \<le> 2 ^ 53"
  have d: "list_all is_digit (nat_digits n)" by (rule nat_digits_all [OF n(1)])
  then have "list_all plain_char (nat_digits n)" by (simp add: list_all_iff plain_char_def)
  moreover have "decimal_val (nat_digits n) = Some (of_int n)"
    using d n by (simp add: decimal_val_def list_all_iff takeWhile_eq_all_conv [THEN iffD2]
      dropWhile_eq_Nil_conv [THEN iffD2] digits_val_nat_digits)
  moreover have "flo (of_int n) = Fin (of_int n)"
    using n by (intro flo_exact representable_of_int) auto
  ultimately show ?thesis using n by (simp add: to_number_plain int_str_def)
qed

lemmas read_literal = to_number_plain plain_char_def is_digit_def decimal_val_def digits_val_def
  digit_val_def power_int_def power2_eq_square power3_eq_cube

end
