(* ===== verification/Contract.thy ===== *)
theory Contract
  imports JsString
begin

text \<open>
  The wire types of \<^verbatim>\<open>web/lib/types/contract.ts\<close>: string unions are datatypes,
  interfaces are records with the source's field names (prefixed by the interface, since
  Isabelle's field names are global), optional fields are options. Decimal quantities stay
  strings, as on the wire.
\<close>

section \<open>String unions\<close>

datatype market_id = BtcUsd | EthUsd | SolUsd

datatype side = Buy | Sell

datatype position_side = Long | Short

datatype order_type = Market | Limit

datatype time_in_force = Gtc | Ioc | Fok

datatype fill_role = Maker | Taker

datatype order_ack_status = AckAccepted | AckPartial | AckFilled

fun market_id_str :: "market_id \<Rightarrow> string" where
  "market_id_str BtcUsd = ''btc-usd''"
| "market_id_str EthUsd = ''eth-usd''"
| "market_id_str SolUsd = ''sol-usd''"

fun side_str :: "side \<Rightarrow> string" where
  "side_str Buy = ''buy''"
| "side_str Sell = ''sell''"

fun order_type_str :: "order_type \<Rightarrow> string" where
  "order_type_str Market = ''market''"
| "order_type_str Limit = ''limit''"

fun time_in_force_str :: "time_in_force \<Rightarrow> string" where
  "time_in_force_str Gtc = ''gtc''"
| "time_in_force_str Ioc = ''ioc''"
| "time_in_force_str Fok = ''fok''"

fun fill_role_str :: "fill_role \<Rightarrow> string" where
  "fill_role_str Maker = ''maker''"
| "fill_role_str Taker = ''taker''"

lemma market_id_str_inj [simp]: "market_id_str a = market_id_str b \<longleftrightarrow> a = b"
  by (cases a; cases b) simp_all

section \<open>Markets, books and trades\<close>

record market =
  mk_id :: market_id
  mk_base :: string
  mk_quote :: string
  mk_active :: bool
  mk_tickSize :: string
  mk_lotSize :: string
  mk_maxLeverage :: number
  mk_imRatioBps :: number
  mk_mmRatioBps :: number
  mk_liqBonusBps :: number
  mk_takerFeeBps :: number
  mk_makerRebateBps :: number
  mk_fundingIntervalSec :: int
  mk_indexPriceX18 :: string
  mk_volume24hUsdc :: "string option"
  mk_openInterestUsdc :: "string option"
  mk_fundingRateBps :: "number option"
  mk_nextFundingTsNs :: "string option"

type_synonym orderbook_level = "string \<times> string"

record orderbook_snapshot =
  ob_marketId :: market_id
  ob_sequence :: int
  ob_bids :: "orderbook_level list"
  ob_asks :: "orderbook_level list"
  ob_tsNs :: string

record public_trade =
  tr_id :: string
  tr_marketId :: market_id
  tr_price :: string
  tr_qty :: string
  tr_side :: side
  tr_tsNs :: string

record trades_response =
  trs_trades :: "public_trade list"
  trs_nextBefore :: "string option"

record funding_point =
  fp_tsNs :: string
  fp_rateBps :: number

record funding_response =
  fr_marketId :: market_id
  fr_currentRateBps :: number
  fr_nextSettlementTsNs :: string
  fr_history :: "funding_point list"

section \<open>Orders\<close>

record order_request =
  rq_marketId :: market_id
  rq_side :: side
  rq_type :: order_type
  rq_price :: string
  rq_qty :: string
  rq_timeInForce :: time_in_force
  rq_reduceOnly :: bool
  rq_postOnly :: bool
  rq_clientOrderId :: string
  rq_nonce :: string
  rq_signature :: string

record order_ack =
  ack_orderId :: string
  ack_status :: order_ack_status
  ack_tsNs :: string

record api_error =
  ae_code :: string
  ae_message :: string

record open_order =
  oo_id :: string
  oo_marketId :: market_id
  oo_side :: side
  oo_type :: order_type
  oo_price :: string
  oo_qty :: string
  oo_remaining :: string
  oo_tsNs :: string
  oo_clientOrderId :: "string option"

section \<open>Positions, fills and balances\<close>

record position =
  ps_marketId :: market_id
  ps_size :: string
  ps_side :: position_side
  ps_entryPriceX18 :: string
  ps_markPriceX18 :: string
  ps_notionalUsdc :: string
  ps_unrealisedPnlUsdc :: string
  ps_realisedPnlUsdc :: string
  ps_leverage :: string
  ps_liquidationPriceX18 :: string
  ps_fundingPaidUsdc :: string
  ps_lastUpdatedTsNs :: string

record positions_response =
  pr_collateralUsdc :: string
  pr_freeCollateralUsdc :: string
  pr_totalUnrealisedPnlUsdc :: string
  pr_totalNotionalUsdc :: string
  pr_positions :: "position list"

record fill =
  fl_id :: string
  fl_orderId :: string
  fl_marketId :: market_id
  fl_side :: side
  fl_price :: string
  fl_qty :: string
  fl_feeUsdc :: string
  fl_role :: fill_role
  fl_tsNs :: string
  fl_txHash :: string

record fills_response =
  fls_fills :: "fill list"
  fls_nextBefore :: "string option"

record siwe_verify_response =
  sv_jwt :: string
  sv_expiresAt :: string

record pending_transfer =
  pt_id :: string
  pt_amountUsdc :: string
  pt_txHash :: string
  pt_tsNs :: string

record balance_response =
  br_vaultBalanceUsdc :: string
  br_walletUsdcBalance :: string
  br_pendingDeposits :: "pending_transfer list"
  br_pendingWithdrawals :: "pending_transfer list"

section \<open>WebSocket frames\<close>

datatype ws_outbound =
    Subscribe string
  | Unsubscribe string
  | Auth string
  | Pong

record ws_book =
  wb_channel :: string
  wb_sequence :: int
  wb_bids :: "orderbook_level list"
  wb_asks :: "orderbook_level list"
  wb_tsNs :: string

record ws_trade =
  wt_channel :: string
  wt_id :: string
  wt_price :: string
  wt_qty :: string
  wt_side :: side
  wt_tsNs :: string

record ws_oracle =
  wo_channel :: string
  wo_priceX18 :: string
  wo_confidenceX18 :: string
  wo_sourceTsNs :: string
  wo_tsNs :: string

record ws_funding =
  wf_channel :: string
  wf_currentRateBps :: number
  wf_nextSettlementTsNs :: string
  wf_tsNs :: string

datatype ws_account =
    OrderAccepted string market_id string
  | OrderCancelled string string
  | OrderFilled string string market_id string string string string fill_role string
  | PositionUpdate market_id string string string string
  | LiquidationWarning market_id string string
  | LiquidationExecuted market_id string string string
  | FundingApplied market_id string string

datatype ws_message =
    Ping string
  | Snapshot ws_book
  | Delta ws_book
  | Trade ws_trade
  | Oracle ws_oracle
  | Funding ws_funding
  | Account ws_account

end
