(* ===== verification/Format.thy ===== *)
theory Format
  imports Contract
begin

text \<open>
  The formatting helpers of \<^verbatim>\<open>web/lib/format/number.ts\<close>, the \<open>NumberDisplay\<close>
  component and the per-component copies of the decimals and thousands helpers. The local
  time zone and the locale's date format belong to the host: they are parameters.
\<close>

section \<open>Descaling\<close>

text \<open>An argument of type \<open>string | number | null | undefined\<close>.\<close>

datatype numeric = NStr string | NNum number | NNull

fun numeric_val :: "numeric \<Rightarrow> number" where
  "numeric_val (NStr s) = to_number s"
| "numeric_val (NNum n) = n"
| "numeric_val NNull = NaN"

fun usdc6ToDollars :: "numeric \<Rightarrow> number" where
  "usdc6ToDollars NNull = NaN"
| "usdc6ToDollars (NStr s) = (if s = [] then NaN else to_number s / Fin (10 ^ 6))"
| "usdc6ToDollars (NNum n) = n / Fin (10 ^ 6)"

fun x18ToDollars :: "numeric \<Rightarrow> number" where
  "x18ToDollars NNull = NaN"
| "x18ToDollars (NStr s) = (if s = [] then NaN else to_number s / Fin (10 ^ 18))"
| "x18ToDollars (NNum n) = n / Fin (10 ^ 18)"

section \<open>Decimals of a step size\<close>

definition tickPrecision :: "string \<Rightarrow> nat" where
  "tickPrecision tickSize = (let i = index_of tickSize (CHR ''.'') in
     if i < 0 then 0 else nat (int (length tickSize) - i - 1))"

definition lotPrecision :: "string \<Rightarrow> nat" where
  "lotPrecision lotSize = tickPrecision lotSize"

text \<open>The copies in \<open>OrderForm\<close>, \<open>Orderbook\<close>, \<open>TradeTape\<close> and the mock data.\<close>

definition decOf :: "string \<Rightarrow> nat" where
  "decOf s = (let i = index_of s (CHR ''.'') in
     if i < 0 then 0 else nat (int (length s) - i - 1))"

definition tickPrecisionOf :: "string \<Rightarrow> nat" where
  "tickPrecisionOf s = (let i = index_of s (CHR ''.'') in
     if i < 0 then 0 else nat (int (length s) - i - 1))"

definition tickPrecOf :: "string \<Rightarrow> nat" where
  "tickPrecOf s = (let i = index_of s (CHR ''.'') in
     if i < 0 then 0 else nat (int (length s) - i - 1))"

definition decFromStep :: "string \<Rightarrow> nat" where
  "decFromStep s = (let i = index_of s (CHR ''.'') in
     if i < 0 then 0 else nat (int (length s) - i - 1))"

text \<open>\<open>MarketHeader\<close>: at least two decimals, except for a step size with no point.\<close>

definition priceDecimals :: "market option \<Rightarrow> nat" where
  "priceDecimals m = (case m of None \<Rightarrow> 2
     | Some mk \<Rightarrow> (let i = index_of (mk_tickSize mk) (CHR ''.'') in
         if i < 0 then 0 else max 2 (nat (int (length (mk_tickSize mk)) - i - 1))))"

section \<open>Printing\<close>

text \<open>The shared body: split at the point, separate the thousands, rejoin.\<close>

definition comma_join :: "string \<Rightarrow> string" where
  "comma_join fixed = (case split_at (CHR ''.'') fixed of
       intPart # dec # _ \<Rightarrow> (if dec \<noteq> [] then with_commas intPart @ ''.'' @ dec else with_commas intPart)
     | [intPart] \<Rightarrow> with_commas intPart
     | [] \<Rightarrow> [])"

definition formatPrice :: "numeric \<Rightarrow> nat \<Rightarrow> bool \<Rightarrow> string" where
  "formatPrice price decimals withCommas =
     (let n = numeric_val price in
      if \<not> is_finite n then dash
      else let fixed = to_fixed n decimals in
        if \<not> withCommas then fixed else comma_join fixed)"

definition formatQty :: "numeric \<Rightarrow> nat \<Rightarrow> string" where
  "formatQty qty decimals = (let n = numeric_val qty in
     if \<not> is_finite n then dash else to_fixed n decimals)"

definition formatUsd :: "numeric \<Rightarrow> nat \<Rightarrow> string" where
  "formatUsd value decimals =
     (let n = numeric_val value in
      if \<not> is_finite n then dash
      else let sign = (if num_lt n (Fin 0) then ''-'' else []);
               abs = num_abs n
           in sign @ ''$'' @ formatPrice (NNum abs) decimals True)"

definition formatSignedUsd :: "numeric \<Rightarrow> nat \<Rightarrow> string" where
  "formatSignedUsd value decimals =
     (let n = numeric_val value in
      if \<not> is_finite n then dash
      else if num_eq n (Fin 0) then ''$0.'' @ replicate decimals (CHR ''0'')
      else let sign = (if num_lt (Fin 0) n then ''+'' else ''-'')
           in sign @ ''$'' @ formatPrice (NNum (num_abs n)) decimals True)"

definition formatSignedPercent :: "number \<Rightarrow> nat \<Rightarrow> string" where
  "formatSignedPercent value decimals =
     (if \<not> is_finite value then dash
      else if num_eq value (Fin 0) then ''0.'' @ replicate decimals (CHR ''0'') @ ''%''
      else let sign = (if num_lt (Fin 0) value then ''+'' else ''-'')
           in sign @ to_fixed (num_abs value) decimals @ ''%'')"

definition formatPercent :: "number \<Rightarrow> nat \<Rightarrow> string" where
  "formatPercent value decimals =
     (if \<not> is_finite value then dash else to_fixed value decimals @ ''%'')"

definition formatCompact :: "numeric \<Rightarrow> nat \<Rightarrow> string" where
  "formatCompact value decimals =
     (let n = numeric_val value in
      if \<not> is_finite n then dash
      else let abs = num_abs n; sign = (if num_lt n (Fin 0) then ''-'' else []) in
        if num_le (Fin (10 ^ 9)) abs then sign @ to_fixed (abs / Fin (10 ^ 9)) decimals @ ''B''
        else if num_le (Fin (10 ^ 6)) abs then sign @ to_fixed (abs / Fin (10 ^ 6)) decimals @ ''M''
        else if num_le (Fin (10 ^ 3)) abs then sign @ to_fixed (abs / Fin (10 ^ 3)) decimals @ ''K''
        else sign @ to_fixed abs decimals)"

text \<open>\<open>commaFmt\<close> of \<open>OrderForm\<close>.\<close>

definition commaFmt :: "number \<Rightarrow> nat \<Rightarrow> string" where
  "commaFmt n dec = (if \<not> is_finite n then dash else comma_join (to_fixed n dec))"

text \<open>
  \<open>NumberDisplay\<close>: the text between prefix and suffix, and the colour class. The minus
  sign it prints is U+2212, in UTF-8.
\<close>

definition minus_sign :: string where
  "minus_sign = [CHR 0xE2, CHR 0x88, CHR 0x92]"

definition displayText :: "numeric \<Rightarrow> nat \<Rightarrow> bool \<Rightarrow> string" where
  "displayText value decimals signed =
     (if value = NNull \<or> value = NStr [] then dash
      else let n = numeric_val value in
        if \<not> is_finite n then dash
        else let isNeg = num_lt n (Fin 0); isPos = num_lt (Fin 0) n;
                 body = comma_join (to_fixed (num_abs n) decimals);
                 signStr = (if signed then (if isPos then ''+'' else if isNeg then minus_sign else [])
                            else if isNeg then minus_sign else [])
             in signStr @ body)"

definition NumberDisplay :: "string \<Rightarrow> string \<Rightarrow> numeric \<Rightarrow> nat \<Rightarrow> bool \<Rightarrow> string" where
  "NumberDisplay prefix suffix value decimals signed =
     (if value = NNull \<or> value = NStr [] \<or> \<not> is_finite (numeric_val value) then dash
      else prefix @ displayText value decimals signed @ suffix)"

definition displayColor :: "numeric \<Rightarrow> bool \<Rightarrow> string" where
  "displayColor value colorBySign =
     (if value = NNull \<or> value = NStr [] \<or> \<not> is_finite (numeric_val value) then ''text-fg-dim''
      else if \<not> colorBySign then []
      else if num_lt (Fin 0) (numeric_val value) then ''text-long''
      else if num_lt (numeric_val value) (Fin 0) then ''text-short'' else ''text-fg-mid'')"

section \<open>Times\<close>

text \<open>BigInt division truncates towards zero.\<close>

definition big_div :: "int \<Rightarrow> int \<Rightarrow> int" where
  "big_div a b = sgn a * sgn b * (\<bar>a\<bar> div \<bar>b\<bar>)"

definition tsNs_ms :: "string \<Rightarrow> (js_error, number) result" where
  "tsNs_ms ts = (case to_bigint ts of Inl e \<Rightarrow> Throw e
     | Inr n \<Rightarrow> Return (num_of_int (big_div n 1000000)))"

definition two_digits :: "number \<Rightarrow> string" where
  "two_digits n = pad_start 2 (CHR ''0'') (num_str n)"

text \<open>
  The clock fields of a \<open>Date\<close> in local time: \<open>tz ms\<close> is the host's offset from UTC in
  milliseconds at that instant. A time value beyond \<open>8.64e15\<close> is an invalid date, whose
  fields are \<open>NaN\<close>.
\<close>

definition date_field :: "(rat \<Rightarrow> int) \<Rightarrow> number \<Rightarrow> int \<Rightarrow> int \<Rightarrow> number" where
  "date_field tz ms unit modulus = (case ms of
       Fin t \<Rightarrow> if \<bar>t\<bar> > 864 * 10 ^ 13 then NaN
              else Fin (of_int ((\<lfloor>t\<rfloor> + tz t) div unit mod modulus))
     | _ \<Rightarrow> NaN)"

definition formatTimeOfDay :: "(rat \<Rightarrow> int) \<Rightarrow> string \<Rightarrow> (js_error, string) result" where
  "formatTimeOfDay tz tsNs = (case tsNs_ms tsNs of Inl e \<Rightarrow> Throw e
     | Inr ms \<Rightarrow> if \<not> is_finite ms then Return dash
       else Return (two_digits (date_field tz ms 3600000 24) @ '':'' @
                    two_digits (date_field tz ms 60000 60) @ '':'' @
                    two_digits (date_field tz ms 1000 60)))"

definition formatDateTime :: "(number \<Rightarrow> string) \<Rightarrow> string \<Rightarrow> (js_error, string) result" where
  "formatDateTime toLocaleString tsNs = (case tsNs_ms tsNs of Inl e \<Rightarrow> Throw e
     | Inr ms \<Rightarrow> if \<not> is_finite ms then Return dash else Return (toLocaleString ms))"

definition formatCountdown :: "string \<Rightarrow> number \<Rightarrow> (js_error, string) result" where
  "formatCountdown targetTsNs cur = (case tsNs_ms targetTsNs of Inl e \<Rightarrow> Throw e
     | Inr targetMs \<Rightarrow>
       (let remaining = num_max (Fin 0) (targetMs - cur);
            totalSec = num_floor (remaining / Fin 1000);
            h = num_floor (totalSec / Fin 3600);
            m = num_floor (num_rem totalSec (Fin 3600) / Fin 60);
            s = num_rem totalSec (Fin 60)
        in if num_lt (Fin 0) h
           then Return (num_str h @ ''h '' @ two_digits m @ ''m '' @ two_digits s @ ''s'')
           else Return (two_digits m @ '':'' @ two_digits s)))"

text \<open>\<open>Date.now()\<close> is an integer number of milliseconds.\<close>

definition nowTsNs :: "int \<Rightarrow> string" where
  "nowTsNs now = int_str (now * 1000000)"

fun sideColor :: "side + position_side \<Rightarrow> position_side" where
  "sideColor (Inl Buy) = Long"
| "sideColor (Inr Long) = Long"
| "sideColor _ = Short"

section \<open>The printers against a reference\<close>

text \<open>
  The reference: round to the nearest multiple of \<open>10 ^ - f\<close>, print the quotient with a comma
  before every third digit from the right, and the remainder with exactly \<open>f\<close> digits.
\<close>

definition grouped :: "rat \<Rightarrow> nat \<Rightarrow> string" where
  "grouped x f = (let n = \<lfloor>x * 10 ^ f + 1/2\<rfloor> in
     group3 (nat_digits (n div 10 ^ f)) @
     (if f = 0 then [] else CHR ''.'' # pad_start f (CHR ''0'') (nat_digits (n mod 10 ^ f))))"

lemma digits_val_append: "digits_val (s @ t) = digits_val s * 10 ^ length t + digits_val t"
proof (induction t rule: rev_induct)
  case (snoc c t)
  then show ?case by (simp add: digits_val_snoc [of "s @ t", simplified] digits_val_snoc algebra_simps)
qed (simp add: digits_val_def)

lemma digits_val_bound: "list_all is_digit s \<Longrightarrow> 0 \<le> digits_val s \<and> digits_val s < 10 ^ length s"
proof (induction s rule: rev_induct)
  case (snoc c s)
  then show ?case using digit_val_less [of c] by (auto simp: digits_val_snoc)
qed (simp add: digits_val_def)

lemma digits_unique:
  "length s = length t \<Longrightarrow> list_all is_digit s \<Longrightarrow> list_all is_digit t \<Longrightarrow> digits_val s = digits_val t \<Longrightarrow> s = t"
proof (induction s arbitrary: t rule: rev_induct)
  case (snoc c s)
  then obtain t' d where t: "t = t' @ [d]" by (cases t rule: rev_cases) auto
  have "10 * digits_val s + int (digit_val c) = 10 * digits_val t' + int (digit_val d)"
    using snoc.prems(4) by (simp add: t digits_val_snoc)
  moreover have "digit_val c < 10" "digit_val d < 10"
    using snoc.prems(2,3) by (simp_all add: t digit_val_less)
  ultimately have "digits_val s = digits_val t'" "digit_val c = digit_val d" by presburger+
  moreover from this(2) have "digit_char (digit_val c) = digit_char (digit_val d)" by (rule arg_cong)
  then have "c = d" using snoc.prems(2,3) by (simp add: t)
  ultimately show ?case using snoc.IH [of t'] snoc.prems(1-3) by (simp add: t)
qed simp

lemma length_nat_digits_div: "0 \<le> n \<Longrightarrow> length (nat_digits (n div 10 ^ f)) = max 1 (length (nat_digits n) - f)"
proof (induction f arbitrary: n)
  case (Suc f)
  have ten: "length (nat_digits (n div 10)) = max 1 (length (nat_digits n) - 1)"
    using Suc.prems by (subst (2) nat_digits.simps) (auto simp: nat_digits.simps [of "n div 10"] div_pos_pos_trivial)
  have "n div 10 ^ Suc f = n div 10 div 10 ^ f" by (simp add: zdiv_zmult2_eq mult.commute)
  then show ?case using Suc.IH [of "n div 10"] Suc.prems ten by (simp add: max_def) linarith
qed (simp add: max_def Suc_le_eq)


lemma div_less_of_less_mult: "(r::int) < 10 * k \<Longrightarrow> 0 < k \<Longrightarrow> r div k < 10"
proof (rule ccontr)
  assume a: "r < 10 * k" "0 < k" "\<not> r div k < 10"
  then have "10 * k \<le> r div k * k" by (intro mult_right_mono) auto
  also have "\<dots> \<le> r" using a(2) pos_mod_sign [of k r] div_mult_mod_eq [of r k] by linarith
  finally show False using a(1) by simp
qed

lemma list_all_pad: "list_all is_digit s \<Longrightarrow> list_all is_digit (pad_start f (CHR ''0'') s)"
proof -
  assume s: "list_all is_digit s"
  have "is_digit (CHR ''0'')" by (simp add: is_digit_def)
  then show ?thesis using s by (auto simp: pad_start_def list_all_iff)
qed

lemma padded_digits:
  assumes "0 \<le> n" "0 < f"
  shows "pad_start (f + 1) (CHR ''0'') (nat_digits n) =
    nat_digits (n div 10 ^ f) @ pad_start f (CHR ''0'') (nat_digits (n mod 10 ^ f))"
proof (rule digits_unique)
  let ?q = "n div 10 ^ f" and ?r = "n mod 10 ^ f"
  have q: "0 \<le> ?q" "list_all is_digit (nat_digits ?q)" using assms by (simp_all add: nat_digits_all pos_imp_zdiv_nonneg_iff)
  have r: "0 \<le> ?r" "list_all is_digit (nat_digits ?r)" by (simp_all add: nat_digits_all)
  have "length (nat_digits ((n mod 10 ^ f) div 10 ^ (f - 1))) = max 1 (length (nat_digits ?r) - (f - 1))"
    by (rule length_nat_digits_div) simp
  moreover have "?r div 10 ^ (f - 1) < 10"
  proof -
    have "(10::int) ^ f = 10 * 10 ^ (f - 1)" using assms(2) by (cases f) simp_all
    then have "?r < 10 * 10 ^ (f - 1)" by (metis pos_mod_bound zero_less_numeral zero_less_power)
    then show ?thesis by (rule div_less_of_less_mult) simp
  qed
  then have "length (nat_digits (?r div 10 ^ (f - 1))) = 1" by (subst nat_digits.simps) simp
  ultimately have len: "length (nat_digits ?r) \<le> f" using assms(2) by (simp add: max_def split: if_splits)
  show "list_all is_digit (pad_start (f + 1) (CHR ''0'') (nat_digits n))"
    using assms by (intro list_all_pad nat_digits_all)
  show "list_all is_digit (nat_digits ?q @ pad_start f (CHR ''0'') (nat_digits ?r))"
    using q r list_all_pad by simp
  show "length (pad_start (f + 1) (CHR ''0'') (nat_digits n)) =
      length (nat_digits ?q @ pad_start f (CHR ''0'') (nat_digits ?r))"
    using len length_nat_digits_div [OF assms(1), of f] by (simp add: pad_start_def max_def)
  have "length (pad_start f (CHR ''0'') (nat_digits ?r)) = f" using len by (simp add: pad_start_def)
  then show "digits_val (pad_start (f + 1) (CHR ''0'') (nat_digits n)) =
      digits_val (nat_digits ?q @ pad_start f (CHR ''0'') (nat_digits ?r))"
    unfolding digits_val_append [of "nat_digits ?q"] unfolding pad_start_def
    by (simp only: digits_val_zeros digits_val_nat_digits [OF assms(1)] digits_val_nat_digits [OF q(1)]
        digits_val_nat_digits [OF r(1)] div_mult_mod_eq)
qed


lemma fixed_grouped:
  assumes "0 \<le> x"
  shows "comma_join (fixed_str x f) = grouped x f"
proof -
  let ?n = "\<lfloor>x * 10 ^ f + 1/2\<rfloor>"
  have n: "0 \<le> ?n" using assms by simp
  have dot: "\<not> is_digit (CHR ''.'')" by (simp add: is_digit_def)
  have q: "list_all is_digit (nat_digits (?n div 10 ^ f))"
    using n by (intro nat_digits_all) (simp add: pos_imp_zdiv_nonneg_iff)
  have r: "list_all is_digit (pad_start f (CHR ''0'') (nat_digits (?n mod 10 ^ f)))"
    by (intro list_all_pad nat_digits_all) simp
  have nodot: "CHR ''.'' \<notin> set s" if "list_all is_digit s" for s using that dot by (auto simp: list_all_iff)
  show ?thesis
  proof (cases "f = 0")
    case True
    then show ?thesis using q nodot [OF q]
      by (simp add: comma_join_def fixed_str_def Let_def grouped_def split_at_absent with_commas_digits)
  next
    case False
    let ?q = "nat_digits (?n div 10 ^ f)" and ?r = "pad_start f (CHR ''0'') (nat_digits (?n mod 10 ^ f))"
    have m: "pad_start (f + 1) (CHR ''0'') (nat_digits ?n) = ?q @ ?r" using n False by (intro padded_digits) auto
    have lr: "length ?r = f"
    proof -
      have "f + 1 \<le> length (pad_start (f + 1) (CHR ''0'') (nat_digits ?n))" by (simp add: pad_start_def)
      moreover have "f \<le> length ?r" by (simp add: pad_start_def)
      moreover have "length (pad_start (f + 1) (CHR ''0'') (nat_digits ?n)) = max (f + 1) (length (nat_digits ?n))"
        by (simp add: pad_start_def max_def)
      ultimately show ?thesis
        using length_nat_digits_div [OF n, of f] arg_cong [OF m, of length] by (simp add: max_def split: if_splits)
    qed
    have "fixed_str x f = ?q @ CHR ''.'' # ?r"
      unfolding fixed_str_def Let_def m using False lr by simp
    moreover have "?r \<noteq> []" using lr False by auto
    ultimately show ?thesis using False q nodot [OF q] nodot [OF r]
      by (simp add: comma_join_def split_at_append split_at_absent with_commas_digits grouped_def Let_def)
  qed
qed

section \<open>Properties\<close>

text \<open>
  C24. Every printer of a grouped figure agrees with the reference. For a number \<open>x\<close> from zero
  up to \<open>1e21\<close> and any number of decimals, \<open>formatPrice\<close> with commas, the order form's
  \<open>commaFmt\<close> and \<open>NumberDisplay\<close> all print \<open>x\<close> rounded to that many decimals with a comma
  before every third integer digit from the right; \<open>formatUsd\<close> adds the dollar sign and puts
  the minus sign of a negative amount before it.
\<close>

theorem grouped_figures_agree:
  assumes "0 \<le> x" "x < 10 ^ 21"
  shows "formatPrice (NNum (Fin x)) d True = grouped x d \<and> commaFmt (Fin x) d = grouped x d \<and>
    displayText (NNum (Fin x)) d False = grouped x d \<and> formatUsd (NNum (Fin x)) d = CHR ''$'' # grouped x d \<and>
    (0 < x \<longrightarrow> formatUsd (NNum (Fin (- x))) d = CHR ''-'' # CHR ''$'' # grouped x d)"
  using assms fixed_grouped [OF assms(1), of d]
  by (simp add: formatPrice_def commaFmt_def displayText_def formatUsd_def Let_def)

theorem grouped_figures_agree_witness:
  "grouped (6172839 / 5) 2 = ''1,234,567.80'' \<and> commaFmt (Fin (6172839 / 5)) 2 = ''1,234,567.80''"
proof -
  have g: "grouped (6172839 / 5) 2 = ''1,234,567.80''" by code_simp
  show ?thesis using grouped_figures_agree [of "6172839 / 5" 2] by (simp add: g)
qed

end
