(* ===== verification/JsArray.thy ===== *)
theory JsArray
  imports JsString "HOL-Library.Multiset"
begin

text \<open>
  \<open>Array.prototype.sort\<close> with a numeric comparator. The result of a stable sort: an element
  is placed after every earlier element that the comparator does not put behind it. Prices
  on the wire are decimal strings compared through \<open>Number(a) - Number(b)\<close>; the lemmas
  show that the rounded difference has the sign of the exact one, so the comparator orders
  by value.
\<close>

fun insort_by :: "('a \<Rightarrow> 'a \<Rightarrow> number) \<Rightarrow> 'a \<Rightarrow> 'a list \<Rightarrow> 'a list" where
  "insort_by cmp x [] = [x]"
| "insort_by cmp x (y # ys) =
     (if num_lt (Fin 0) (cmp x y) then y # insort_by cmp x ys else x # y # ys)"

definition sort_by :: "('a \<Rightarrow> 'a \<Rightarrow> number) \<Rightarrow> 'a list \<Rightarrow> 'a list" where
  "sort_by cmp xs = foldr (insort_by cmp) xs []"

text \<open>\<open>xs.slice(0, n)\<close> with a numeric bound: \<open>NaN\<close> counts as zero, fractions are cut off.\<close>

definition slice_to :: "'a list \<Rightarrow> number \<Rightarrow> 'a list" where
  "slice_to xs n = (case n of
       Fin x \<Rightarrow> slice xs 0 (if x < 0 then - \<lfloor>- x\<rfloor> else \<lfloor>x\<rfloor>)
     | PInf \<Rightarrow> xs | _ \<Rightarrow> [])"

lemma mset_insort_by [simp]: "mset (insort_by cmp x ys) = add_mset x (mset ys)"
  by (induction ys) auto

lemma mset_sort_by [simp]: "mset (sort_by cmp xs) = mset xs"
  by (induction xs) (auto simp: sort_by_def)

lemma set_sort_by [simp]: "set (sort_by cmp xs) = set xs"
  by (metis mset_sort_by set_mset_mset)

lemma length_sort_by [simp]: "length (sort_by cmp xs) = length xs"
  by (metis mset_sort_by size_mset)

text \<open>A comparator that decides a total preorder given by a rational key.\<close>

definition orders :: "('a \<Rightarrow> 'a \<Rightarrow> number) \<Rightarrow> ('a \<Rightarrow> rat) \<Rightarrow> 'a set \<Rightarrow> bool" where
  "orders cmp key A = (\<forall>x\<in>A. \<forall>y\<in>A. num_lt (Fin 0) (cmp x y) \<longleftrightarrow> key y < key x)"

lemma sorted_insort_by:
  assumes "orders cmp key (insert x (set ys))" "sorted (map key ys)"
  shows "sorted (map key (insort_by cmp x ys))"
  using assms
proof (induction ys)
  case Nil
  then show ?case by simp
next
  case (Cons y ys)
  have o: "orders cmp key (insert x (set ys))" using Cons.prems(1) by (auto simp: orders_def)
  have c: "num_lt (Fin 0) (cmp x y) \<longleftrightarrow> key y < key x"
    using Cons.prems(1) by (simp add: orders_def)
  have s: "set (insort_by cmp x ys) = insert x (set ys)"
    by (metis mset_insort_by set_mset_add_mset_insert set_mset_mset)
  show ?case using Cons.IH [OF o] Cons.prems(2) by (auto simp: c s)
qed

lemma sorted_sort_by: "orders cmp key (set xs) \<Longrightarrow> sorted (map key (sort_by cmp xs))"
proof (induction xs)
  case Nil
  then show ?case by (simp add: sort_by_def)
next
  case (Cons x xs)
  have "orders cmp key (set xs)" using Cons.prems by (auto simp: orders_def)
  then have "sorted (map key (sort_by cmp xs))" by (rule Cons.IH)
  moreover have "orders cmp key (insert x (set (sort_by cmp xs)))" using Cons.prems by simp
  ultimately have "sorted (map key (insort_by cmp x (sort_by cmp xs)))"
    by (intro sorted_insort_by)
  then show ?case by (simp add: sort_by_def)
qed

section \<open>The sign of a rounded difference\<close>

lemma representable_grid: "representable r \<Longrightarrow> \<exists>n. r = of_int n * 2 powi (- 1074)"
proof -
  assume "representable r"
  then obtain m e where r: "r = of_int m * 2 powi e" and e: "- 1074 \<le> e"
    by (auto simp: representable_def)
  then have "r = of_int (m * 2 ^ nat (e - (- 1074))) * 2 powi (- 1074)"
    using powi2_split [OF e] by simp
  then show ?thesis by blast
qed

lemma representable_tiny: "representable (2 powi (- 1074))"
  unfolding representable_def by (intro exI [of _ 1] exI [of _ "- 1074"]) simp

lemma rnd64_diff_pos:
  assumes "representable a" "representable b" "a < b"
  shows "0 < rnd64 (b - a)"
proof -
  obtain m n where a: "a = of_int m * 2 powi (- 1074)" and b: "b = of_int n * 2 powi (- 1074)"
    using assms representable_grid by meson
  have "(0::rat) < (of_int n - of_int m) * 2 powi (- 1074)"
    using assms(3) unfolding a b by (simp add: left_diff_distrib)
  then have "(of_int m :: rat) < of_int n"
    using powi2_pos [of "- 1074"] by (simp add: zero_less_mult_iff)
  then have "1 \<le> n - m" by simp
  then have "(1::rat) \<le> of_int (n - m)" by (simp only: of_int_1_le_iff)
  then have "1 * 2 powi (- 1074) \<le> of_int (n - m) * (2::rat) powi (- 1074)"
    using powi2_pos [of "- 1074"] by (intro mult_right_mono) (auto simp: less_imp_le)
  then have "2 powi (- 1074) \<le> b - a" unfolding a b by (simp add: left_diff_distrib)
  then have "2 powi (- 1074) \<le> rnd64 (b - a)"
    by (rule b64.above) (rule rnd64_id, rule representable_tiny)
  then show ?thesis using powi2_pos [of "- 1074"] by linarith
qed

lemma diff_sign:
  assumes "representable a" "representable b"
  shows "num_lt (Fin 0) (Fin a - Fin b) \<longleftrightarrow> b < a"
proof (cases "b < a")
  case True
  then show ?thesis using rnd64_diff_pos [OF assms(2,1) True] by (auto simp: flo_def Let_def)
next
  case False
  then have "rnd64 (a - b) \<le> 0" by (intro rnd64_nonpos) simp
  moreover have "(0::rat) < 2 ^ 1024" by simp
  ultimately have "\<not> 2 ^ 1024 \<le> rnd64 (a - b)" by linarith
  with False \<open>rnd64 (a - b) \<le> 0\<close> show ?thesis by (simp add: flo_def Let_def)
qed

section \<open>The best entries of a ladder\<close>

text \<open>
  The first \<open>n\<close> elements of the sorted list: they are sorted, they come from the list, there
  are \<open>n\<close> of them or all, and no element left out precedes one that was kept.
\<close>

definition best_of :: "('a \<Rightarrow> rat) \<Rightarrow> nat \<Rightarrow> 'a list \<Rightarrow> 'a list \<Rightarrow> bool" where
  "best_of key n xs ys =
     (sorted (map key ys) \<and> mset ys \<subseteq># mset xs \<and> length ys = min n (length xs) \<and>
      (\<forall>y\<in>set ys. \<forall>z\<in>#mset xs - mset ys. key y \<le> key z))"

lemma best_of_take_sort:
  assumes "orders cmp key (set xs)"
  shows "best_of key n xs (take n (sort_by cmp xs))"
proof -
  let ?s = "sort_by cmp xs"
  have s: "sorted (map key ?s)" using assms by (rule sorted_sort_by)
  have split: "mset xs = mset (take n ?s) + mset (drop n ?s)"
    by (metis append_take_drop_id mset_append mset_sort_by)
  have "sorted (map key (take n ?s @ drop n ?s))" using s by simp
  then have "sorted (map key (take n ?s))"
    "\<forall>y\<in>set (take n ?s). \<forall>z\<in>set (drop n ?s). key y \<le> key z"
    unfolding map_append sorted_append by auto
  then show ?thesis by (simp add: best_of_def split)
qed

text \<open>The two price comparators order by value, where all prices are finite.\<close>

definition num_key :: "string \<Rightarrow> rat" where
  "num_key s = (case to_number s of Fin x \<Rightarrow> x | _ \<Rightarrow> 0)"

definition price_ok :: "string \<Rightarrow> bool" where
  "price_ok s = is_finite (to_number s)"

lemma to_number_b64: "b64_value (to_number s)"
  by (auto simp: to_number_def Let_def num_of_int_def split: option.split prod.split)
    (simp_all add: b64_value_def)

lemma num_key_representable: "representable (num_key s)"
  using to_number_b64 [of s] by (auto simp: num_key_def b64_value_def split: number.splits)

lemma price_ok_key: "price_ok s \<Longrightarrow> to_number s = Fin (num_key s)"
  by (cases "to_number s") (simp_all add: price_ok_def num_key_def)

lemma orders_asc:
  "\<forall>x\<in>A. price_ok (f x) \<Longrightarrow> orders (\<lambda>a b. to_number (f a) - to_number (f b)) (num_key \<circ> f) A"
  unfolding orders_def by (simp add: price_ok_key diff_sign num_key_representable del: fin_ops)

lemma orders_desc:
  "\<forall>x\<in>A. price_ok (f x) \<Longrightarrow> orders (\<lambda>a b. to_number (f b) - to_number (f a)) (\<lambda>x. - num_key (f x)) A"
  unfolding orders_def by (simp add: price_ok_key diff_sign num_key_representable del: fin_ops)

end
