(* ===== verification/MockState.thy ===== *)
theory MockState
  imports Format JsArray
begin

text \<open>
  The shared state of the in-browser mock exchange, \<^verbatim>\<open>web/mocks/data/seed.ts\<close>. The
  module variable \<open>STATE\<close> is a record passed through the operations. \<open>Math.random()\<close> and
  \<open>Date.now()\<close> are inputs: an operation takes the draws and clock readings it makes (a
  draw that a branch does not make is ignored there). Reading a market that is not in the map
  through the \<open>!\<close> assertion is a \<open>TypeError\<close>.
\<close>

section \<open>State\<close>

record mock_funding =
  mf_currentRateBps :: number
  mf_nextSettlementTsNs :: int
  mf_history :: "funding_point list"

record market_state =
  ms_market :: market
  ms_anchor :: number
  ms_bids :: "(string, string) jmap"
  ms_asks :: "(string, string) jmap"
  ms_sequence :: int
  ms_recentTrades :: "public_trade list"
  ms_funding :: mock_funding

record mock_state =
  st_markets :: "(market_id, market_state) jmap"
  st_jwt :: "string option"
  st_walletAddress :: string
  st_vaultBalanceUsdc :: number
  st_walletUsdcBalance :: number
  st_pendingDeposits :: "pending_transfer list"
  st_pendingWithdrawals :: "pending_transfer list"
  st_openOrders :: "open_order list"
  st_fills :: "fill list"
  st_positions :: "position list"

definition MOCK_WALLET :: string where
  "MOCK_WALLET = ''0xA0Cf798816D4b9b9866b5330EEa46a18382f251e''"

definition nowNs :: "int \<Rightarrow> int" where
  "nowNs now = now * 1000000"

definition nsStr :: "int \<Rightarrow> string" where
  "nsStr b = int_str b"

section \<open>The initial state\<close>

text \<open>One side of the seeded book: level \<open>i\<close> lies \<open>i\<close> ticks from the anchor.\<close>

definition seed_side :: "(number \<Rightarrow> number \<Rightarrow> number) \<Rightarrow> number \<Rightarrow> string \<Rightarrow> string \<Rightarrow> (nat \<Rightarrow> number)
    \<Rightarrow> (string, string) jmap" where
  "seed_side move anchor tickSize lotSize rnd =
     foldl (\<lambda>m i. mset_key m (to_fixed (move anchor (to_number tickSize * Fin (of_nat i))) (decFromStep tickSize))
                            (to_fixed (rnd i * Fin 2 + lit (5/100)) (decFromStep lotSize)))
       [] [1..<61]"

definition makeMarket :: "market_id \<Rightarrow> string \<Rightarrow> number \<Rightarrow> string \<Rightarrow> string \<Rightarrow> (nat \<Rightarrow> number)
    \<Rightarrow> (nat \<Rightarrow> int) \<Rightarrow> market_state" where
  "makeMarket mid base anchor tickSize lotSize rnd now =
     \<lparr>ms_market = \<lparr>mk_id = mid, mk_base = base, mk_quote = ''USD'', mk_active = True,
        mk_tickSize = tickSize, mk_lotSize = lotSize, mk_maxLeverage = Fin 20,
        mk_imRatioBps = Fin 500, mk_mmRatioBps = Fin 250, mk_liqBonusBps = Fin 100,
        mk_takerFeeBps = Fin 5, mk_makerRebateBps = Fin (- 2), mk_fundingIntervalSec = 28800,
        mk_indexPriceX18 = num_str anchor, mk_volume24hUsdc = None, mk_openInterestUsdc = None,
        mk_fundingRateBps = None, mk_nextFundingTsNs = None\<rparr>,
      ms_anchor = anchor,
      ms_bids = seed_side (-) anchor tickSize lotSize rnd,
      ms_asks = seed_side (+) anchor tickSize lotSize (\<lambda>i. rnd (60 + i)),
      ms_sequence = 1,
      ms_recentTrades = [],
      ms_funding = \<lparr>mf_currentRateBps = (rnd 121 - lit (4/10)) * Fin 4,
        mf_nextSettlementTsNs = nowNs (now 0) + 28800 * 1000000000,
        mf_history = map (\<lambda>idx. \<lparr>fp_tsNs = nsStr (nowNs (now (idx + 1)) - (int idx + 1) * 28800 * 1000000000),
                                   fp_rateBps = (rnd (122 + idx) - lit (1/2)) * Fin 6\<rparr>) [0..<8]\<rparr>\<rparr>"

definition STATE :: "(market_id \<Rightarrow> nat \<Rightarrow> number) \<Rightarrow> (market_id \<Rightarrow> nat \<Rightarrow> int) \<Rightarrow> int \<Rightarrow> mock_state" where
  "STATE rnd now t =
     \<lparr>st_markets = map_from
        [(BtcUsd, makeMarket BtcUsd ''BTC'' (Fin 100000) ''0.1'' ''0.0001'' (rnd BtcUsd) (now BtcUsd)),
         (EthUsd, makeMarket EthUsd ''ETH'' (Fin 3500) ''0.05'' ''0.001'' (rnd EthUsd) (now EthUsd)),
         (SolUsd, makeMarket SolUsd ''SOL'' (Fin 200) ''0.01'' ''0.01'' (rnd SolUsd) (now SolUsd))],
      st_jwt = None, st_walletAddress = MOCK_WALLET,
      st_vaultBalanceUsdc = Fin 5000, st_walletUsdcBalance = Fin 12500,
      st_pendingDeposits = [], st_pendingWithdrawals = [], st_openOrders = [], st_fills = [],
      st_positions = [\<lparr>ps_marketId = BtcUsd, ps_size = ''0.1'', ps_side = Long,
        ps_entryPriceX18 = ''98500.0'', ps_markPriceX18 = ''100050.0'',
        ps_notionalUsdc = ''10005.0'', ps_unrealisedPnlUsdc = ''155.0'',
        ps_realisedPnlUsdc = ''0.0'', ps_leverage = ''2.0'',
        ps_liquidationPriceX18 = ''94250.0'', ps_fundingPaidUsdc = ''-1.25'',
        ps_lastUpdatedTsNs = nsStr (nowNs t)\<rparr>]\<rparr>"

section \<open>Reading\<close>

definition get_market :: "mock_state \<Rightarrow> market_id \<Rightarrow> (js_error, market_state) result" where
  "get_market st mid = (case mget (st_markets st) mid of
       None \<Rightarrow> Throw (TypeError ''undefined market'') | Some m \<Rightarrow> Return m)"

text \<open>\<open>Number(a[0]) - Number(b[0])\<close> and its converse.\<close>

definition by_price_asc :: "orderbook_level \<Rightarrow> orderbook_level \<Rightarrow> number" where
  "by_price_asc a b = to_number (fst a) - to_number (fst b)"

definition by_price_desc :: "orderbook_level \<Rightarrow> orderbook_level \<Rightarrow> number" where
  "by_price_desc a b = to_number (fst b) - to_number (fst a)"

definition snapshotOf :: "mock_state \<Rightarrow> market_id \<Rightarrow> int \<Rightarrow> (js_error, orderbook_snapshot) result" where
  "snapshotOf st mid now = (case mget (st_markets st) mid of
       None \<Rightarrow> Throw (ErrorMsg (''unknown market '' @ market_id_str mid))
     | Some m \<Rightarrow> Return \<lparr>ob_marketId = mid, ob_sequence = ms_sequence m,
         ob_bids = take 50 (sort_by by_price_desc (ms_bids m)),
         ob_asks = take 50 (sort_by by_price_asc (ms_asks m)),
         ob_tsNs = nsStr (nowNs now)\<rparr>)"

definition oraclePrice :: "mock_state \<Rightarrow> market_id \<Rightarrow> (js_error, string) result" where
  "oraclePrice st mid = (case get_market st mid of Inl e \<Rightarrow> Throw e
     | Inr m \<Rightarrow> Return (to_fixed (ms_anchor m) (decFromStep (mk_tickSize (ms_market m)))))"

definition fundingFrame :: "mock_state \<Rightarrow> market_id \<Rightarrow> (js_error, funding_response) result" where
  "fundingFrame st mid = (case get_market st mid of Inl e \<Rightarrow> Throw e
     | Inr m \<Rightarrow> Return \<lparr>fr_marketId = mid, fr_currentRateBps = mf_currentRateBps (ms_funding m),
         fr_nextSettlementTsNs = nsStr (mf_nextSettlementTsNs (ms_funding m)),
         fr_history = mf_history (ms_funding m)\<rparr>)"

definition balanceFrame :: "mock_state \<Rightarrow> balance_response" where
  "balanceFrame st = \<lparr>br_vaultBalanceUsdc = to_fixed (st_vaultBalanceUsdc st) 2,
     br_walletUsdcBalance = to_fixed (st_walletUsdcBalance st) 2,
     br_pendingDeposits = st_pendingDeposits st,
     br_pendingWithdrawals = st_pendingWithdrawals st\<rparr>"

definition positionsFrame :: "mock_state \<Rightarrow> positions_response" where
  "positionsFrame st =
     (let totalNotional = foldl (\<lambda>s p. s + to_number (ps_notionalUsdc p)) (Fin 0) (st_positions st);
          totalUnreal = foldl (\<lambda>s p. s + to_number (ps_unrealisedPnlUsdc p)) (Fin 0) (st_positions st);
          lev = (case st_positions st of [] \<Rightarrow> Fin 1 | p # _ \<Rightarrow> to_number (ps_leverage p));
          used = totalNotional / num_max (Fin 1) lev;
          free = num_max (Fin 0) (st_vaultBalanceUsdc st - used)
      in \<lparr>pr_collateralUsdc = to_fixed (st_vaultBalanceUsdc st) 2,
          pr_freeCollateralUsdc = to_fixed free 2,
          pr_totalUnrealisedPnlUsdc = to_fixed totalUnreal 2,
          pr_totalNotionalUsdc = to_fixed totalNotional 2,
          pr_positions = st_positions st\<rparr>)"

definition recentPublicTrades :: "mock_state \<Rightarrow> market_id \<Rightarrow> number \<Rightarrow> (js_error, public_trade list) result" where
  "recentPublicTrades st mid limit = (case get_market st mid of Inl e \<Rightarrow> Throw e
     | Inr m \<Rightarrow> Return (slice_to (ms_recentTrades m) limit))"

section \<open>Changing\<close>

text \<open>
  One pass of the loop of \<open>mutateBook\<close>; the accumulator holds both sides of the book and
  both delta lists. The draws are: side, distance, removal, quantity.
\<close>

type_synonym book_draw = "number \<times> number \<times> number \<times> number"

record book_acc =
  ba_bids :: "(string, string) jmap"
  ba_asks :: "(string, string) jmap"
  ba_dbids :: "orderbook_level list"
  ba_dasks :: "orderbook_level list"

definition mutate_price :: "number \<Rightarrow> number \<Rightarrow> nat \<Rightarrow> bool \<Rightarrow> number \<Rightarrow> string" where
  "mutate_price anchor tick tickDec isBid r =
     to_fixed (anchor + (num_floor (r * Fin 60) + Fin 1) * tick * (if isBid then Fin (- 1) else Fin 1)) tickDec"

definition mutate_one :: "number \<Rightarrow> number \<Rightarrow> nat \<Rightarrow> nat \<Rightarrow> book_acc \<Rightarrow> book_draw \<Rightarrow> book_acc" where
  "mutate_one anchor tick tickDec lotDec b d =
     (case d of (rb, ro, rr, rq) \<Rightarrow>
      let isBid = num_lt rb (lit (1/2));
          sideMap = (if isBid then ba_bids b else ba_asks b);
          px = mutate_price anchor tick tickDec isBid ro
      in if num_lt rr (lit (18/100)) then
           (if mhas sideMap px then
              (if isBid then b\<lparr>ba_bids := mdelete sideMap px, ba_dbids := ba_dbids b @ [(px, ''0'')]\<rparr>
               else b\<lparr>ba_asks := mdelete sideMap px, ba_dasks := ba_dasks b @ [(px, ''0'')]\<rparr>)
            else b)
         else
           (let qty = to_fixed (rq * Fin 2 + lit (5/100)) lotDec in
            if isBid then b\<lparr>ba_bids := mset_key sideMap px qty, ba_dbids := ba_dbids b @ [(px, qty)]\<rparr>
            else b\<lparr>ba_asks := mset_key sideMap px qty, ba_dasks := ba_dasks b @ [(px, qty)]\<rparr>))"

record book_delta =
  bd_bids :: "orderbook_level list"
  bd_asks :: "orderbook_level list"
  bd_sequence :: int
  bd_tsNs :: string

definition put_market :: "market_id \<Rightarrow> market_state \<Rightarrow> mock_state \<Rightarrow> mock_state" where
  "put_market mid m st = st\<lparr>st_markets := mset_key (st_markets st) mid m\<rparr>"

definition mutate_market :: "market_state \<Rightarrow> number \<Rightarrow> book_draw list \<Rightarrow> market_state \<times> book_acc" where
  "mutate_market m r draws =
     (let tick = to_number (mk_tickSize (ms_market m));
          lotDec = decFromStep (mk_lotSize (ms_market m));
          tickDec = decFromStep (mk_tickSize (ms_market m));
          anchor = ms_anchor m + (r - lit (1/2)) * tick * Fin 2;
          b = foldl (mutate_one anchor tick tickDec lotDec)
                \<lparr>ba_bids = ms_bids m, ba_asks = ms_asks m, ba_dbids = [], ba_dasks = []\<rparr> draws
      in (m\<lparr>ms_anchor := anchor, ms_bids := ba_bids b, ms_asks := ba_asks b,
            ms_sequence := ms_sequence m + 1\<rparr>, b))"

definition mutateBook :: "mock_state \<Rightarrow> market_id \<Rightarrow> number \<Rightarrow> book_draw \<times> book_draw \<times> book_draw \<Rightarrow> int
    \<Rightarrow> (js_error, mock_state \<times> book_delta) result" where
  "mutateBook st mid r draws now = (case draws of (d0, d1, d2) \<Rightarrow>
     (case get_market st mid of Inl e \<Rightarrow> Throw e
      | Inr m \<Rightarrow> (case mutate_market m r [d0, d1, d2] of (m', b) \<Rightarrow>
          Return (put_market mid m' st,
            \<lparr>bd_bids = ba_dbids b, bd_asks = ba_dasks b, bd_sequence = ms_sequence m',
             bd_tsNs = nsStr (nowNs now)\<rparr>))))"

text \<open>\<open>spawnTrade\<close>: draws for side, price and quantity, and the random id suffix.\<close>

definition spawnTrade :: "mock_state \<Rightarrow> market_id \<Rightarrow> number \<Rightarrow> number \<Rightarrow> number \<Rightarrow> string \<Rightarrow> int
    \<Rightarrow> (js_error, mock_state \<times> public_trade) result" where
  "spawnTrade st mid rs rp rq suffix now = (case get_market st mid of Inl e \<Rightarrow> Throw e
     | Inr m \<Rightarrow>
       (let tick = to_number (mk_tickSize (ms_market m));
            px = to_fixed (ms_anchor m + (rp - lit (1/2)) * tick * Fin 4) (decFromStep (mk_tickSize (ms_market m)));
            qty = to_fixed (rq * lit (12/10) + lit (1/100)) (decFromStep (mk_lotSize (ms_market m)));
            t = \<lparr>tr_id = ''fill_'' @ suffix, tr_marketId = mid, tr_price = px, tr_qty = qty,
                 tr_side = (if num_lt rs (lit (1/2)) then Buy else Sell), tr_tsNs = nsStr (nowNs now)\<rparr>
        in Return (put_market mid (m\<lparr>ms_recentTrades := take 200 (t # ms_recentTrades m)\<rparr>) st, t)))"

text \<open>
  \<open>refreshMarks\<close>. A position of a market that is not in the map raises; the updates made
  before the raise are not kept in the model (the map holds every market id, lemma
  \<open>STATE_has_markets\<close>, and no operation removes one).
\<close>

definition refresh_position :: "string \<Rightarrow> int \<Rightarrow> position \<Rightarrow> position" where
  "refresh_position newMark now p =
     (let entry = to_number (ps_entryPriceX18 p);
          mark = to_number newMark;
          sz = to_number (ps_size p);
          dir = (if ps_side p = Long then Fin 1 else Fin (- 1));
          pnl = (mark - entry) * sz * dir
      in p\<lparr>ps_markPriceX18 := newMark, ps_unrealisedPnlUsdc := to_fixed pnl 2,
           ps_notionalUsdc := to_fixed (mark * sz) 2, ps_lastUpdatedTsNs := nsStr (nowNs now)\<rparr>)"

fun refresh_all :: "mock_state \<Rightarrow> int \<Rightarrow> position list \<Rightarrow> (js_error, position list) result" where
  "refresh_all st now [] = Return []"
| "refresh_all st now (p # ps) = (case oraclePrice st (ps_marketId p) of Inl e \<Rightarrow> Throw e
     | Inr mark \<Rightarrow> (case refresh_all st now ps of Inl e \<Rightarrow> Throw e
         | Inr qs \<Rightarrow> Return (refresh_position mark now p # qs)))"

definition refreshMarks :: "mock_state \<Rightarrow> int \<Rightarrow> (js_error, mock_state) result" where
  "refreshMarks st now = (case refresh_all st now (st_positions st) of Inl e \<Rightarrow> Throw e
     | Inr ps \<Rightarrow> Return (st\<lparr>st_positions := ps\<rparr>))"

definition pushFill :: "fill \<Rightarrow> mock_state \<Rightarrow> mock_state" where
  "pushFill f st = st\<lparr>st_fills := take 500 (f # st_fills st)\<rparr>"

section \<open>Well-formed markets\<close>

text \<open>A draw of \<open>Math.random()\<close>.\<close>

definition draw :: "number \<Rightarrow> bool" where
  "draw r = (\<exists>x. r = Fin x \<and> 0 \<le> x \<and> x < 1)"

fun book_draw_ok :: "book_draw \<Rightarrow> bool" where
  "book_draw_ok (a, b, c, d) = (draw a \<and> draw b \<and> draw c \<and> draw d)"

definition qty_ok :: "string \<Rightarrow> bool" where
  "qty_ok q = (case to_number q of Fin x \<Rightarrow> 0 < x | _ \<Rightarrow> False)"

definition side_ok :: "(string, string) jmap \<Rightarrow> bool" where
  "side_ok b = (map_wf b \<and> (\<forall>(p, q)\<in>set b. price_ok p \<and> qty_ok q))"

text \<open>
  The anchor is a bounded random walk: its magnitude never leaves \<open>2 ^ 60\<close>, because a step
  is far below half a unit in the last place there and rounding absorbs it.
\<close>

definition anchor_ok :: "number \<Rightarrow> bool" where
  "anchor_ok a = (\<exists>x. a = Fin x \<and> \<bar>x\<bar> \<le> 2 ^ 60)"

definition market_ok :: "market_state \<Rightarrow> bool" where
  "market_ok m = (anchor_ok (ms_anchor m) \<and> side_ok (ms_bids m) \<and> side_ok (ms_asks m) \<and>
     mk_tickSize (ms_market m) \<in> {''0.1'', ''0.05'', ''0.01''} \<and>
     mk_lotSize (ms_market m) \<in> {''0.0001'', ''0.001'', ''0.01''} \<and>
     length (ms_recentTrades m) \<le> 200 \<and> bnd 15 (mf_currentRateBps (ms_funding m)))"

lemma rnd64_edge: "rnd64 (2 ^ 60 + 100) = 2 ^ 60"
  by code_simp

lemma anchor_absorb: "\<bar>x\<bar> \<le> 2 ^ 60 + 100 \<Longrightarrow> anchor_ok (flo x)"
proof -
  assume x: "\<bar>x\<bar> \<le> 2 ^ 60 + 100"
  have "rnd64 x \<le> rnd64 (2 ^ 60 + 100)" using x by (intro rnd64_mono) simp
  moreover have "rnd64 (- (2 ^ 60 + 100)) \<le> rnd64 x" using x by (intro rnd64_mono) linarith
  ultimately have *: "\<bar>rnd64 x\<bar> \<le> 2 ^ 60" unfolding rnd64_minus rnd64_edge by linarith
  have "(2::rat) ^ 60 < 2 ^ 1024" by simp
  then have "flo x = Fin (rnd64 x)" using * unfolding flo_def Let_def by (auto simp: not_le)
  then show ?thesis using * by (simp add: anchor_ok_def)
qed

lemma anchor_move:
  assumes "anchor_ok a" "bnd 100 d"
  shows "anchor_ok (a + d)"
proof -
  obtain x y where *: "a = Fin x" "\<bar>x\<bar> \<le> 2 ^ 60" "d = Fin y" "\<bar>y\<bar> \<le> 100"
    using assms by (auto simp: anchor_ok_def bnd_def)
  then have "\<bar>x + y\<bar> \<le> 2 ^ 60 + 100" by linarith
  then show ?thesis unfolding * fin_ops by (rule anchor_absorb)
qed

lemma price_ok_anchor: "anchor_ok a \<Longrightarrow> price_ok (to_fixed a f)"
proof -
  assume "anchor_ok a"
  then obtain x where x: "a = Fin x" "\<bar>x\<bar> \<le> 2 ^ 60" by (auto simp: anchor_ok_def)
  then have "\<bar>x\<bar> < 10 ^ 21" by simp
  from finite_to_fixed [OF this, of f] show ?thesis unfolding x price_ok_def by auto
qed

lemma draw_bnd: "draw r \<Longrightarrow> bnd 1 r"
  by (auto simp: draw_def bnd_def)

lemma tick_bnd: "t \<in> {''0.1'', ''0.05'', ''0.01''} \<Longrightarrow> bnd 1 (to_number t)"
proof -
  assume "t \<in> {''0.1'', ''0.05'', ''0.01''}"
  moreover have "to_number ''0.1'' = flo (1/10)" "to_number ''0.05'' = flo (5/100)"
    "to_number ''0.01'' = flo (1/100)"
    by (simp_all add: read_literal)
  ultimately show ?thesis by (auto intro!: bnd_flo)
qed

lemma drift_bnd:
  assumes "draw r" "bnd 1 tick"
  shows "bnd 100 ((r - lit (1/2)) * tick * Fin 2)"
proof -
  have h: "bnd 1 (lit (1/2))" by (rule bnd_lit) simp_all
  have "bnd (1 + 1) (r - lit (1/2))"
    by (rule bnd_diff [OF draw_bnd [OF assms(1)] h]) simp
  then have "bnd ((1 + 1) * 1) ((r - lit (1/2)) * tick)" by (rule bnd_mul [OF _ assms(2)]) simp
  then have "bnd ((1 + 1) * 1 * 2) ((r - lit (1/2)) * tick * Fin 2)" by (rule bnd_mul) simp_all
  then show ?thesis by (rule bnd_mono) simp
qed

lemma offset_bnd:
  assumes "draw r" "bnd 1 tick"
  shows "bnd 100 ((num_floor (r * Fin 60) + Fin 1) * tick * (if isBid then Fin (- 1) else Fin 1))"
proof -
  have "bnd (1 * 60) (r * Fin 60)" by (rule bnd_mul [OF draw_bnd [OF assms(1)]]) simp_all
  then have "bnd (1 * 60 + 1) (num_floor (r * Fin 60) + Fin 1)"
    by (intro bnd_add bnd_floor) simp_all
  then have "bnd ((1 * 60 + 1) * 1) ((num_floor (r * Fin 60) + Fin 1) * tick)"
    by (rule bnd_mul [OF _ assms(2)]) simp
  then have "bnd ((1 * 60 + 1) * 1 * 1)
      ((num_floor (r * Fin 60) + Fin 1) * tick * (if isBid then Fin (- 1) else Fin 1))"
    by (rule bnd_mul) simp_all
  then show ?thesis by (rule bnd_mono) simp
qed

lemma mutate_price_ok:
  "anchor_ok a \<Longrightarrow> draw r \<Longrightarrow> bnd 1 tick \<Longrightarrow> price_ok (mutate_price a tick f isBid r)"
  unfolding mutate_price_def by (intro price_ok_anchor anchor_move offset_bnd)

subsection \<open>Quantities are positive\<close>

lemma qty_ok_fixed:
  assumes "1/32 \<le> x" "x \<le> 4" "2 \<le> f" "f \<le> 4"
  shows "qty_ok (to_fixed (Fin x) f)"
proof -
  have f: "(10::rat) ^ 2 \<le> 10 ^ f" "(10::rat) ^ f \<le> 10 ^ 4"
    using assms by (intro power_increasing; simp)+
  have "(1/32) * 10 ^ 2 \<le> x * 10 ^ f" using assms f by (intro mult_mono) auto
  then have "1 \<le> \<lfloor>x * 10 ^ f + 1/2\<rfloor>" by (simp add: le_floor_iff)
  then have "(1::rat) \<le> of_int \<lfloor>x * 10 ^ f + 1/2\<rfloor>" by (simp only: of_int_1_le_iff)
  then have "1 / 10 ^ f \<le> near_dec x f" using assms unfolding near_dec_def
    by (auto intro!: divide_right_mono)
  moreover have "2 powi (- 14) \<le> 1 / (10::rat) ^ f"
  proof -
    have "(2::rat) powi (- 14) \<le> 1 / 10 ^ 4" by (simp add: power_int_def power_divide)
    also have "\<dots> \<le> 1 / 10 ^ f" using f by (intro divide_left_mono) auto
    finally show ?thesis .
  qed
  ultimately have "2 powi (- 14) \<le> near_dec x f" by linarith
  moreover have "rnd64 (2 powi (- 14)) = 2 powi (- 14)"
    by (intro rnd64_id representable_powi) simp
  ultimately have "2 powi (- 14) \<le> rnd64 (near_dec x f)" by (rule b64.above)
  then have pos: "0 < rnd64 (near_dec x f)" using powi2_pos [of "- 14"] by linarith
  have x: "\<bar>x\<bar> < 10 ^ 21" using assms by simp
  obtain y where "flo (near_dec x f) = Fin y"
    using finite_to_fixed [OF x, of f] unfolding to_number_to_fixed [OF x] by blast
  then show ?thesis using pos flo_Fin unfolding qty_ok_def to_number_to_fixed [OF x] by auto
qed

lemma draw_qty:
  assumes "draw r" "2 \<le> f" "f \<le> 4"
  shows "qty_ok (to_fixed (r * Fin 2 + lit (5/100)) f)"
proof -
  obtain x where x: "r = Fin x" "0 \<le> x" "x < 1" using assms by (auto simp: draw_def)
  have "bnd 2 (flo (x * 2))" using x by (intro bnd_flo) auto
  then obtain y where y: "flo (x * 2) = Fin y" "\<bar>y\<bar> \<le> 2" by (auto simp: bnd_def)
  then have y0: "0 \<le> y" using flo_Fin [OF y(1)] x by (simp add: rnd64_nonneg)
  have "bnd 1 (lit (5/100))" by (rule bnd_lit) simp_all
  then obtain z where z: "lit (5/100) = Fin z" "\<bar>z\<bar> \<le> 1" by (auto simp: bnd_def)
  have r32: "rnd64 (1/32) = 1/32" by code_simp
  have "1/32 \<le> rnd64 (5/100)" by (rule b64.above [OF _ r32]) simp
  then have z0: "1/32 \<le> z" using flo_Fin [OF z(1) [unfolded lit_def]] by simp
  have "bnd 3 (flo (y + z))" using y z by (intro bnd_flo) auto
  then obtain w where w: "flo (y + z) = Fin w" "\<bar>w\<bar> \<le> 3" by (auto simp: bnd_def)
  have "1/32 \<le> rnd64 (y + z)" using y0 z0 by (intro b64.above [OF _ r32]) linarith
  then have "1/32 \<le> w" using flo_Fin [OF w(1)] by simp
  moreover have "w \<le> 4" using w(2) by linarith
  ultimately show ?thesis using assms(2,3) unfolding x z(1) fin_ops y(1) w(1) by (rule qty_ok_fixed)
qed

subsection \<open>Every change keeps the markets well-formed\<close>

lemma side_ok_set: "side_ok b \<Longrightarrow> price_ok p \<Longrightarrow> qty_ok q \<Longrightarrow> side_ok (mset_key b p q)"
  by (auto simp: side_ok_def dest!: mset_key_mem)

lemma side_ok_delete: "side_ok b \<Longrightarrow> side_ok (mdelete b p)"
  unfolding side_ok_def by (auto simp: mdelete_def [of b p] intro: map_wf_delete [unfolded mdelete_def])

lemma lot_decimals: "l \<in> {''0.0001'', ''0.001'', ''0.01''} \<Longrightarrow> 2 \<le> decFromStep l \<and> decFromStep l \<le> 4"
  by (auto simp: decFromStep_def index_of_def Let_def)

lemma mutate_one_ok:
  assumes "anchor_ok a" "bnd 1 tick" "2 \<le> lotDec" "lotDec \<le> 4" "book_draw_ok d"
    and "side_ok (ba_bids b)" "side_ok (ba_asks b)"
  shows "side_ok (ba_bids (mutate_one a tick tickDec lotDec b d))"
    and "side_ok (ba_asks (mutate_one a tick tickDec lotDec b d))"
proof -
  obtain rb ro rr rq where d: "d = (rb, ro, rr, rq)" by (cases d)
  have dr: "draw ro" "draw rq" using assms(5) by (simp_all add: d)
  note ok = mutate_price_ok [OF assms(1) dr(1) assms(2)] draw_qty [OF dr(2) assms(3,4)]
  show "side_ok (ba_bids (mutate_one a tick tickDec lotDec b d))"
    "side_ok (ba_asks (mutate_one a tick tickDec lotDec b d))"
    using assms(6,7) ok by (auto simp: mutate_one_def d Let_def intro!: side_ok_set side_ok_delete)
qed

lemma mutate_fold_ok:
  assumes "anchor_ok a" "bnd 1 tick" "2 \<le> lotDec" "lotDec \<le> 4" "list_all book_draw_ok ds"
    and "side_ok (ba_bids b) \<and> side_ok (ba_asks b)"
  shows "side_ok (ba_bids (foldl (mutate_one a tick tickDec lotDec) b ds)) \<and>
         side_ok (ba_asks (foldl (mutate_one a tick tickDec lotDec) b ds))"
  using assms(5,6) by (induction ds arbitrary: b) (simp_all add: mutate_one_ok [OF assms(1-4)])

lemma mutate_market_ok:
  assumes "market_ok m" "draw r" "list_all book_draw_ok ds"
  shows "market_ok (fst (mutate_market m r ds))"
proof -
  have t: "bnd 1 (to_number (mk_tickSize (ms_market m)))"
    using assms(1) by (intro tick_bnd) (simp add: market_ok_def)
  have l: "2 \<le> decFromStep (mk_lotSize (ms_market m))" "decFromStep (mk_lotSize (ms_market m)) \<le> 4"
    using assms(1) lot_decimals by (auto simp: market_ok_def)
  have a: "anchor_ok (ms_anchor m + (r - lit (1/2)) * to_number (mk_tickSize (ms_market m)) * Fin 2)"
    using assms by (intro anchor_move drift_bnd t) (auto simp: market_ok_def)
  show ?thesis
    using assms(1) a mutate_fold_ok [OF a t l assms(3)] unfolding mutate_market_def Let_def
    by (simp add: market_ok_def)
qed

subsection \<open>The initial state\<close>

lemma anchor_move_down: "anchor_ok a \<Longrightarrow> bnd 100 d \<Longrightarrow> anchor_ok (a - d)"
proof -
  assume a: "anchor_ok a" and "bnd 100 d"
  then obtain y where "d = Fin y" "\<bar>y\<bar> \<le> 100" by (auto simp: bnd_def)
  then have "bnd 100 (- d)" "a - d = a + (- d)"
    by (auto simp: minus_number_def plus_number_def uminus_number_def)
  then show ?thesis using anchor_move [OF a] by simp
qed

lemma seed_side_ok:
  assumes mv: "\<And>d. bnd 100 d \<Longrightarrow> anchor_ok (move anchor d)"
    and t: "tickSize \<in> {''0.1'', ''0.05'', ''0.01''}"
    and l: "lotSize \<in> {''0.0001'', ''0.001'', ''0.01''}"
    and r: "\<And>i. draw (rnd i)"
  shows "side_ok (seed_side move anchor tickSize lotSize rnd)"
proof -
  have "side_ok (foldl (\<lambda>m i. mset_key m (to_fixed (move anchor (to_number tickSize * Fin (of_nat i))) (decFromStep tickSize))
      (to_fixed (rnd i * Fin 2 + lit (5/100)) (decFromStep lotSize))) m is)"
    if "side_ok m" "\<forall>i\<in>set is. i \<le> 60" for m "is"
    using that
  proof (induction "is" arbitrary: m)
    case (Cons i "is")
    have "(of_nat i :: rat) \<le> of_nat 60" using Cons.prems(2) by (subst of_nat_le_iff) simp
    then have "bnd 60 (Fin (of_nat i))" by simp
    then have "bnd (1 * 60) (to_number tickSize * Fin (of_nat i))"
      by (rule bnd_mul [OF tick_bnd [OF t]]) simp
    then have "bnd 100 (to_number tickSize * Fin (of_nat i))" by (rule bnd_mono) simp
    then have p: "price_ok (to_fixed (move anchor (to_number tickSize * Fin (of_nat i))) (decFromStep tickSize))"
      by (intro price_ok_anchor mv)
    have q: "qty_ok (to_fixed (rnd i * Fin 2 + lit (5/100)) (decFromStep lotSize))"
      using lot_decimals [OF l] r by (intro draw_qty) auto
    show ?case unfolding foldl_Cons
      by (rule Cons.IH [OF side_ok_set [OF Cons.prems(1) p q]]) (use Cons.prems in simp)
  qed simp
  from this [of "[]" "[1..<61]"] show ?thesis unfolding seed_side_def by (simp add: side_ok_def del: upt.simps foldl_Cons)
qed

lemma makeMarket_ok:
  assumes "anchor_ok anchor" "tickSize \<in> {''0.1'', ''0.05'', ''0.01''}"
    "lotSize \<in> {''0.0001'', ''0.001'', ''0.01''}" "\<And>i. draw (rnd i)"
  shows "market_ok (makeMarket mid base anchor tickSize lotSize rnd now)"
proof -
  have "bnd (1 + 1) (rnd 121 - lit (4/10))" by (intro bnd_diff draw_bnd assms bnd_lit) simp_all
  then have "bnd ((1 + 1) * 4) ((rnd 121 - lit (4/10)) * Fin 4)" by (rule bnd_mul) simp_all
  then have "bnd 15 ((rnd 121 - lit (4/10)) * Fin 4)" by (rule bnd_mono) simp
  then show ?thesis
  using seed_side_ok [of "(-)" anchor tickSize lotSize rnd]
    seed_side_ok [of "(+)" anchor tickSize lotSize "\<lambda>i. rnd (60 + i)"] assms
  by (simp add: makeMarket_def market_ok_def anchor_move anchor_move_down)
qed

definition mock_ok :: "mock_state \<Rightarrow> bool" where
  "mock_ok st = ((\<forall>mid. \<exists>m. mget (st_markets st) mid = Some m \<and> market_ok m) \<and>
     length (st_fills st) \<le> 500 \<and> distinct (map ps_marketId (st_positions st)) \<and>
     (\<forall>o'\<in>set (st_openOrders st). oo_type o' = Limit \<and> oo_remaining o' = oo_qty o'))"

lemma STATE_has_markets:
  "mget (st_markets (STATE rnd now t)) mid = Some (case mid of
     BtcUsd \<Rightarrow> makeMarket BtcUsd ''BTC'' (Fin 100000) ''0.1'' ''0.0001'' (rnd BtcUsd) (now BtcUsd)
   | EthUsd \<Rightarrow> makeMarket EthUsd ''ETH'' (Fin 3500) ''0.05'' ''0.001'' (rnd EthUsd) (now EthUsd)
   | SolUsd \<Rightarrow> makeMarket SolUsd ''SOL'' (Fin 200) ''0.01'' ''0.01'' (rnd SolUsd) (now SolUsd))"
  by (cases mid) (simp_all add: STATE_def map_from_def)

lemma mock_ok_STATE: "(\<And>mid i. draw (rnd mid i)) \<Longrightarrow> mock_ok (STATE rnd now t)"
  unfolding mock_ok_def STATE_has_markets
  by (auto simp: anchor_ok_def intro!: makeMarket_ok split: market_id.split) (simp_all add: STATE_def)

lemma mock_ok_get: "mock_ok st \<Longrightarrow> \<exists>m. get_market st mid = Return m \<and> market_ok m \<and> mget (st_markets st) mid = Some m"
proof -
  assume "mock_ok st"
  then obtain m where "mget (st_markets st) mid = Some m" "market_ok m" by (auto simp: mock_ok_def)
  then show ?thesis by (simp add: get_market_def)
qed

lemma mock_ok_put: "mock_ok st \<Longrightarrow> market_ok m \<Longrightarrow> mock_ok (put_market mid m st)"
  by (simp add: mock_ok_def put_market_def)

lemma mutateBook_ok:
  assumes "mock_ok st" "draw r" "book_draw_ok d0" "book_draw_ok d1" "book_draw_ok d2"
  shows "\<exists>st' dl. mutateBook st mid r (d0, d1, d2) now = Return (st', dl) \<and> mock_ok st'"
proof -
  obtain m where m: "get_market st mid = Return m" "market_ok m" using mock_ok_get [OF assms(1)] by blast
  obtain m' b where mm: "mutate_market m r [d0, d1, d2] = (m', b)" by (cases "mutate_market m r [d0, d1, d2]")
  have "market_ok m'" using mutate_market_ok [OF m(2) assms(2), of "[d0, d1, d2]"] assms mm by simp
  then show ?thesis using assms(1) by (simp add: mutateBook_def m mm mock_ok_put)
qed

lemma spawnTrade_ok:
  assumes "mock_ok st"
  shows "\<exists>st' t. spawnTrade st mid rs rp rq sfx now = Return (st', t) \<and> mock_ok st'"
proof -
  obtain m where m: "get_market st mid = Return m" "market_ok m" using mock_ok_get [OF assms] by blast
  then show ?thesis using assms
    by (simp add: spawnTrade_def Let_def mock_ok_put market_ok_def)
qed

lemma refresh_all_ok:
  assumes "mock_ok st"
  shows "\<exists>qs. refresh_all st now ps = Return qs \<and> map ps_marketId qs = map ps_marketId ps"
proof (induction ps)
  case (Cons p ps)
  obtain m where "get_market st (ps_marketId p) = Return m" using mock_ok_get [OF assms] by blast
  then show ?case using Cons.IH by (auto simp: oraclePrice_def refresh_position_def Let_def)
qed simp

lemma refreshMarks_ok: "mock_ok st \<Longrightarrow> \<exists>st'. refreshMarks st now = Return st' \<and> mock_ok st'"
proof -
  assume ok: "mock_ok st"
  obtain qs where "refresh_all st now (st_positions st) = Return qs"
    "map ps_marketId qs = map ps_marketId (st_positions st)" using refresh_all_ok [OF ok] by blast
  then show ?thesis using ok by (simp add: refreshMarks_def mock_ok_def)
qed

lemma pushFill_ok: "mock_ok st \<Longrightarrow> mock_ok (pushFill f st)"
  by (simp add: mock_ok_def pushFill_def)

end
