(* ===== verification/MockApi.thy ===== *)
theory MockApi
  imports MockState
begin

text \<open>
  The request handlers of the mock exchange, \<^verbatim>\<open>web/mocks/handlers.ts\<close>. A handler maps the
  state and the parts of the request it reads to the new state and the response; the random
  suffixes it draws and its clock reading are inputs. The artificial delays are not modelled:
  a handler runs to its response without interleaving. A body's market id is looked at as a
  string first, since \<open>known\<close> decides at run time.
\<close>

datatype mock_body =
    MarketsBody "market list"
  | BookBody orderbook_snapshot
  | TradesBody trades_response
  | FundingBody funding_response
  | AckBody order_ack
  | CancelBody string
  | OrdersBody "open_order list"
  | PositionsBody positions_response
  | FillsBody fills_response
  | BalanceBody balance_response
  | NonceBody string
  | VerifyBody siwe_verify_response
  | ErrorBody api_error

record mock_response =
  rs_status :: int
  rs_body :: mock_body

fun market_of_str :: "string \<Rightarrow> market_id option" where
  "market_of_str s = (if s = ''btc-usd'' then Some BtcUsd else if s = ''eth-usd'' then Some EthUsd
     else if s = ''sol-usd'' then Some SolUsd else None)"

definition known :: "string \<Rightarrow> bool" where
  "known marketId = (marketId = ''btc-usd'' \<or> marketId = ''eth-usd'' \<or> marketId = ''sol-usd'')"

definition ok_json :: "mock_body \<Rightarrow> mock_response" where
  "ok_json b = \<lparr>rs_status = 200, rs_body = b\<rparr>"

definition inactive :: "int \<Rightarrow> string \<Rightarrow> mock_response" where
  "inactive status msg = \<lparr>rs_status = status,
     rs_body = ErrorBody \<lparr>ae_code = ''MARKET_INACTIVE'', ae_message = msg\<rparr>\<rparr>"

definition last_ts :: "('a \<Rightarrow> string) \<Rightarrow> 'a list \<Rightarrow> string option" where
  "last_ts ts xs = (if xs = [] then None else Some (ts (last xs)))"

section \<open>Reading\<close>

definition getMarkets :: "mock_state \<Rightarrow> mock_response" where
  "getMarkets st = ok_json (MarketsBody (map ms_market (mvalues (st_markets st))))"

definition getOrderbook :: "mock_state \<Rightarrow> string \<Rightarrow> int \<Rightarrow> (js_error, mock_response) result" where
  "getOrderbook st mkt now = (case market_of_str mkt of None \<Rightarrow> Return (inactive 404 mkt)
     | Some mid \<Rightarrow> (case snapshotOf st mid now of Inl e \<Rightarrow> Throw e
         | Inr s \<Rightarrow> Return (ok_json (BookBody s))))"

definition getTrades :: "mock_state \<Rightarrow> string \<Rightarrow> string option \<Rightarrow> (js_error, mock_response) result" where
  "getTrades st mkt limitParam = (case market_of_str mkt of None \<Rightarrow> Return (inactive 404 mkt)
     | Some mid \<Rightarrow>
       (let limit = (case limitParam of None \<Rightarrow> Fin 50 | Some s \<Rightarrow> to_number s) in
        case recentPublicTrades st mid limit of Inl e \<Rightarrow> Throw e
        | Inr ts \<Rightarrow> Return (ok_json (TradesBody \<lparr>trs_trades = ts, trs_nextBefore = last_ts tr_tsNs ts\<rparr>))))"

definition getFunding :: "mock_state \<Rightarrow> string \<Rightarrow> (js_error, mock_response) result" where
  "getFunding st mkt = (case market_of_str mkt of None \<Rightarrow> Return (inactive 404 mkt)
     | Some mid \<Rightarrow> (case fundingFrame st mid of Inl e \<Rightarrow> Throw e
         | Inr f \<Rightarrow> Return (ok_json (FundingBody f))))"

definition getOpenOrders :: "mock_state \<Rightarrow> mock_response" where
  "getOpenOrders st = ok_json (OrdersBody (st_openOrders st))"

definition getPositions :: "mock_state \<Rightarrow> int \<Rightarrow> (js_error, mock_state \<times> mock_response) result" where
  "getPositions st now = (case refreshMarks st now of Inl e \<Rightarrow> Throw e
     | Inr st' \<Rightarrow> Return (st', ok_json (PositionsBody (positionsFrame st'))))"

definition getFills :: "mock_state \<Rightarrow> string option \<Rightarrow> string option \<Rightarrow> mock_response" where
  "getFills st marketParam limitParam =
     (let limit = (case limitParam of None \<Rightarrow> Fin 100 | Some s \<Rightarrow> to_number s);
          fills = (case marketParam of Some (c # cs) \<Rightarrow>
              filter (\<lambda>f. market_id_str (fl_marketId f) = c # cs) (st_fills st) | _ \<Rightarrow> st_fills st);
          fs = slice_to fills limit
      in ok_json (FillsBody \<lparr>fls_fills = fs, fls_nextBefore = last_ts fl_tsNs fs\<rparr>))"

definition getBalance :: "mock_state \<Rightarrow> mock_response" where
  "getBalance st = ok_json (BalanceBody (balanceFrame st))"

section \<open>Orders\<close>

definition pad_end :: "nat \<Rightarrow> char \<Rightarrow> string \<Rightarrow> string" where
  "pad_end n c s = s @ replicate (n - length s) c"

text \<open>The random suffixes of one order: order id, fill id and transaction hash.\<close>

record order_draws =
  od_order :: string
  od_fill :: string
  od_hash :: string

definition mock_order :: "order_draws \<Rightarrow> market_id \<Rightarrow> order_request \<Rightarrow> int \<Rightarrow> open_order" where
  "mock_order dr mid body now =
     \<lparr>oo_id = ''ord_'' @ od_order dr, oo_marketId = mid, oo_side = rq_side body,
      oo_type = rq_type body, oo_price = rq_price body, oo_qty = rq_qty body,
      oo_remaining = (if rq_type body = Market then ''0'' else rq_qty body),
      oo_tsNs = nsStr (nowNs now), oo_clientOrderId = Some (rq_clientOrderId body)\<rparr>"

definition mock_fill :: "order_draws \<Rightarrow> market_id \<Rightarrow> order_request \<Rightarrow> int \<Rightarrow> fill" where
  "mock_fill dr mid body now =
     \<lparr>fl_id = ''fill_'' @ od_fill dr, fl_orderId = ''ord_'' @ od_order dr, fl_marketId = mid,
      fl_side = rq_side body, fl_price = rq_price body, fl_qty = rq_qty body,
      fl_feeUsdc = to_fixed (to_number (rq_qty body) * to_number (rq_price body) * lit (5/10000)) 2,
      fl_role = Taker, fl_tsNs = nsStr (nowNs now),
      fl_txHash = ''0x'' @ pad_end 64 (CHR ''0'') (od_hash dr)\<rparr>"

text \<open>Replaces the first position of the market.\<close>

fun update_first :: "('a \<Rightarrow> bool) \<Rightarrow> ('a \<Rightarrow> 'a) \<Rightarrow> 'a list \<Rightarrow> 'a list" where
  "update_first P f [] = []"
| "update_first P f (x # xs) = (if P x then f x # xs else x # update_first P f xs)"

definition signed_size :: "position \<Rightarrow> number" where
  "signed_size p = to_number (ps_size p) * (if ps_side p = Long then Fin 1 else Fin (- 1))"

text \<open>The naive position update of a market order.\<close>

definition apply_market_order :: "market_state \<Rightarrow> market_id \<Rightarrow> order_request \<Rightarrow> int \<Rightarrow> position list \<Rightarrow> position list" where
  "apply_market_order m mid body now positions =
     (let dir = (if rq_side body = Buy then Fin 1 else Fin (- 1));
          qty = to_number (rq_qty body) * dir
      in case find (\<lambda>p. ps_marketId p = mid) positions of
           Some existing \<Rightarrow>
             (let oldSize = signed_size existing; newSize = oldSize + qty in
              if num_lt (num_abs newSize) (to_number (mk_lotSize (ms_market m)))
              then filter (\<lambda>p. ps_marketId p \<noteq> mid) positions
              else update_first (\<lambda>p. ps_marketId p = mid)
                (\<lambda>p. p\<lparr>ps_size := to_fixed (num_abs newSize) 4,
                        ps_side := (if num_lt (Fin 0) newSize then Long else Short),
                        ps_entryPriceX18 := rq_price body\<rparr>) positions)
         | None \<Rightarrow> positions @
             [\<lparr>ps_marketId = mid, ps_size = rq_qty body,
               ps_side = (if rq_side body = Buy then Long else Short),
               ps_entryPriceX18 = rq_price body, ps_markPriceX18 = rq_price body,
               ps_notionalUsdc = to_fixed (to_number (rq_price body) * to_number (rq_qty body)) 2,
               ps_unrealisedPnlUsdc = ''0.00'', ps_realisedPnlUsdc = ''0.00'', ps_leverage = ''2.0'',
               ps_liquidationPriceX18 = to_fixed (to_number (rq_price body) *
                  (if rq_side body = Buy then lit (92/100) else lit (108/100))) 2,
               ps_fundingPaidUsdc = ''0.00'', ps_lastUpdatedTsNs = nsStr (nowNs now)\<rparr>])"

definition postOrder :: "mock_state \<Rightarrow> string \<Rightarrow> order_request \<Rightarrow> order_draws \<Rightarrow> int
    \<Rightarrow> (js_error, mock_state \<times> mock_response) result" where
  "postOrder st mkt body dr now =
     (case market_of_str mkt of None \<Rightarrow> Return (st, inactive 400 mkt)
      | Some mid \<Rightarrow>
        (let ack = ok_json (AckBody \<lparr>ack_orderId = ''ord_'' @ od_order dr, ack_status = AckAccepted,
               ack_tsNs = nsStr (nowNs now)\<rparr>)
         in if rq_type body = Limit
            then Return (st\<lparr>st_openOrders := mock_order dr mid body now # st_openOrders st\<rparr>, ack)
            else
              (let st1 = pushFill (mock_fill dr mid body now) st in
               case get_market st1 mid of Inl e \<Rightarrow> Throw e
               | Inr m \<Rightarrow>
                 (case refreshMarks (st1\<lparr>st_positions := apply_market_order m mid body now (st_positions st1)\<rparr>) now of
                    Inl e \<Rightarrow> Throw e
                  | Inr st2 \<Rightarrow> Return (st2, ack)))))"

definition deleteOrder :: "mock_state \<Rightarrow> string \<Rightarrow> mock_state \<times> mock_response" where
  "deleteOrder st orderId =
     (st\<lparr>st_openOrders := filter (\<lambda>o'. oo_id o' \<noteq> orderId) (st_openOrders st)\<rparr>, ok_json (CancelBody orderId))"

section \<open>Sign-in\<close>

definition siweNonce :: "string \<Rightarrow> mock_response" where
  "siweNonce nonce = ok_json (NonceBody nonce)"

definition siweVerify :: "mock_state \<Rightarrow> string \<Rightarrow> int \<Rightarrow> mock_state \<times> mock_response" where
  "siweVerify st suffix now =
     (st\<lparr>st_jwt := Some (''jwt_'' @ suffix)\<rparr>,
      ok_json (VerifyBody \<lparr>sv_jwt = ''jwt_'' @ suffix,
        sv_expiresAt = nsStr (nowNs now + 3600000000000)\<rparr>))"

section \<open>Lemmas\<close>

lemma market_of_known: "known s \<longleftrightarrow> market_of_str s \<noteq> None"
  by (simp add: known_def)

lemma market_of_str_id [simp]: "market_of_str (market_id_str mid) = Some mid"
  by (cases mid) simp_all

declare market_of_str.simps [simp del]

lemma update_first_keys: "(\<And>x. P x \<Longrightarrow> key (f x) = key x) \<Longrightarrow> map key (update_first P f xs) = map key xs"
  by (induction xs) simp_all

lemma distinct_filter_key: "distinct (map key xs) \<Longrightarrow> distinct (map key (filter P xs))"
  by (rule distinct_map_filter)

lemma apply_market_order_distinct:
  assumes "distinct (map ps_marketId ps)"
  shows "distinct (map ps_marketId (apply_market_order m mid body now ps))"
proof (cases "find (\<lambda>p. ps_marketId p = mid) ps")
  case None
  then have "mid \<notin> set (map ps_marketId ps)" by (auto simp: find_None_iff)
  then show ?thesis using assms None by (simp add: apply_market_order_def Let_def)
next
  case (Some p)
  then show ?thesis using assms
    by (auto simp: apply_market_order_def Let_def update_first_keys intro: distinct_filter_key)
qed

lemma postOrder_ok:
  assumes "mock_ok st"
  shows "\<exists>st' r. postOrder st mkt body dr now = Return (st', r) \<and> mock_ok st'"
proof (cases "market_of_str mkt")
  case None
  then show ?thesis using assms by (simp add: postOrder_def)
next
  case (Some mid)
  show ?thesis
  proof (cases "rq_type body")
    case Limit
    have "oo_type (mock_order dr mid body now) = Limit \<and>
        oo_remaining (mock_order dr mid body now) = oo_qty (mock_order dr mid body now)"
      using Limit by (simp add: mock_order_def)
    then show ?thesis using assms Some Limit by (simp add: postOrder_def Let_def mock_ok_def)
  next
    case Market
    let ?s = "pushFill (mock_fill dr mid body now) st"
    have ok1: "mock_ok ?s" using assms by (rule pushFill_ok)
    then obtain m where m: "get_market ?s mid = Return m" using mock_ok_get by blast
    have "mock_ok (?s\<lparr>st_positions := apply_market_order m mid body now (st_positions ?s)\<rparr>)"
      using ok1 apply_market_order_distinct by (auto simp: mock_ok_def)
    then obtain st2 where "refreshMarks (?s\<lparr>st_positions := apply_market_order m mid body now (st_positions ?s)\<rparr>) now
        = Return st2" "mock_ok st2" using refreshMarks_ok by blast
    then show ?thesis using Some Market m by (simp add: postOrder_def Let_def)
  qed
qed

lemma deleteOrder_ok: "mock_ok st \<Longrightarrow> mock_ok (fst (deleteOrder st oid))"
  by (simp add: mock_ok_def deleteOrder_def)

lemma siweVerify_ok: "mock_ok st \<Longrightarrow> mock_ok (fst (siweVerify st sfx now))"
  by (simp add: mock_ok_def siweVerify_def)

end
