(* ===== verification/WsClient.thy ===== *)
theory WsClient
  imports Contract
begin

text \<open>
  The browser's socket client, class \<open>PerplexWs\<close> of \<^verbatim>\<open>web/lib/ws/client.ts\<close>.

  Sockets are objects with identity: the handlers installed by \<open>connect\<close> close over the
  socket they were installed on, while the methods use the mutable field \<open>this.ws\<close>. The
  model keeps the sockets ever created in a store (a list indexed by socket number), each
  with its ready state and the frames handed to the network, and \<open>ws\<close> names the current
  one. \<open>close()\<close> on a socket starts the closing handshake (\<open>Closing\<close>); its close event
  arrives later. The WebSocket constructor may throw; whether it does, the timer's random
  jitter and the events of the network are inputs of the steps.
\<close>

datatype ready_state = Connecting | Open | Closing | Closed

record socket =
  sk_state :: ready_state
  sk_sent :: "ws_outbound list"

text \<open>The parts of the browser the client touches: localStorage and dispatched events.\<close>

record browser =
  bw_storage :: "(string, string) jmap"
  bw_events :: "string list"

record ws_client =
  wc_ws :: "nat option"
  wc_subs :: "string jset"
  wc_listeners :: "nat jset"
  wc_reconnectAttempt :: nat
  wc_reconnectTimer :: "number option"
  wc_closed :: bool
  wc_outboundQueue :: "ws_outbound list"
  wc_token :: "string option"
  wc_maxReconnectDelayMs :: "number option"
  wc_sockets :: "socket list"
  wc_browser :: browser
  wc_delivered :: "(nat \<times> ws_message) list"

definition jwt_key :: string where "jwt_key = ''perplex.jwt''"

definition jwt_exp_key :: string where "jwt_exp_key = ''perplex.jwt.expiresAt''"

definition jwt_event :: string where "jwt_event = ''perplex.jwt.change''"

definition new_client :: "string option \<Rightarrow> browser \<Rightarrow> ws_client" where
  "new_client token b = \<lparr>wc_ws = None, wc_subs = [], wc_listeners = [],
     wc_reconnectAttempt = 0, wc_reconnectTimer = None, wc_closed = False,
     wc_outboundQueue = [], wc_token = token, wc_maxReconnectDelayMs = None,
     wc_sockets = [], wc_browser = b, wc_delivered = []\<rparr>"

section \<open>Sockets\<close>

definition sock_state :: "ws_client \<Rightarrow> nat \<Rightarrow> ready_state" where
  "sock_state c i = (if i < length (wc_sockets c) then sk_state (wc_sockets c ! i) else Closed)"

definition set_sock_state :: "nat \<Rightarrow> ready_state \<Rightarrow> ws_client \<Rightarrow> ws_client" where
  "set_sock_state i st c =
     (if i < length (wc_sockets c)
      then c\<lparr>wc_sockets := (wc_sockets c)[i := (wc_sockets c ! i)\<lparr>sk_state := st\<rparr>]\<rparr> else c)"

text \<open>\<open>socket.send\<close>: frames leave on an open socket and are dropped on a closing one.\<close>

definition sock_send :: "nat \<Rightarrow> ws_outbound list \<Rightarrow> ws_client \<Rightarrow> ws_client" where
  "sock_send i ms c =
     (if sock_state c i = Open
      then c\<lparr>wc_sockets := (wc_sockets c)[i := (wc_sockets c ! i)
               \<lparr>sk_sent := sk_sent (wc_sockets c ! i) @ ms\<rparr>]\<rparr> else c)"

definition sock_close :: "nat \<Rightarrow> ws_client \<Rightarrow> ws_client" where
  "sock_close i c = (if sock_state c i = Connecting \<or> sock_state c i = Open
     then set_sock_state i Closing c else c)"

definition sent_on :: "ws_client \<Rightarrow> nat \<Rightarrow> ws_outbound list" where
  "sent_on c i = (if i < length (wc_sockets c) then sk_sent (wc_sockets c ! i) else [])"

section \<open>The methods\<close>

definition clearStoredJwtOnUnauthorized :: "browser \<Rightarrow> browser" where
  "clearStoredJwtOnUnauthorized b =
     b\<lparr>bw_storage := mdelete (mdelete (bw_storage b) jwt_key) jwt_exp_key,
       bw_events := bw_events b @ [jwt_event]\<rparr>"

definition reconnect_delay :: "number option \<Rightarrow> nat \<Rightarrow> number \<Rightarrow> number" where
  "reconnect_delay maxDelay attempt jitter =
     num_min (case maxDelay of None \<Rightarrow> Fin 10000 | Some m \<Rightarrow> m) (Fin 250 * flo (2 ^ attempt))
       + jitter * Fin 250"

definition scheduleReconnect :: "number \<Rightarrow> ws_client \<Rightarrow> ws_client" where
  "scheduleReconnect jitter c =
     (if wc_closed c then c
      else if wc_reconnectTimer c \<noteq> None then c
      else c\<lparr>wc_reconnectAttempt := wc_reconnectAttempt c + 1,
             wc_reconnectTimer := Some (reconnect_delay (wc_maxReconnectDelayMs c)
               (wc_reconnectAttempt c) jitter)\<rparr>)"

text \<open>\<open>connect\<close>: \<open>ctor_ok\<close> says whether \<open>new WebSocket(url)\<close> returns.\<close>

definition connect :: "bool \<Rightarrow> number \<Rightarrow> ws_client \<Rightarrow> ws_client" where
  "connect ctor_ok jitter c =
     (if (case wc_ws c of None \<Rightarrow> False
          | Some i \<Rightarrow> sock_state c i = Open \<or> sock_state c i = Connecting) then c
      else if \<not> ctor_ok then scheduleReconnect jitter c
      else c\<lparr>wc_ws := Some (length (wc_sockets c)),
             wc_sockets := wc_sockets c @ [\<lparr>sk_state = Connecting, sk_sent = []\<rparr>]\<rparr>)"

definition send :: "ws_outbound \<Rightarrow> ws_client \<Rightarrow> ws_client" where
  "send m c = (case wc_ws c of
       Some i \<Rightarrow> if sock_state c i = Open then sock_send i [m] c
                else c\<lparr>wc_outboundQueue := wc_outboundQueue c @ [m]\<rparr>
     | None \<Rightarrow> c\<lparr>wc_outboundQueue := wc_outboundQueue c @ [m]\<rparr>)"

definition subscribe :: "string \<Rightarrow> ws_client \<Rightarrow> ws_client" where
  "subscribe ch c = (if ch \<in> set (wc_subs c) then c
     else send (Subscribe ch) (c\<lparr>wc_subs := sadd (wc_subs c) ch\<rparr>))"

definition unsubscribe :: "string \<Rightarrow> ws_client \<Rightarrow> ws_client" where
  "unsubscribe ch c = (if ch \<notin> set (wc_subs c) then c
     else send (Unsubscribe ch) (c\<lparr>wc_subs := sremove (wc_subs c) ch\<rparr>))"

definition on :: "nat \<Rightarrow> ws_client \<Rightarrow> ws_client" where
  "on fn c = c\<lparr>wc_listeners := sadd (wc_listeners c) fn\<rparr>"

definition off :: "nat \<Rightarrow> ws_client \<Rightarrow> ws_client" where
  "off fn c = c\<lparr>wc_listeners := sremove (wc_listeners c) fn\<rparr>"

definition setToken :: "bool \<Rightarrow> number \<Rightarrow> string option \<Rightarrow> ws_client \<Rightarrow> ws_client" where
  "setToken ctor_ok jitter token c =
     (let c' = c\<lparr>wc_token := token, wc_closed := False\<rparr> in
      case wc_ws c of Some i \<Rightarrow> sock_close i c' | None \<Rightarrow> connect ctor_ok jitter c')"

definition close :: "ws_client \<Rightarrow> ws_client" where
  "close c =
     (let c' = c\<lparr>wc_closed := True, wc_reconnectTimer := None\<rparr> in
      case wc_ws c of Some i \<Rightarrow> (sock_close i c')\<lparr>wc_ws := None\<rparr> | None \<Rightarrow> c')"

text \<open>The timer callback of \<open>scheduleReconnect\<close>.\<close>

definition onTimer :: "bool \<Rightarrow> number \<Rightarrow> ws_client \<Rightarrow> ws_client" where
  "onTimer ctor_ok jitter c = connect ctor_ok jitter (c\<lparr>wc_reconnectTimer := None\<rparr>)"

section \<open>The handlers of a socket\<close>

definition truthy_str :: "string option \<Rightarrow> bool" where
  "truthy_str t = (case t of None \<Rightarrow> False | Some s \<Rightarrow> s \<noteq> [])"

definition open_frames :: "ws_client \<Rightarrow> ws_outbound list" where
  "open_frames c = (if truthy_str (wc_token c) then [Auth (the (wc_token c))] else [])
     @ map Subscribe (wc_subs c) @ wc_outboundQueue c"

text \<open>The browser marks socket \<open>i\<close> open and runs \<open>socket.onopen\<close> in one task.\<close>

definition onopen :: "nat \<Rightarrow> ws_client \<Rightarrow> ws_client" where
  "onopen i c = (let c' = set_sock_state i Open c in
     (sock_send i (open_frames c) c')\<lparr>wc_reconnectAttempt := 0, wc_outboundQueue := []\<rparr>)"

text \<open>\<open>socket.onmessage\<close>: \<open>None\<close> is a frame that is not JSON.\<close>

definition onmessage :: "nat \<Rightarrow> ws_message option \<Rightarrow> ws_client \<Rightarrow> ws_client" where
  "onmessage i parsed c = (case parsed of
       None \<Rightarrow> c
     | Some (Ping ts) \<Rightarrow> sock_send i [Pong] c
     | Some m \<Rightarrow> c\<lparr>wc_delivered := wc_delivered c @ map (\<lambda>fn. (fn, m)) (wc_listeners c)\<rparr>)"

definition onclose :: "nat \<Rightarrow> int \<Rightarrow> number \<Rightarrow> ws_client \<Rightarrow> ws_client" where
  "onclose i code jitter c = (let c' = (set_sock_state i Closed c)\<lparr>wc_ws := None\<rparr> in
     if code = 3000
     then c'\<lparr>wc_browser := clearStoredJwtOnUnauthorized (wc_browser c'), wc_closed := True\<rparr>
     else if \<not> wc_closed c' then scheduleReconnect jitter c' else c')"

definition onerror :: "nat \<Rightarrow> ws_client \<Rightarrow> ws_client" where
  "onerror i c = sock_close i c"

section \<open>The singleton\<close>

definition getWsClient ::
    "bool \<Rightarrow> bool \<Rightarrow> number \<Rightarrow> browser \<Rightarrow> ws_client option \<Rightarrow> (js_error, ws_client) result" where
  "getWsClient has_window ctor_ok jitter b singleton =
     (if \<not> has_window then Throw (ErrorMsg ''PerplexWs is browser-only'')
      else case singleton of
        Some c \<Rightarrow> Return c
      | None \<Rightarrow> Return (connect ctor_ok jitter (new_client (mget (bw_storage b) jwt_key) b)))"

definition syncWsToken ::
    "bool \<Rightarrow> number \<Rightarrow> string option \<Rightarrow> ws_client option \<Rightarrow> ws_client option" where
  "syncWsToken ctor_ok jitter token singleton =
     (case singleton of None \<Rightarrow> None | Some c \<Rightarrow> Some (setToken ctor_ok jitter token c))"

section \<open>Runs\<close>

text \<open>
  A step is a call by the application or an event of the network or the timer. Frames
  handed to the public \<open>send\<close> are restricted to those that are not subscription changes:
  the application changes subscriptions through \<open>subscribe\<close> and \<open>unsubscribe\<close> only.
\<close>

inductive ws_step :: "ws_client \<Rightarrow> ws_client \<Rightarrow> bool" where
  st_connect: "ws_step c (connect ok jit c)"
| st_subscribe: "ws_step c (subscribe ch c)"
| st_unsubscribe: "ws_step c (unsubscribe ch c)"
| st_send: "m = Pong \<or> m = Auth t \<Longrightarrow> ws_step c (send m c)"
| st_on: "ws_step c (on fn c)"
| st_off: "ws_step c (off fn c)"
| st_setToken: "ws_step c (setToken ok jit tok c)"
| st_close: "ws_step c (close c)"
| st_timer: "wc_reconnectTimer c \<noteq> None \<Longrightarrow> ws_step c (onTimer ok jit c)"
| st_open: "sock_state c i = Connecting \<Longrightarrow> ws_step c (onopen i c)"
| st_message: "sock_state c i = Open \<Longrightarrow> ws_step c (onmessage i m c)"
| st_closed: "sock_state c i \<noteq> Closed \<Longrightarrow> ws_step c (onclose i code jit c)"
| st_error: "sock_state c i \<noteq> Closed \<Longrightarrow> ws_step c (onerror i c)"

inductive ws_reachable :: "ws_client \<Rightarrow> bool" where
  rc_init: "ws_reachable (new_client token b)"
| rc_step: "ws_reachable c \<Longrightarrow> ws_step c d \<Longrightarrow> ws_reachable d"

section \<open>What the peer has been told\<close>

text \<open>
  The subscriptions a peer holds after the frames of one connection, in order. A frame
  with an empty channel name changes nothing.
\<close>

fun net_subs :: "string set \<Rightarrow> ws_outbound list \<Rightarrow> string set" where
  "net_subs S [] = S"
| "net_subs S (Subscribe ch # ms) = net_subs (if ch = [] then S else insert ch S) ms"
| "net_subs S (Unsubscribe ch # ms) = net_subs (S - {ch}) ms"
| "net_subs S (_ # ms) = net_subs S ms"

text \<open>The last subscription change of a channel in a list of frames.\<close>

fun last_sub_op :: "ws_outbound list \<Rightarrow> string \<Rightarrow> bool option" where
  "last_sub_op [] ch = None"
| "last_sub_op (m # ms) ch = (case last_sub_op ms ch of Some b \<Rightarrow> Some b | None \<Rightarrow>
     (case m of Subscribe d \<Rightarrow> if d = ch then Some True else None
      | Unsubscribe d \<Rightarrow> if d = ch then Some False else None | _ \<Rightarrow> None))"

lemma net_subs_append: "net_subs S (xs @ ys) = net_subs (net_subs S xs) ys"
  by (induction S xs rule: net_subs.induct) simp_all

lemma net_subs_map_Subscribe: "net_subs S (map Subscribe chs) = S \<union> (set chs - {[]})"
  by (induction chs arbitrary: S) auto

lemma net_subs_last:
  "ch \<noteq> [] \<Longrightarrow> ch \<in> net_subs S ms \<longleftrightarrow> (case last_sub_op ms ch of None \<Rightarrow> ch \<in> S | Some b \<Rightarrow> b)"
  by (induction S ms rule: net_subs.induct) (auto split: option.splits)

lemma net_subs_no_empty: "[] \<notin> S \<Longrightarrow> [] \<notin> net_subs S ms"
  by (induction S ms rule: net_subs.induct) auto

lemma last_sub_op_snoc:
  "last_sub_op (ms @ [m]) ch = (case m of Subscribe d \<Rightarrow> if d = ch then Some True else last_sub_op ms ch
     | Unsubscribe d \<Rightarrow> if d = ch then Some False else last_sub_op ms ch | _ \<Rightarrow> last_sub_op ms ch)"
  by (induction ms) (auto split: ws_outbound.splits option.splits)

text \<open>
  Any peer that keeps a set of channels and follows the two frames agrees with
  \<open>net_subs\<close>; the mock server is one (theory \<open>MockWs\<close>).
\<close>

locale subscription_peer =
  fixes handle :: "'s \<Rightarrow> ws_outbound \<Rightarrow> 's"
    and subs_of :: "'s \<Rightarrow> string set"
  assumes handle_Subscribe: "subs_of (handle s (Subscribe ch)) =
      (if ch = [] then subs_of s else insert ch (subs_of s))"
    and handle_Unsubscribe: "subs_of (handle s (Unsubscribe ch)) = subs_of s - {ch}"
    and handle_Auth: "subs_of (handle s (Auth t)) = subs_of s"
    and handle_Pong: "subs_of (handle s Pong) = subs_of s"
begin

lemma subs_of_run: "subs_of (foldl handle s ms) = net_subs (subs_of s) ms"
proof (induction ms arbitrary: s)
  case (Cons m ms)
  then show ?case
    by (cases m) (simp_all add: handle_Subscribe handle_Unsubscribe handle_Auth handle_Pong)
qed simp

end

section \<open>The invariant\<close>

definition queue_agrees :: "ws_client \<Rightarrow> bool" where
  "queue_agrees c = (\<forall>ch b. last_sub_op (wc_outboundQueue c) ch = Some b
     \<longrightarrow> b = (ch \<in> set (wc_subs c)))"

definition ws_inv :: "ws_client \<Rightarrow> bool" where
  "ws_inv c =
     ((\<forall>i. wc_ws c = Some i \<longrightarrow> i < length (wc_sockets c)) \<and>
      distinct (wc_subs c) \<and> distinct (wc_listeners c) \<and>
      (\<forall>i. sock_state c i = Connecting \<longrightarrow> sent_on c i = []) \<and>
      queue_agrees c \<and>
      (\<forall>i. wc_ws c = Some i \<and> sock_state c i = Open \<longrightarrow>
         wc_outboundQueue c = [] \<and> net_subs {} (sent_on c i) = set (wc_subs c) - {[]}))"

lemma ws_inv_init: "ws_inv (new_client token b)"
  by (simp add: ws_inv_def new_client_def queue_agrees_def sock_state_def)

subsection \<open>Frame lemmas of the socket store\<close>

lemma sock_fields [simp]:
  "wc_ws (set_sock_state i st c) = wc_ws c"
  "wc_subs (set_sock_state i st c) = wc_subs c"
  "wc_listeners (set_sock_state i st c) = wc_listeners c"
  "wc_outboundQueue (set_sock_state i st c) = wc_outboundQueue c"
  "wc_closed (set_sock_state i st c) = wc_closed c"
  "wc_token (set_sock_state i st c) = wc_token c"
  "wc_reconnectTimer (set_sock_state i st c) = wc_reconnectTimer c"
  "wc_browser (set_sock_state i st c) = wc_browser c"
  "wc_delivered (set_sock_state i st c) = wc_delivered c"
  "length (wc_sockets (set_sock_state i st c)) = length (wc_sockets c)"
  "wc_ws (sock_send i ms c) = wc_ws c"
  "wc_subs (sock_send i ms c) = wc_subs c"
  "wc_listeners (sock_send i ms c) = wc_listeners c"
  "wc_outboundQueue (sock_send i ms c) = wc_outboundQueue c"
  "wc_closed (sock_send i ms c) = wc_closed c"
  "wc_token (sock_send i ms c) = wc_token c"
  "wc_reconnectTimer (sock_send i ms c) = wc_reconnectTimer c"
  "wc_browser (sock_send i ms c) = wc_browser c"
  "wc_delivered (sock_send i ms c) = wc_delivered c"
  "length (wc_sockets (sock_send i ms c)) = length (wc_sockets c)"
  by (simp_all add: set_sock_state_def sock_send_def)

lemma sock_store [sock_simps]:
  "sock_state (set_sock_state i st c) j =
     (if j = i \<and> i < length (wc_sockets c) then st else sock_state c j)"
  "sent_on (set_sock_state i st c) j = sent_on c j"
  "sock_state (sock_send i ms c) j = sock_state c j"
  "sent_on (sock_send i ms c) j =
     (if j = i \<and> sock_state c i = Open then sent_on c j @ ms else sent_on c j)"
  by (auto simp: set_sock_state_def sock_send_def sock_state_def sent_on_def nth_list_update)

text \<open>Only the socket store decides the ready states and what was sent.\<close>

lemma store_only:
  "wc_sockets d = wc_sockets c \<Longrightarrow> sock_state d i = sock_state c i"
  "wc_sockets d = wc_sockets c \<Longrightarrow> sent_on d i = sent_on c i"
  by (simp_all add: sock_state_def sent_on_def)

lemma store_update [simp]:
  "sock_state (c\<lparr>wc_ws := a\<rparr>) i = sock_state c i"
  "sock_state (c\<lparr>wc_subs := s\<rparr>) i = sock_state c i"
  "sock_state (c\<lparr>wc_outboundQueue := q\<rparr>) i = sock_state c i"
  "sock_state (c\<lparr>wc_reconnectAttempt := n\<rparr>) i = sock_state c i"
  "sock_state (c\<lparr>wc_reconnectTimer := t\<rparr>) i = sock_state c i"
  "sock_state (c\<lparr>wc_closed := b\<rparr>) i = sock_state c i"
  "sock_state (c\<lparr>wc_token := tok\<rparr>) i = sock_state c i"
  "sock_state (c\<lparr>wc_browser := br\<rparr>) i = sock_state c i"
  "sock_state (c\<lparr>wc_listeners := ls\<rparr>) i = sock_state c i"
  "sock_state (c\<lparr>wc_delivered := dl\<rparr>) i = sock_state c i"
  "sent_on (c\<lparr>wc_ws := a\<rparr>) i = sent_on c i"
  "sent_on (c\<lparr>wc_subs := s\<rparr>) i = sent_on c i"
  "sent_on (c\<lparr>wc_outboundQueue := q\<rparr>) i = sent_on c i"
  "sent_on (c\<lparr>wc_reconnectAttempt := n\<rparr>) i = sent_on c i"
  "sent_on (c\<lparr>wc_reconnectTimer := t\<rparr>) i = sent_on c i"
  "sent_on (c\<lparr>wc_closed := b\<rparr>) i = sent_on c i"
  "sent_on (c\<lparr>wc_token := tok\<rparr>) i = sent_on c i"
  "sent_on (c\<lparr>wc_browser := br\<rparr>) i = sent_on c i"
  "sent_on (c\<lparr>wc_listeners := ls\<rparr>) i = sent_on c i"
  "sent_on (c\<lparr>wc_delivered := dl\<rparr>) i = sent_on c i"
  by (simp_all add: sock_state_def sent_on_def)

lemma sock_state_Open_len: "sock_state c i \<noteq> Closed \<Longrightarrow> i < length (wc_sockets c)"
  by (auto simp: sock_state_def split: if_splits)

subsection \<open>Every step keeps the invariant\<close>

text \<open>
  A step that leaves \<open>ws\<close>, the subscriptions, the listeners, the queue and the sent
  frames alone and opens no socket keeps the invariant.
\<close>

lemma ws_inv_frame:
  assumes inv: "ws_inv c"
    and ws: "wc_ws d = wc_ws c \<or> wc_ws d = None"
    and len: "length (wc_sockets d) = length (wc_sockets c)"
    and subs: "wc_subs d = wc_subs c" "distinct (wc_listeners d)"
    and q: "wc_outboundQueue d = wc_outboundQueue c"
    and sock: "\<And>i. sock_state d i = Open \<Longrightarrow> sock_state c i = Open"
      "\<And>i. sock_state d i = Connecting \<Longrightarrow> sock_state c i = Connecting"
    and sent: "\<And>i. net_subs {} (sent_on d i) = net_subs {} (sent_on c i)"
      "\<And>i. sock_state c i = Connecting \<Longrightarrow> sent_on d i = sent_on c i"
  shows "ws_inv d"
proof -
  have eq: "wc_ws c = Some i" if "wc_ws d = Some i" for i using ws that by auto
  show ?thesis
    using inv len subs q sock sent unfolding ws_inv_def queue_agrees_def
    by (auto dest!: eq)
qed

lemma ws_inv_scheduleReconnect: "ws_inv c \<Longrightarrow> ws_inv (scheduleReconnect jit c)"
  by (rule ws_inv_frame, assumption) (auto simp: scheduleReconnect_def ws_inv_def split: if_splits)

lemma sock_state_connect_new:
  "sock_state (c\<lparr>wc_ws := a, wc_sockets := wc_sockets c @ [\<lparr>sk_state = Connecting, sk_sent = []\<rparr>]\<rparr>) i =
     (if i = length (wc_sockets c) then Connecting else sock_state c i)"
  "sent_on (c\<lparr>wc_ws := a, wc_sockets := wc_sockets c @ [\<lparr>sk_state = Connecting, sk_sent = []\<rparr>]\<rparr>) i =
     (if i = length (wc_sockets c) then [] else sent_on c i)"
  by (auto simp: sock_state_def sent_on_def nth_append)

lemma ws_inv_connect: "ws_inv c \<Longrightarrow> ws_inv (connect ok jit c)"
proof -
  assume inv: "ws_inv c"
  let ?d = "c\<lparr>wc_ws := Some (length (wc_sockets c)),
    wc_sockets := wc_sockets c @ [\<lparr>sk_state = Connecting, sk_sent = []\<rparr>]\<rparr>"
  have "ws_inv ?d"
    using inv by (auto simp: ws_inv_def queue_agrees_def sock_state_connect_new)
  then show ?thesis
    using inv by (auto simp: connect_def ws_inv_scheduleReconnect split: option.split)
qed

lemma ws_inv_sock_close: "ws_inv c \<Longrightarrow> ws_inv (sock_close i c)"
  by (rule ws_inv_frame, assumption)
    (auto simp: sock_close_def sock_simps ws_inv_def split: if_splits)

lemma ws_inv_send_plain: "ws_inv c \<Longrightarrow> m = Pong \<or> m = Auth t \<Longrightarrow> ws_inv (send m c)"
  unfolding ws_inv_def queue_agrees_def send_def
  by (auto simp: sock_simps net_subs_append last_sub_op_snoc split: option.splits if_splits)

lemma ws_inv_subscribe: "ws_inv c \<Longrightarrow> ws_inv (subscribe ch c)"
  unfolding ws_inv_def queue_agrees_def subscribe_def send_def
  by (auto simp: sock_simps net_subs_append last_sub_op_snoc split: option.splits if_splits)

lemma ws_inv_unsubscribe: "ws_inv c \<Longrightarrow> ws_inv (unsubscribe ch c)"
  unfolding ws_inv_def queue_agrees_def unsubscribe_def send_def
  by (auto simp: sock_simps net_subs_append last_sub_op_snoc split: option.splits if_splits)

lemma ws_inv_setToken: "ws_inv c \<Longrightarrow> ws_inv (setToken ok jit tok c)"
proof -
  assume inv: "ws_inv c"
  then have "ws_inv (c\<lparr>wc_token := tok, wc_closed := False\<rparr>)"
    by (rule ws_inv_frame) (use inv in \<open>auto simp: ws_inv_def\<close>)
  then show ?thesis
    by (simp add: setToken_def Let_def ws_inv_sock_close ws_inv_connect split: option.split)
qed

lemma ws_inv_drop_ws: "ws_inv c \<Longrightarrow> ws_inv (c\<lparr>wc_ws := None\<rparr>)"
  by (simp add: ws_inv_def queue_agrees_def)

lemma ws_inv_close: "ws_inv c \<Longrightarrow> ws_inv (close c)"
proof -
  assume inv: "ws_inv c"
  then have "ws_inv (c\<lparr>wc_closed := True, wc_reconnectTimer := None\<rparr>)"
    by (rule ws_inv_frame) (use inv in \<open>auto simp: ws_inv_def\<close>)
  then show ?thesis
    by (simp add: close_def Let_def ws_inv_sock_close ws_inv_drop_ws split: option.split)
qed

lemma ws_inv_onTimer: "ws_inv c \<Longrightarrow> ws_inv (onTimer ok jit c)"
proof -
  assume inv: "ws_inv c"
  then have "ws_inv (c\<lparr>wc_reconnectTimer := None\<rparr>)"
    by (rule ws_inv_frame) (use inv in \<open>auto simp: ws_inv_def\<close>)
  then show ?thesis unfolding onTimer_def by (rule ws_inv_connect)
qed

text \<open>The frames of an opening socket leave the peer with exactly the subscriptions.\<close>

lemma net_subs_open_frames:
  assumes "queue_agrees c"
  shows "net_subs {} (open_frames c) = set (wc_subs c) - {[]}"
proof -
  have "net_subs {} (open_frames c) = net_subs (set (wc_subs c) - {[]}) (wc_outboundQueue c)"
    by (simp add: open_frames_def net_subs_append net_subs_map_Subscribe)
  also have "\<dots> = set (wc_subs c) - {[]}"
  proof (intro set_eqI)
    fix ch
    show "ch \<in> net_subs (set (wc_subs c) - {[]}) (wc_outboundQueue c)
      \<longleftrightarrow> ch \<in> set (wc_subs c) - {[]}"
      using assms net_subs_no_empty [of "set (wc_subs c) - {[]}"]
      by (cases "ch = []") (auto simp: net_subs_last queue_agrees_def split: option.split)
  qed
  finally show ?thesis .
qed

lemma ws_inv_onopen:
  assumes inv: "ws_inv c" and st: "sock_state c i = Connecting"
  shows "ws_inv (onopen i c)"
proof -
  have len: "i < length (wc_sockets c)" using st by (intro sock_state_Open_len) simp
  have sent: "sent_on c i = []" and q: "queue_agrees c" using inv st by (auto simp: ws_inv_def)
  show ?thesis
    using inv st len sent net_subs_open_frames [OF q]
    unfolding ws_inv_def onopen_def Let_def
    by (auto simp: sock_simps queue_agrees_def split: if_splits)
qed

lemma ws_inv_onmessage: "ws_inv c \<Longrightarrow> ws_inv (onmessage i m c)"
proof -
  assume inv: "ws_inv c"
  have "ws_inv (sock_send i [Pong] c)"
    by (rule ws_inv_frame [OF inv]) (use inv in \<open>auto simp: sock_simps net_subs_append ws_inv_def\<close>)
  moreover have "ws_inv (c\<lparr>wc_delivered := dl\<rparr>)" for dl
    by (rule ws_inv_frame [OF inv]) (use inv in \<open>auto simp: ws_inv_def\<close>)
  ultimately show ?thesis
    using inv by (auto simp: onmessage_def split: option.split ws_message.split)
qed

lemma ws_inv_onclose: "ws_inv c \<Longrightarrow> ws_inv (onclose i code jit c)"
proof -
  assume inv: "ws_inv c"
  let ?d = "(set_sock_state i Closed c)\<lparr>wc_ws := None\<rparr>"
  have d: "ws_inv ?d"
    by (rule ws_inv_frame [OF inv]) (use inv in \<open>auto simp: sock_simps ws_inv_def split: if_splits\<close>)
  have "ws_inv (?d\<lparr>wc_browser := b, wc_closed := True\<rparr>)" for b
    by (rule ws_inv_frame [OF d]) (use inv in \<open>auto simp: ws_inv_def\<close>)
  then show ?thesis using d by (simp add: onclose_def Let_def ws_inv_scheduleReconnect)
qed

lemma ws_inv_step: "ws_step c d \<Longrightarrow> ws_inv c \<Longrightarrow> ws_inv d"
proof (induction rule: ws_step.induct)
  case (st_on c fn)
  then show ?case by (auto simp: on_def ws_inv_def queue_agrees_def)
next
  case (st_off c fn)
  then show ?case by (auto simp: off_def ws_inv_def queue_agrees_def)
qed (auto simp: onerror_def intro: ws_inv_connect ws_inv_subscribe ws_inv_unsubscribe
    ws_inv_send_plain ws_inv_setToken ws_inv_close ws_inv_onTimer ws_inv_onopen
    ws_inv_onmessage ws_inv_onclose ws_inv_sock_close)

lemma ws_reachable_inv: "ws_reachable c \<Longrightarrow> ws_inv c"
  by (induction rule: ws_reachable.induct) (auto intro: ws_inv_init ws_inv_step)

section \<open>A connected client is never stranded\<close>

definition ws_live :: "ws_client \<Rightarrow> bool" where
  "ws_live c = ((\<forall>i. wc_ws c = Some i \<longrightarrow> sock_state c i \<noteq> Closed) \<and>
     (wc_closed c \<or> wc_reconnectTimer c \<noteq> None \<or> wc_ws c \<noteq> None))"

lemma sock_close_fields [simp]:
  "wc_ws (sock_close i c) = wc_ws c"
  "wc_closed (sock_close i c) = wc_closed c"
  "wc_reconnectTimer (sock_close i c) = wc_reconnectTimer c"
  by (simp_all add: sock_close_def)

lemma sock_close_Closed: "sock_state (sock_close i c) j = Closed \<longleftrightarrow> sock_state c j = Closed"
  by (auto simp: sock_close_def sock_simps)

lemma live_after_connect:
  assumes "\<forall>i. wc_ws c = Some i \<longrightarrow> sock_state c i \<noteq> Closed"
  shows "ws_live (connect ok jit c)"
  using assms
  by (auto simp: ws_live_def connect_def scheduleReconnect_def sock_state_connect_new
      split: option.splits)

lemma live_send: "ws_live c \<Longrightarrow> ws_live (send m c)"
  by (auto simp: ws_live_def send_def sock_simps split: option.splits)

lemma live_update:
  "ws_live c \<Longrightarrow> ws_live (c\<lparr>wc_subs := s\<rparr>)"
  "ws_live c \<Longrightarrow> ws_live (c\<lparr>wc_listeners := l\<rparr>)"
  "ws_live c \<Longrightarrow> ws_live (c\<lparr>wc_delivered := dl\<rparr>)"
  by (simp_all add: ws_live_def)

lemma live_subscribe: "ws_live c \<Longrightarrow> ws_live (subscribe ch c)"
  by (simp add: subscribe_def live_send live_update)

lemma live_unsubscribe: "ws_live c \<Longrightarrow> ws_live (unsubscribe ch c)"
  by (simp add: unsubscribe_def live_send live_update)

lemma live_reconnect: "ws_live c \<Longrightarrow> ws_live (connect ok jit c)"
  by (rule live_after_connect) (simp add: ws_live_def)

lemma live_onclose: "ws_live (onclose i code jit c)"
  by (auto simp: ws_live_def onclose_def scheduleReconnect_def Let_def)

lemma live_sock_close: "ws_live c \<Longrightarrow> ws_live (sock_close i c)"
  by (simp add: ws_live_def sock_close_Closed)

lemma live_close: "ws_live (close c)" if "ws_live c"
  using that by (auto simp: ws_live_def close_def Let_def sock_close_Closed split: option.split)

lemma live_onTimer: "ws_live c \<Longrightarrow> ws_live (onTimer ok jit c)"
  unfolding onTimer_def by (rule live_after_connect) (simp add: ws_live_def)

lemma live_setToken: "ws_live c \<Longrightarrow> ws_live (setToken ok jit tok c)"
proof -
  assume live: "ws_live c"
  then have "ws_live (connect ok jit (c\<lparr>wc_token := tok, wc_closed := False\<rparr>))"
    by (intro live_after_connect) (simp add: ws_live_def)
  with live show ?thesis
    by (auto simp: setToken_def Let_def ws_live_def sock_close_Closed split: option.splits)
qed

lemma live_onmessage: "ws_live c \<Longrightarrow> ws_live (onmessage i m c)"
proof -
  assume live: "ws_live c"
  then have "ws_live (sock_send i [Pong] c)" by (simp add: ws_live_def sock_simps)
  with live show ?thesis
    by (auto simp: onmessage_def intro: live_update split: option.split ws_message.split)
qed

lemma live_onopen: "ws_live c \<Longrightarrow> ws_live (onopen i c)"
  by (auto simp: onopen_def Let_def ws_live_def sock_simps)

lemma live_step: "ws_step c d \<Longrightarrow> ws_live c \<Longrightarrow> ws_live d"
  by (induction rule: ws_step.induct)
    (simp_all add: on_def off_def onerror_def live_update live_subscribe live_unsubscribe
      live_reconnect live_onclose live_sock_close live_close live_onTimer live_setToken
      live_onmessage live_onopen live_send)

interpretation wl: transition_system ws_step ws_live
  by unfold_locales (rule live_step)

lemma live_getWsClient: "getWsClient w ok jit b None = Return c \<Longrightarrow> ws_live c"
  by (auto simp: getWsClient_def new_client_def intro!: live_after_connect split: if_splits)

section \<open>Properties\<close>

text \<open>
  C1. A client obtained from \<open>getWsClient\<close> is never stranded: after any sequence of calls,
  socket events and timer ticks it has been closed on purpose, or a reconnect timer is
  pending, or its current socket is one whose close event is still to come.
\<close>

theorem client_never_stranded:
  assumes "getWsClient w ok jit b None = Return c" "ws_step\<^sup>*\<^sup>* c d"
  shows "wc_closed d \<or> wc_reconnectTimer d \<noteq> None \<or>
    (\<exists>i. wc_ws d = Some i \<and> sock_state d i \<noteq> Closed)"
  using wl.run_inv [OF assms(2) live_getWsClient [OF assms(1)]] by (auto simp: ws_live_def)

definition demo_browser :: browser where
  "demo_browser = \<lparr>bw_storage = [(jwt_key, ''t'')], bw_events = []\<rparr>"

definition demo_client :: ws_client where
  "demo_client = connect True (Fin 0) (new_client (Some ''t'') demo_browser)"

lemma demo_get: "getWsClient True True (Fin 0) demo_browser None = Return demo_client"
  by (simp add: getWsClient_def demo_client_def demo_browser_def)

theorem client_never_stranded_witness:
  "wc_closed (onclose 0 1006 (Fin 0) demo_client) \<or>
   wc_reconnectTimer (onclose 0 1006 (Fin 0) demo_client) \<noteq> None \<or>
   (\<exists>i. wc_ws (onclose 0 1006 (Fin 0) demo_client) = Some i \<and>
     sock_state (onclose 0 1006 (Fin 0) demo_client) i \<noteq> Closed)"
proof (rule client_never_stranded [OF demo_get], rule r_into_rtranclp, rule st_closed)
  show "sock_state demo_client 0 \<noteq> Closed"
    by (simp add: demo_client_def connect_def new_client_def sock_state_def)
qed

text \<open>
  When a socket of a reachable client opens, exactly these frames leave on it, in this
  order: the auth frame if a non-empty token is set, one subscribe frame per subscribed
  channel, then the queued frames; the queue is empty and the attempt counter reset.
\<close>

theorem open_sends_auth_first:
  assumes "ws_reachable c" "sock_state c i = Connecting"
  shows "sent_on (onopen i c) i =
      (case wc_token c of Some (t # ts) \<Rightarrow> [Auth (t # ts)] | _ \<Rightarrow> [])
        @ map Subscribe (wc_subs c) @ wc_outboundQueue c
    \<and> wc_outboundQueue (onopen i c) = [] \<and> wc_reconnectAttempt (onopen i c) = 0"
proof -
  have "sent_on c i = []" using ws_reachable_inv [OF assms(1)] assms(2) by (simp add: ws_inv_def)
  moreover have "i < length (wc_sockets c)" using assms(2) by (intro sock_state_Open_len) simp
  ultimately show ?thesis
    by (auto simp: onopen_def Let_def sock_simps open_frames_def truthy_str_def
        split: option.split list.split)
qed

lemma demo_reachable: "ws_reachable demo_client"
  unfolding demo_client_def by (rule rc_step [OF rc_init st_connect])

lemma demo_connecting: "sock_state demo_client 0 = Connecting"
  by (simp add: demo_client_def connect_def new_client_def sock_state_def)

theorem open_sends_auth_first_witness:
  "sent_on (onopen 0 (subscribe ''trades.btc-usd'' demo_client)) 0 =
     [Auth ''t'', Subscribe ''trades.btc-usd'', Subscribe ''trades.btc-usd'']"
proof -
  have r: "ws_reachable (subscribe ''trades.btc-usd'' demo_client)"
    by (rule rc_step [OF demo_reachable st_subscribe])
  have s: "sock_state (subscribe ''trades.btc-usd'' demo_client) 0 = Connecting"
    by (simp add: subscribe_def send_def demo_client_def connect_def new_client_def sock_state_def)
  show ?thesis
    using open_sends_auth_first [OF r s]
    by (simp add: subscribe_def send_def demo_client_def connect_def new_client_def
        sock_state_def sadd_def)
qed

subsection \<open>A lost connection\<close>

text \<open>Calls of \<open>subscribe\<close> and \<open>unsubscribe\<close>, and the channels they ask for.\<close>

definition sub_calls :: "(bool \<times> string) list \<Rightarrow> ws_client \<Rightarrow> ws_client" where
  "sub_calls calls c = foldl (\<lambda>c (add, ch). if add then subscribe ch c else unsubscribe ch c) c calls"

definition asked_for :: "(bool \<times> string) list \<Rightarrow> string set \<Rightarrow> string set" where
  "asked_for calls S = foldl (\<lambda>S (add, ch). if add then insert ch S else S - {ch}) S calls"

lemma sub_calls_reachable: "ws_reachable c \<Longrightarrow> ws_reachable (sub_calls calls c)"
proof (induction calls rule: rev_induct)
  case (snoc x calls)
  then show ?case by (cases x) (auto simp: sub_calls_def intro: rc_step st_subscribe st_unsubscribe)
qed (simp add: sub_calls_def)

lemma sub_calls_offline:
  assumes "wc_ws c = None"
  shows "wc_ws (sub_calls calls c) = None \<and> wc_sockets (sub_calls calls c) = wc_sockets c \<and>
    wc_reconnectTimer (sub_calls calls c) = wc_reconnectTimer c \<and> set (wc_subs (sub_calls calls c)) = asked_for calls (set (wc_subs c))"
proof (induction calls rule: rev_induct)
  case (snoc x calls)
  then show ?case by (cases x) (auto simp: sub_calls_def asked_for_def subscribe_def unsubscribe_def send_def)
qed (simp add: assms sub_calls_def asked_for_def)

lemma reopened:
  assumes "wc_ws d = None"
  shows "wc_ws (onTimer True jit d) = Some (length (wc_sockets d)) \<and> sock_state (onTimer True jit d) (length (wc_sockets d)) = Connecting \<and>
    wc_subs (onTimer True jit d) = wc_subs d"
  using assms by (simp add: onTimer_def connect_def sock_state_def nth_append)

text \<open>
  C14. A lost connection recovers: when the current socket of a client that was not closed on
  purpose is closed with any code but 3000, a reconnect timer is pending, and after any calls of
  \<open>subscribe\<close> and \<open>unsubscribe\<close> made meanwhile, once the timer fires, the new socket can be created
  and opens, it is the client's current socket, the attempt counter is back at zero, and the
  frames sent on it leave a server that follows them with exactly the channels the client had and
  the calls asked for.
\<close>

theorem lost_connection_recovers:
  assumes "ws_reachable c" "wc_ws c = Some i" "sock_state c i \<noteq> Closed" "\<not> wc_closed c" "code \<noteq> 3000"
    and "d = sub_calls calls (onclose i code jit c)" "j = length (wc_sockets c)"
    and "e = onopen j (onTimer True jit' d)"
  shows "wc_reconnectTimer d \<noteq> None \<and> wc_ws e = Some j \<and> sock_state e j = Open \<and> wc_reconnectAttempt e = 0 \<and>
    set (wc_subs e) = asked_for calls (set (wc_subs c)) \<and> net_subs {} (sent_on e j) = asked_for calls (set (wc_subs c)) - {[]}"
proof -
  let ?o = "onclose i code jit c"
  have o: "wc_ws ?o = None" "wc_reconnectTimer ?o \<noteq> None" "length (wc_sockets ?o) = j" "wc_subs ?o = wc_subs c"
    using assms(4,5) by (auto simp: onclose_def scheduleReconnect_def Let_def assms(7))
  have d: "wc_ws d = None" "wc_reconnectTimer d \<noteq> None" "length (wc_sockets d) = j"
      "set (wc_subs d) = asked_for calls (set (wc_subs c))"
    using sub_calls_offline [OF o(1), of calls] o(2-4) by (simp_all add: assms(6))
  have "ws_reachable d" unfolding assms(6)
    by (rule sub_calls_reachable [OF rc_step [OF assms(1) st_closed [OF assms(3)]]])
  from rc_step [OF this st_timer [OF d(2)]] have t: "ws_reachable (onTimer True jit' d)" .
  have n: "wc_ws (onTimer True jit' d) = Some j" "sock_state (onTimer True jit' d) j = Connecting" "wc_subs (onTimer True jit' d) = wc_subs d"
    using reopened [OF d(1), of jit'] d(3) by simp_all
  have e: "wc_ws e = Some j" "sock_state e j = Open" "wc_subs e = wc_subs d" "wc_reconnectAttempt e = 0"
    using n sock_state_Open_len [of "onTimer True jit' d" j] by (simp_all add: assms(8) onopen_def Let_def sock_simps)
  have "ws_inv e" unfolding assms(8) by (rule ws_reachable_inv [OF rc_step [OF t st_open [OF n(2)]]])
  then show ?thesis using d(2,4) e by (simp add: ws_inv_def)
qed

theorem lost_connection_recovers_witness:
  "let e = onopen 1 (onTimer True (Fin 0) (sub_calls [(True, ''trades.btc-usd'')] (onclose 0 1006 (Fin 0) demo_client))) in
     sock_state e 1 = Open \<and> net_subs {} (sent_on e 1) = {''trades.btc-usd''}"
proof -
  have c: "wc_ws demo_client = Some 0" "sock_state demo_client 0 \<noteq> Closed" "\<not> wc_closed demo_client" "length (wc_sockets demo_client) = 1"
      "wc_subs demo_client = []"
    by (simp_all add: demo_client_def connect_def new_client_def sock_state_def)
  show ?thesis
    using lost_connection_recovers [OF demo_reachable c(1-3) _ refl refl refl, of 1006 "[(True, ''trades.btc-usd'')]" "Fin 0" "Fin 0"]
    by (simp add: c(4,5) asked_for_def Let_def)
qed

subsection \<open>The back-off\<close>

lemma flo_250_pow: "6 \<le> n \<Longrightarrow> num_le (Fin 10000) (Fin 250 * flo (2 ^ n))"
proof (cases "flo (2 ^ n)")
  case (Fin y)
  assume n: "6 \<le> n"
  have "(64::rat) \<le> 2 ^ n" using power_increasing [OF n, of "2::rat"] by simp
  then have "rnd64 64 \<le> rnd64 (2 ^ n)" by (rule rnd64_mono)
  moreover have "rnd64 64 = 64" using rnd64_id [OF representable_of_int [of 64]] by simp
  ultimately have "64 \<le> y" using flo_Fin [OF Fin] by simp
  then have "10000 \<le> 250 * y" by simp
  then have "num_le (flo 10000) (flo (250 * y))" by (rule flo_mono)
  then show ?thesis using flo_of_int [of 10000] by (simp add: Fin)
next
  case MInf
  have "0 \<le> rnd64 (2 ^ n)" by (intro rnd64_nonneg) simp
  moreover have "(0::rat) < 2 ^ 1024" by simp
  ultimately have "\<not> rnd64 (2 ^ n) \<le> - (2 ^ 1024)" by linarith
  with MInf show ?thesis by (simp add: flo_def Let_def split: if_splits)
qed (simp_all add: times_number_def sgn_inf_def)

lemma backoff_base:
  "num_min (Fin 10000) (Fin 250 * flo (2 ^ n)) = Fin (min 10000 (250 * 2 ^ n))"
proof (cases "n < 6")
  case True
  then have "n \<in> {0, 1, 2, 3, 4, 5}" by auto
  then show ?thesis
    using flo_of_int [of 1] flo_of_int [of 2] flo_of_int [of 4] flo_of_int [of 8] flo_of_int [of 16] flo_of_int [of 32]
      flo_of_int [of 250] flo_of_int [of 500] flo_of_int [of 1000] flo_of_int [of 2000] flo_of_int [of 4000] flo_of_int [of 8000]
    by (auto simp: num_min_def)
next
  case False
  then have n: "6 \<le> n" by simp
  have "(64::rat) \<le> 2 ^ n" using power_increasing [OF n, of "2::rat"] by simp
  moreover have "\<not> num_lt (Fin 250 * flo (2 ^ n)) (Fin 10000) \<and> Fin 250 * flo (2 ^ n) \<noteq> NaN"
    using flo_250_pow [OF n] by (cases "Fin 250 * flo (2 ^ n)") auto
  ultimately show ?thesis by (simp add: num_min_def)
qed

text \<open>
  C28. The delay before reconnect attempt \<open>n\<close> with the default cap: with jitter \<open>j\<close> in
  \<open>[0, 1)\<close> it is a finite number between the capped exponential \<open>min 10000 (250 * 2 ^ n)\<close>
  and that plus 250 ms, for every attempt number, also those whose power overflows.
\<close>

theorem reconnect_delay_bounds:
  assumes "0 \<le> j" "j < 1"
  shows "\<exists>d. reconnect_delay None n (Fin j) = Fin d \<and>
    min 10000 (250 * 2 ^ n) \<le> d \<and> d \<le> min 10000 (250 * 2 ^ n) + 250"
proof -
  define b :: rat where "b = min 10000 (250 * 2 ^ n)"
  define k :: int where "k = min 10000 (250 * 2 ^ n)"
  have bk: "b = of_int k"
    using of_int_le_iff [of 40 "2 ^ n", where 'a = rat] by (auto simp: b_def k_def min_def)
  have "1 \<le> (2::int) ^ n" by simp
  then have k: "0 \<le> k" "k \<le> 10000" by (auto simp: k_def)
  have rep: "rnd64 (of_int m) = of_int m" if "0 \<le> m" "m \<le> 10250" for m
    using that by (intro rnd64_id representable_of_int) simp
  define x where "x = rnd64 (j * 250)"
  have x: "0 \<le> x" "x \<le> 250" unfolding x_def
    using assms rep [of 250] by (auto intro!: rnd64_nonneg b64.below)
  have fx: "flo (j * 250) = Fin x" unfolding x_def
    using assms representable_of_int [of 250] by (intro flo_small [of _ 250]) auto
  have fy: "flo (b + x) = Fin (rnd64 (b + x))"
    using k x representable_of_int [of 10250] by (intro flo_small [of _ 10250]) (auto simp: bk)
  have "b \<le> rnd64 (b + x)" using x k by (intro b64.above) (auto simp: bk rep)
  moreover have "rnd64 (b + x) \<le> b + 250"
    using x k rep [of "k + 250"] by (intro b64.below) (auto simp: bk)
  ultimately show ?thesis
    by (simp add: reconnect_delay_def backoff_base fx fy flip: b_def)
qed

theorem reconnect_delay_bounds_witness:
  "\<exists>d. reconnect_delay None 2000 (Fin (1/2)) = Fin d \<and>
    min 10000 (250 * 2 ^ 2000) \<le> d \<and> d \<le> min 10000 (250 * 2 ^ 2000) + 250"
  by (rule reconnect_delay_bounds) simp_all

subsection \<open>Closing and recovery\<close>

text \<open>
A close event with code 3000 removes both stored JWT keys and nothing else from the
  storage, announces the change once, marks the client closed and arms no timer; from there
  \<open>setToken\<close> reopens: it clears the mark and, when the socket constructor succeeds, leaves a
  fresh connecting socket carrying the new token.
\<close>

theorem unauthorized_then_recover:
  "let d = onclose i 3000 jit c; e = setToken True jit' (Some t) d in
     mget (bw_storage (wc_browser d)) k =
       (if k \<in> {''perplex.jwt'', ''perplex.jwt.expiresAt''} then None
        else mget (bw_storage (wc_browser c)) k)
     \<and> bw_events (wc_browser d) = bw_events (wc_browser c) @ [''perplex.jwt.change'']
     \<and> wc_closed d \<and> wc_reconnectTimer d = wc_reconnectTimer c
     \<and> \<not> wc_closed e \<and> wc_token e = Some t \<and> wc_subs e = wc_subs c
     \<and> wc_ws e = Some (length (wc_sockets c))
     \<and> sock_state e (length (wc_sockets c)) = Connecting"
  by (simp add: onclose_def Let_def clearStoredJwtOnUnauthorized_def jwt_key_def jwt_exp_key_def
      jwt_event_def setToken_def connect_def sock_state_def nth_append)

definition stale_timer_run :: "string \<Rightarrow> ws_client" where
  "stale_timer_run t = onclose 1 3000 (Fin 0) (onopen 1 (setToken True (Fin 0) (Some t)
     (onclose 0 1006 (Fin 0) (onopen 0 demo_client))))"

lemma stale_timer_reachable: "ws_reachable (stale_timer_run t)"
proof -
  let ?c1 = "onopen 0 demo_client"
  let ?c2 = "onclose 0 1006 (Fin 0) ?c1"
  let ?c3 = "setToken True (Fin 0) (Some t) ?c2"
  let ?c4 = "onopen 1 ?c3"
  note ev = demo_client_def connect_def new_client_def sock_state_def onopen_def Let_def
    set_sock_state_def sock_send_def open_frames_def onclose_def scheduleReconnect_def setToken_def
  have r1: "ws_reachable ?c1" by (rule rc_step [OF demo_reachable st_open [OF demo_connecting]])
  have r2: "ws_reachable ?c2" by (rule rc_step [OF r1 st_closed]) (simp add: ev)
  have r3: "ws_reachable ?c3" by (rule rc_step [OF r2 st_setToken])
  have r4: "ws_reachable ?c4" by (rule rc_step [OF r3 st_open]) (simp add: ev)
  show ?thesis unfolding stale_timer_run_def by (rule rc_step [OF r4 st_closed]) (simp add: ev)
qed

text \<open>
  The mark set by a 3000 close does not always stop the client: a reachable client holds
  a reconnect timer although it is closed, and the timer's tick opens a new socket while the
  mark is still set. (The timer was armed by an earlier ordinary close; \<open>setToken\<close> connected
  without disarming it, and the handler of the 3000 close does not disarm it either.)
\<close>

theorem closed_client_reconnects:
  "\<exists>c. ws_reachable c \<and> wc_closed c \<and> wc_reconnectTimer c \<noteq> None \<and> wc_ws c = None \<and>
     (let d = onTimer True jit c in
       wc_closed d \<and> wc_ws d = Some 2 \<and> sock_state d 2 = Connecting)"
  by (rule exI [of _ "stale_timer_run ''u''"], simp add: stale_timer_reachable)
    (simp add: stale_timer_run_def onTimer_def demo_client_def connect_def new_client_def
      sock_state_def onopen_def Let_def set_sock_state_def sock_send_def open_frames_def
      onclose_def scheduleReconnect_def setToken_def clearStoredJwtOnUnauthorized_def)

definition orphan_run :: "ws_client" where
  "orphan_run = onopen 2 (onTimer True (Fin 0) (onclose 0 1000 (Fin 0) (onopen 1
     (setToken True (Fin 0) (Some ''u'') (close (on 7 (onopen 0 demo_client)))))))"

lemma orphan_reachable: "ws_reachable orphan_run"
proof -
  let ?c1 = "onopen 0 demo_client"
  let ?c2 = "close (on 7 ?c1)"
  let ?c3 = "setToken True (Fin 0) (Some ''u'') ?c2"
  let ?c4 = "onopen 1 ?c3"
  let ?c5 = "onclose 0 1000 (Fin 0) ?c4"
  let ?c6 = "onTimer True (Fin 0) ?c5"
  note ev = demo_client_def connect_def new_client_def sock_state_def onopen_def Let_def
    set_sock_state_def sock_send_def open_frames_def onclose_def scheduleReconnect_def setToken_def
    close_def on_def sock_close_def onTimer_def
  have r1: "ws_reachable ?c1" by (rule rc_step [OF demo_reachable st_open [OF demo_connecting]])
  have r2: "ws_reachable ?c2" by (rule rc_step [OF rc_step [OF r1 st_on] st_close])
  have r3: "ws_reachable ?c3" by (rule rc_step [OF r2 st_setToken])
  have r4: "ws_reachable ?c4" by (rule rc_step [OF r3 st_open]) (simp add: ev)
  have r5: "ws_reachable ?c5" by (rule rc_step [OF r4 st_closed]) (simp add: ev)
  have r6: "ws_reachable ?c6" by (rule rc_step [OF r5 st_timer]) (simp add: ev)
  show ?thesis unfolding orphan_run_def by (rule rc_step [OF r6 st_open]) (simp add: ev)
qed

text \<open>
  The close event of an abandoned socket detaches the live one: after \<open>close\<close> and
  \<open>setToken\<close> the late close event of the first socket clears the field \<open>ws\<close> although the
  second socket is open; the reconnect that follows gives a second open socket, and one
  message of each of them reaches the listener, so the listener sees every frame twice.
\<close>

theorem stale_close_duplicates_delivery:
  "\<exists>c. ws_reachable c \<and> sock_state c 1 = Open \<and> sock_state c 2 = Open \<and> wc_ws c = Some 2 \<and>
     wc_delivered (onmessage 2 (Some (Trade m)) (onmessage 1 (Some (Trade m)) c)) =
       [(7, Trade m), (7, Trade m)]"
  by (rule exI [of _ orphan_run], simp add: orphan_reachable)
    (simp add: orphan_run_def onTimer_def demo_client_def connect_def new_client_def
      sock_state_def onopen_def Let_def set_sock_state_def sock_send_def open_frames_def
      onclose_def scheduleReconnect_def setToken_def close_def on_def sock_close_def sadd_def
      onmessage_def)

end
