(* ===== verification/MockWs.thy ===== *)
theory MockWs
  imports MockApi WsClient
begin

text \<open>
  The mock socket server, \<^verbatim>\<open>web/mocks/ws-mock.ts\<close>. Connections are numbered; the
  \<open>ClientState\<close> object of a connection (its subscriptions) outlives its membership in the
  set \<open>clients\<close>, because the message handler closes over it, so subscriptions are kept in a
  store of their own. Frames handed to \<open>socket.send\<close> are logged with their connection.
\<close>

record mock_server =
  sr_running :: bool
  sr_clients :: "nat jset"
  sr_subs :: "(nat, string jset) jmap"
  sr_sent :: "(nat \<times> ws_message) list"
  sr_data :: mock_state

definition subs_for :: "nat \<Rightarrow> mock_server \<Rightarrow> string jset" where
  "subs_for i sv = (case mget (sr_subs sv) i of None \<Rightarrow> [] | Some s \<Rightarrow> s)"

definition push_frame :: "nat \<Rightarrow> ws_message \<Rightarrow> mock_server \<Rightarrow> mock_server" where
  "push_frame i m sv = sv\<lparr>sr_sent := sr_sent sv @ [(i, m)]\<rparr>"

text \<open>One frame to every connected client with a matching channel, however many match.\<close>

definition broadcast :: "(string \<Rightarrow> bool) \<Rightarrow> ws_message \<Rightarrow> mock_server \<Rightarrow> mock_server" where
  "broadcast channelFilter payload sv =
     sv\<lparr>sr_sent := sr_sent sv @
       map (\<lambda>i. (i, payload)) (filter (\<lambda>i. list_ex channelFilter (subs_for i sv)) (sr_clients sv))\<rparr>"

definition channel_of :: "string \<Rightarrow> market_id \<Rightarrow> string" where
  "channel_of topic mid = topic @ ''.'' @ market_id_str mid"

section \<open>Connections\<close>

definition on_connection :: "nat \<Rightarrow> mock_server \<Rightarrow> mock_server" where
  "on_connection i sv = sv\<lparr>sr_clients := sadd (sr_clients sv) i, sr_subs := mset_key (sr_subs sv) i []\<rparr>"

definition on_message :: "nat \<Rightarrow> int \<Rightarrow> mock_server \<Rightarrow> ws_outbound \<Rightarrow> mock_server" where
  "on_message i now sv msg = (case msg of
       Subscribe ch \<Rightarrow>
         if ch = [] then sv
         else let sv1 = sv\<lparr>sr_subs := mset_key (sr_subs sv) i (sadd (subs_for i sv) ch)\<rparr> in
           if \<not> starts_with ch ''orderbook.'' then sv1
           else (case market_of_str (slice_from ch 10) of None \<Rightarrow> sv1
             | Some mid \<Rightarrow>
                 (if \<not> mhas (st_markets (sr_data sv1)) mid then sv1
                  else case snapshotOf (sr_data sv1) mid now of Inl e \<Rightarrow> sv1
                  | Inr snap \<Rightarrow> push_frame i (Snapshot \<lparr>wb_channel = ch, wb_sequence = ob_sequence snap,
                       wb_bids = ob_bids snap, wb_asks = ob_asks snap, wb_tsNs = ob_tsNs snap\<rparr>) sv1))
     | Unsubscribe ch \<Rightarrow>
         if ch = [] then sv
         else sv\<lparr>sr_subs := mset_key (sr_subs sv) i (sremove (subs_for i sv) ch)\<rparr>
     | _ \<Rightarrow> sv)"

definition on_close :: "nat \<Rightarrow> mock_server \<Rightarrow> mock_server" where
  "on_close i sv = sv\<lparr>sr_clients := sremove (sr_clients sv) i\<rparr>"

section \<open>The simulation\<close>

text \<open>The callbacks of the timers of \<open>startSimulation\<close>; a raise ends the callback.\<close>

definition tick_book :: "market_id \<Rightarrow> number \<Rightarrow> book_draw \<times> book_draw \<times> book_draw \<Rightarrow> int
    \<Rightarrow> mock_server \<Rightarrow> mock_server" where
  "tick_book mid r draws now sv = (case mutateBook (sr_data sv) mid r draws now of
       Inl e \<Rightarrow> sv
     | Inr (st, d) \<Rightarrow> broadcast (\<lambda>ch. ch = channel_of ''orderbook'' mid)
         (Delta \<lparr>wb_channel = channel_of ''orderbook'' mid, wb_sequence = bd_sequence d,
            wb_bids = bd_bids d, wb_asks = bd_asks d, wb_tsNs = bd_tsNs d\<rparr>)
         (sv\<lparr>sr_data := st\<rparr>))"

definition trade_wait :: "number \<Rightarrow> number" where
  "trade_wait r = Fin 400 + r * Fin 800"

definition tick_trade :: "market_id \<Rightarrow> number \<Rightarrow> number \<Rightarrow> number \<Rightarrow> string \<Rightarrow> int
    \<Rightarrow> mock_server \<Rightarrow> mock_server" where
  "tick_trade mid rs rp rq suffix now sv = (case spawnTrade (sr_data sv) mid rs rp rq suffix now of
       Inl e \<Rightarrow> sv
     | Inr (st, t) \<Rightarrow> broadcast (\<lambda>ch. ch = channel_of ''trades'' mid)
         (Trade \<lparr>wt_channel = channel_of ''trades'' mid, wt_id = tr_id t, wt_price = tr_price t,
            wt_qty = tr_qty t, wt_side = tr_side t, wt_tsNs = tr_tsNs t\<rparr>)
         (sv\<lparr>sr_data := st\<rparr>))"

definition tick_oracle :: "market_id \<Rightarrow> int \<Rightarrow> mock_server \<Rightarrow> mock_server" where
  "tick_oracle mid now sv = (case oraclePrice (sr_data sv) mid of
       Inl e \<Rightarrow> sv
     | Inr price \<Rightarrow>
         (let sv1 = broadcast (\<lambda>ch. ch = channel_of ''oracle'' mid)
             (Oracle \<lparr>wo_channel = channel_of ''oracle'' mid, wo_priceX18 = price,
                wo_confidenceX18 = ''5.0'', wo_sourceTsNs = nsStr (nowNs now), wo_tsNs = nsStr (nowNs now)\<rparr>) sv
          in case refreshMarks (sr_data sv1) now of Inl e \<Rightarrow> sv1 | Inr st \<Rightarrow> sv1\<lparr>sr_data := st\<rparr>))"

definition next_rate :: "number \<Rightarrow> number \<Rightarrow> number" where
  "next_rate rate r = num_max (Fin (- 15)) (num_min (Fin 15) (rate + (r - lit (1/2)) * lit (4/10)))"

definition tick_funding :: "market_id \<Rightarrow> number \<Rightarrow> int \<Rightarrow> mock_server \<Rightarrow> mock_server" where
  "tick_funding mid r now sv = (case get_market (sr_data sv) mid of
       Inl e \<Rightarrow> sv
     | Inr m \<Rightarrow>
         (let rate = next_rate (mf_currentRateBps (ms_funding m)) r;
              m' = m\<lparr>ms_funding := (ms_funding m)\<lparr>mf_currentRateBps := rate\<rparr>\<rparr>
          in broadcast (\<lambda>ch. ch = channel_of ''funding'' mid)
               (Funding \<lparr>wf_channel = channel_of ''funding'' mid, wf_currentRateBps = rate,
                  wf_nextSettlementTsNs = nsStr (mf_nextSettlementTsNs (ms_funding m)),
                  wf_tsNs = nsStr (nowNs now)\<rparr>)
               (sv\<lparr>sr_data := put_market mid m' (sr_data sv)\<rparr>)))"

definition heartbeat :: "int \<Rightarrow> mock_server \<Rightarrow> mock_server" where
  "heartbeat now sv = sv\<lparr>sr_sent := sr_sent sv @ map (\<lambda>i. (i, Ping (nsStr (nowNs now)))) (sr_clients sv)\<rparr>"

definition startMockWsServer :: "mock_server \<Rightarrow> mock_server" where
  "startMockWsServer sv = (if sr_running sv then sv else sv\<lparr>sr_running := True\<rparr>)"

definition stopMockWsServer :: "mock_server \<Rightarrow> mock_server" where
  "stopMockWsServer sv = (if \<not> sr_running sv then sv else sv\<lparr>sr_running := False, sr_clients := []\<rparr>)"

section \<open>The server is a subscription peer\<close>

lemma push_frame_fields [simp]:
  "sr_subs (push_frame i m sv) = sr_subs sv" "sr_data (push_frame i m sv) = sr_data sv"
  "sr_clients (push_frame i m sv) = sr_clients sv"
  by (simp_all add: push_frame_def)

lemma broadcast_fields [simp]:
  "sr_subs (broadcast P m sv) = sr_subs sv" "sr_data (broadcast P m sv) = sr_data sv"
  "sr_clients (broadcast P m sv) = sr_clients sv" "sr_running (broadcast P m sv) = sr_running sv"
  by (simp_all add: broadcast_def)

lemma on_message_data [simp]: "sr_data (on_message i now sv m) = sr_data sv"
  by (simp add: on_message_def Let_def split: ws_outbound.split option.split sum.split)

lemma sr_subs_on_message:
  "sr_subs (on_message i now sv m) = (case m of
      Subscribe ch \<Rightarrow> if ch = [] then sr_subs sv else mset_key (sr_subs sv) i (sadd (subs_for i sv) ch)
    | Unsubscribe ch \<Rightarrow> if ch = [] then sr_subs sv else mset_key (sr_subs sv) i (sremove (subs_for i sv) ch)
    | _ \<Rightarrow> sr_subs sv)"
  by (simp add: on_message_def Let_def split: ws_outbound.split option.split sum.split)

definition peer_subs :: "nat \<Rightarrow> mock_server \<Rightarrow> string set" where
  "peer_subs i sv = set (subs_for i sv) - {[]}"

interpretation mw: subscription_peer "on_message i now" "peer_subs i" for i now
  by unfold_locales (auto simp: peer_subs_def subs_for_def sr_subs_on_message split: option.splits)

section \<open>Runs of the mock exchange\<close>

text \<open>
  The shared state changes by a timer of the simulation or by a request. Socket traffic
  changes connections and subscriptions only.
\<close>

inductive mock_step :: "mock_server \<Rightarrow> mock_server \<Rightarrow> bool" where
  mk_connect: "mock_step sv (on_connection i sv)"
| mk_message: "mock_step sv (on_message i now sv msg)"
| mk_close: "mock_step sv (on_close i sv)"
| mk_start: "mock_step sv (startMockWsServer sv)"
| mk_stop: "mock_step sv (stopMockWsServer sv)"
| mk_book: "sr_running sv \<Longrightarrow> draw r \<Longrightarrow> book_draw_ok d0 \<Longrightarrow> book_draw_ok d1 \<Longrightarrow> book_draw_ok d2
    \<Longrightarrow> mock_step sv (tick_book mid r (d0, d1, d2) now sv)"
| mk_trade: "sr_running sv \<Longrightarrow> mock_step sv (tick_trade mid rs rp rq sfx now sv)"
| mk_oracle: "sr_running sv \<Longrightarrow> mock_step sv (tick_oracle mid now sv)"
| mk_funding: "sr_running sv \<Longrightarrow> draw r \<Longrightarrow> mock_step sv (tick_funding mid r now sv)"
| mk_heartbeat: "sr_running sv \<Longrightarrow> mock_step sv (heartbeat now sv)"
| mk_post: "postOrder (sr_data sv) mkt body dr now = Return (st, resp)
    \<Longrightarrow> mock_step sv (sv\<lparr>sr_data := st\<rparr>)"
| mk_delete: "mock_step sv (sv\<lparr>sr_data := fst (deleteOrder (sr_data sv) oid)\<rparr>)"
| mk_positions: "getPositions (sr_data sv) now = Return (st, resp) \<Longrightarrow> mock_step sv (sv\<lparr>sr_data := st\<rparr>)"
| mk_verify: "mock_step sv (sv\<lparr>sr_data := fst (siweVerify (sr_data sv) sfx now)\<rparr>)"

definition new_server :: "mock_state \<Rightarrow> mock_server" where
  "new_server st = \<lparr>sr_running = False, sr_clients = [], sr_subs = [], sr_sent = [], sr_data = st\<rparr>"

definition server_ok :: "mock_server \<Rightarrow> bool" where
  "server_ok sv = (mock_ok (sr_data sv) \<and> distinct (sr_clients sv))"

lemma next_rate_bnd: "bnd 15 rate \<Longrightarrow> draw r \<Longrightarrow> bnd 15 (next_rate rate r)"
proof -
  assume "bnd 15 rate" "draw r"
  have "bnd (1 + 1) (r - lit (1/2))" by (intro bnd_diff draw_bnd bnd_lit \<open>draw r\<close>) simp_all
  then have "bnd ((1 + 1) * 1) ((r - lit (1/2)) * lit (4/10))" by (rule bnd_mul [OF _ bnd_lit]) simp_all
  then have "bnd (15 + (1 + 1) * 1) (rate + (r - lit (1/2)) * lit (4/10))"
    by (rule bnd_add [OF \<open>bnd 15 rate\<close>]) simp
  then obtain x where "rate + (r - lit (1/2)) * lit (4/10) = Fin x" by (auto simp: bnd_def)
  then show ?thesis by (auto simp: next_rate_def num_max_def num_min_def abs_le_iff)
qed

lemma tick_book_ok:
  assumes "mock_ok (sr_data sv)" "draw r" "book_draw_ok d0" "book_draw_ok d1" "book_draw_ok d2"
  shows "mock_ok (sr_data (tick_book mid r (d0, d1, d2) now sv))"
  using mutateBook_ok [OF assms, of mid now] by (auto simp: tick_book_def)

lemma tick_trade_ok: "mock_ok (sr_data sv) \<Longrightarrow> mock_ok (sr_data (tick_trade mid rs rp rq sfx now sv))"
  using spawnTrade_ok [of "sr_data sv" mid rs rp rq sfx now] by (auto simp: tick_trade_def)

lemma tick_oracle_ok: "mock_ok (sr_data sv) \<Longrightarrow> mock_ok (sr_data (tick_oracle mid now sv))"
  using refreshMarks_ok [of "sr_data sv" now] by (auto simp: tick_oracle_def Let_def split: sum.split)

lemma tick_funding_ok:
  assumes ok: "mock_ok (sr_data sv)" and "draw r"
  shows "mock_ok (sr_data (tick_funding mid r now sv))"
proof -
  obtain m where m: "get_market (sr_data sv) mid = Return m" "market_ok m" using mock_ok_get [OF ok] by blast
  then have "market_ok (m\<lparr>ms_funding := (ms_funding m)\<lparr>mf_currentRateBps := next_rate (mf_currentRateBps (ms_funding m)) r\<rparr>\<rparr>)"
    using next_rate_bnd [OF _ assms(2)] by (simp add: market_ok_def)
  then show ?thesis using ok m by (simp add: tick_funding_def Let_def mock_ok_put)
qed

lemma tick_clients [simp]:
  "sr_clients (tick_book mid r ds now sv) = sr_clients sv"
  "sr_clients (tick_trade mid rs rp rq sfx now sv) = sr_clients sv"
  "sr_clients (tick_oracle mid now sv) = sr_clients sv"
  "sr_clients (tick_funding mid r now sv) = sr_clients sv"
  "sr_clients (on_message i now sv msg) = sr_clients sv"
  by (auto simp: tick_book_def tick_trade_def tick_oracle_def tick_funding_def on_message_def Let_def
      split: sum.split ws_outbound.split option.split)

lemma getPositions_ok: "mock_ok st \<Longrightarrow> getPositions st now = Return (st', r) \<Longrightarrow> mock_ok st'"
  using refreshMarks_ok [of st now] by (auto simp: getPositions_def)

lemma server_ok_step: "mock_step sv sv' \<Longrightarrow> server_ok sv \<Longrightarrow> server_ok sv'"
proof (induction rule: mock_step.induct)
  case (mk_post sv mkt body dr now st resp)
  then show ?case using postOrder_ok [of "sr_data sv" mkt body dr now] by (auto simp: server_ok_def)
qed (auto simp: server_ok_def on_connection_def on_close_def startMockWsServer_def stopMockWsServer_def
    heartbeat_def tick_book_ok tick_trade_ok tick_oracle_ok tick_funding_ok deleteOrder_ok siweVerify_ok
    dest: getPositions_ok)

interpretation mk: transition_system mock_step server_ok
  by unfold_locales (rule server_ok_step)

lemma snapshot_best:
  assumes "market_ok m" "mget (st_markets st) mid = Some m"
  shows "\<exists>snap. snapshotOf st mid now = Return snap \<and> ob_sequence snap = ms_sequence m \<and>
    best_of (\<lambda>l. - num_key (fst l)) 50 (ms_bids m) (ob_bids snap) \<and> best_of (\<lambda>l. num_key (fst l)) 50 (ms_asks m) (ob_asks snap)"
proof -
  have ok: "\<forall>l\<in>set (ms_bids m). price_ok (fst l)" "\<forall>l\<in>set (ms_asks m). price_ok (fst l)"
    using assms(1) by (auto simp: market_ok_def side_ok_def)
  have "best_of (\<lambda>l. - num_key (fst l)) 50 (ms_bids m) (take 50 (sort_by by_price_desc (ms_bids m)))"
    using best_of_take_sort [OF orders_desc [OF ok(1)]] unfolding by_price_desc_def .
  moreover have "best_of (\<lambda>l. num_key (fst l)) 50 (ms_asks m) (take 50 (sort_by by_price_asc (ms_asks m)))"
    using best_of_take_sort [OF orders_asc [OF ok(2)]] unfolding by_price_asc_def by (simp add: comp_def)
  ultimately show ?thesis using assms(2) by (simp add: snapshotOf_def)
qed

section \<open>Properties\<close>

text \<open>
  C4. The mock exchange never corrupts its state. Started on the seeded data, whatever
  connections, frames, timer ticks and requests follow, every market stays readable: its anchor
  is a finite number of magnitude at most \<open>2 ^ 60\<close>, each side of its book has unique prices that
  are finite numbers with positive quantities, it keeps at most 200 trades and a funding rate
  within 15 bps; there are at most 500 fills, one position per market and only unfilled limit
  orders, no client is listed twice, and every snapshot served has the market's sequence number
  and the 50 best levels of each side.
\<close>

theorem mock_exchange_invariant:
  assumes "\<And>mid i. draw (rnd mid i)" and "mock_step\<^sup>*\<^sup>* (new_server (STATE rnd now t)) sv"
  shows "(\<exists>m. get_market (sr_data sv) mid = Return m \<and> (\<exists>a. ms_anchor m = Fin a \<and> \<bar>a\<bar> \<le> 2 ^ 60) \<and>
      side_ok (ms_bids m) \<and> side_ok (ms_asks m) \<and> length (ms_recentTrades m) \<le> 200 \<and>
      (\<exists>r. mf_currentRateBps (ms_funding m) = Fin r \<and> \<bar>r\<bar> \<le> 15) \<and>
      (\<exists>snap. snapshotOf (sr_data sv) mid n = Return snap \<and> ob_sequence snap = ms_sequence m \<and>
        best_of (\<lambda>l. - num_key (fst l)) 50 (ms_bids m) (ob_bids snap) \<and>
        best_of (\<lambda>l. num_key (fst l)) 50 (ms_asks m) (ob_asks snap))) \<and>
    length (st_fills (sr_data sv)) \<le> 500 \<and> distinct (map ps_marketId (st_positions (sr_data sv))) \<and>
    (\<forall>o'\<in>set (st_openOrders (sr_data sv)). oo_type o' = Limit \<and> oo_remaining o' = oo_qty o') \<and>
    distinct (sr_clients sv)"
proof -
  have "server_ok (new_server (STATE rnd now t))"
    using mock_ok_STATE [OF assms(1)] by (simp add: server_ok_def new_server_def)
  with assms(2) have ok: "mock_ok (sr_data sv)" "distinct (sr_clients sv)"
    using mk.run_inv by (auto simp: server_ok_def)
  obtain m where m: "get_market (sr_data sv) mid = Return m" "market_ok m" "mget (st_markets (sr_data sv)) mid = Some m"
    using mock_ok_get [OF ok(1)] by blast
  show ?thesis
    using m ok snapshot_best [OF m(2,3), of n] by (auto simp: market_ok_def anchor_ok_def bnd_def mock_ok_def)
qed

theorem mock_exchange_invariant_witness:
  "\<exists>m. get_market (sr_data (startMockWsServer (new_server (STATE (\<lambda>_ _. Fin (1/2)) (\<lambda>_ _. 0) 0)))) BtcUsd = Return m \<and>
     side_ok (ms_bids m) \<and> length (ms_recentTrades m) \<le> 200"
proof -
  have d: "\<And>mid i. draw ((\<lambda>_ _. Fin (1/2)) (mid::market_id) (i::nat))"
    unfolding draw_def by (intro exI [of _ "1/2"]) simp
  have run: "mock_step\<^sup>*\<^sup>* (new_server (STATE (\<lambda>_ _. Fin (1/2)) (\<lambda>_ _. 0) 0))
      (startMockWsServer (new_server (STATE (\<lambda>_ _. Fin (1/2)) (\<lambda>_ _. 0) 0)))"
    by (intro r_into_rtranclp mk_start)
  show ?thesis using mock_exchange_invariant [OF d run, of BtcUsd 0] by blast
qed

end
