(* ===== verification/LiveBook.thy ===== *)
theory LiveBook
  imports WsClient JsArray
begin

text \<open>
  The stream hooks of \<^verbatim>\<open>web/lib/ws/channels.ts\<close>. A hook instance is a record of the
  variables its effect closes over and of the React state it returns; the socket client is
  passed along, since mounting, unmounting and gap recovery call it. Listener functions are
  identified by a number per hook instance.
\<close>

section \<open>The order book hook\<close>

definition applyDelta :: "(string, string) jmap \<Rightarrow> orderbook_level list \<Rightarrow> (string, string) jmap" where
  "applyDelta book levels = foldl (\<lambda>b (price, qty).
     if qty = ''0'' \<or> num_eq (to_number qty) (Fin 0) then mdelete b price else mset_key b price qty) book levels"

record live_orderbook =
  lo_bids :: "orderbook_level list"
  lo_asks :: "orderbook_level list"
  lo_sequence :: int
  lo_tsNs :: string

record book_hook =
  bh_bids :: "(string, string) jmap"
  bh_asks :: "(string, string) jmap"
  bh_seq :: int
  bh_lastTsNs :: string
  bh_rafScheduled :: bool
  bh_frames :: nat
  bh_stale :: "string list"
  bh_cancelled :: bool
  bh_state :: "live_orderbook option"

text \<open>
  \<open>bh_frames\<close> counts the callbacks handed to \<open>requestAnimationFrame\<close> (or to the microtask
  queue) that have not run. A change of market does not cancel the callback of the previous run
  of the effect: \<open>bh_stale\<close> has, for every such callback still pending, the time stamp its closure
  holds. \<open>ORDERBOOK_REST_POLL_MS\<close> is the poll interval.
\<close>

definition ORDERBOOK_REST_POLL_MS :: nat where
  "ORDERBOOK_REST_POLL_MS = 1500"

definition best_bids :: "(string, string) jmap \<Rightarrow> orderbook_level list" where
  "best_bids b = take 25 (sort_by (\<lambda>x y. to_number (fst y) - to_number (fst x)) b)"

definition best_asks :: "(string, string) jmap \<Rightarrow> orderbook_level list" where
  "best_asks b = take 25 (sort_by (\<lambda>x y. to_number (fst x) - to_number (fst y)) b)"

definition flush :: "book_hook \<Rightarrow> book_hook" where
  "flush h = h\<lparr>bh_rafScheduled := False, bh_frames := bh_frames h - 1,
     bh_state := Some \<lparr>lo_bids = best_bids (bh_bids h), lo_asks = best_asks (bh_asks h),
       lo_sequence = bh_seq h, lo_tsNs = bh_lastTsNs h\<rparr>\<rparr>"

text \<open>The \<open>flush\<close> of an earlier run of the effect: its own flag and stamp, but the shared refs.\<close>

definition flush_stale :: "book_hook \<Rightarrow> book_hook" where
  "flush_stale h = (case bh_stale h of [] \<Rightarrow> h
     | ts # rest \<Rightarrow> h\<lparr>bh_stale := rest,
         bh_state := Some \<lparr>lo_bids = best_bids (bh_bids h), lo_asks = best_asks (bh_asks h),
           lo_sequence = bh_seq h, lo_tsNs = ts\<rparr>\<rparr>)"

definition scheduleFlush :: "string \<Rightarrow> book_hook \<Rightarrow> book_hook" where
  "scheduleFlush tsNs h = (let h1 = h\<lparr>bh_lastTsNs := tsNs\<rparr> in
     if bh_rafScheduled h1 then h1
     else h1\<lparr>bh_rafScheduled := True, bh_frames := bh_frames h1 + 1\<rparr>)"

definition book_channel :: "market_id \<Rightarrow> string" where
  "book_channel mid = ''orderbook.'' @ market_id_str mid"

text \<open>The listener. A message without a channel, or of another one, is ignored.\<close>

fun message_channel :: "ws_message \<Rightarrow> string option" where
  "message_channel (Snapshot b) = Some (wb_channel b)"
| "message_channel (Delta b) = Some (wb_channel b)"
| "message_channel (Trade t) = Some (wt_channel t)"
| "message_channel (Oracle o') = Some (wo_channel o')"
| "message_channel (Funding f) = Some (wf_channel f)"
| "message_channel (Account a) = None"
| "message_channel (Ping ts) = None"

definition on_book_message :: "market_id \<Rightarrow> ws_message \<Rightarrow> book_hook \<times> ws_client \<Rightarrow> book_hook \<times> ws_client" where
  "on_book_message mid m hc = (case hc of (h, c) \<Rightarrow>
     if message_channel m \<noteq> Some (book_channel mid) then (h, c)
     else case m of
       Snapshot s \<Rightarrow> (scheduleFlush (wb_tsNs s)
         (h\<lparr>bh_bids := map_from (wb_bids s), bh_asks := map_from (wb_asks s), bh_seq := wb_sequence s\<rparr>), c)
     | Delta d \<Rightarrow>
         if wb_sequence d \<noteq> bh_seq h + 1 \<and> bh_seq h \<noteq> 0
         then (h, subscribe (book_channel mid) (unsubscribe (book_channel mid) c))
         else (scheduleFlush (wb_tsNs d)
           (h\<lparr>bh_bids := applyDelta (bh_bids h) (wb_bids d), bh_asks := applyDelta (bh_asks h) (wb_asks d),
              bh_seq := wb_sequence d\<rparr>), c)
     | _ \<Rightarrow> (h, c))"

text \<open>The answer of the REST poll; \<open>None\<close> is a rejected request.\<close>

definition seedFromRest :: "market_id \<Rightarrow> orderbook_snapshot option \<Rightarrow> book_hook \<Rightarrow> book_hook" where
  "seedFromRest mid answer h = (case answer of None \<Rightarrow> h
     | Some snap \<Rightarrow> if bh_cancelled h \<or> ob_marketId snap \<noteq> mid then h
         else scheduleFlush (ob_tsNs snap)
           (h\<lparr>bh_bids := map_from (ob_bids snap), bh_asks := map_from (ob_asks snap), bh_seq := ob_sequence snap\<rparr>))"

text \<open>
  The effect on mounting or on a change of market, given the stamps of the callbacks still
  pending from its earlier runs, and its cleanup. The React state is not touched: the ladder of
  the previous market stays until the first flush.
\<close>

definition mount_book :: "nat \<Rightarrow> market_id \<Rightarrow> string list \<Rightarrow> live_orderbook option \<Rightarrow> ws_client \<Rightarrow> book_hook \<times> ws_client" where
  "mount_book fn mid stale state c =
     (\<lparr>bh_bids = [], bh_asks = [], bh_seq = 0, bh_lastTsNs = ''0'', bh_rafScheduled = False,
       bh_frames = 0, bh_stale = stale, bh_cancelled = False, bh_state = state\<rparr>,
      subscribe (book_channel mid) (on fn c))"

definition unmount_book :: "nat \<Rightarrow> market_id \<Rightarrow> book_hook \<times> ws_client \<Rightarrow> book_hook \<times> ws_client" where
  "unmount_book fn mid hc = (case hc of (h, c) \<Rightarrow>
     (h\<lparr>bh_cancelled := True\<rparr>, off fn (unsubscribe (book_channel mid) c)))"

section \<open>The trade, oracle, funding and account hooks\<close>

definition on_trade_message :: "nat \<Rightarrow> market_id \<Rightarrow> ws_message \<Rightarrow> ws_trade list \<Rightarrow> ws_trade list" where
  "on_trade_message maxn mid m prev = (case m of
       Trade t \<Rightarrow> if wt_channel t = ''trades.'' @ market_id_str mid then take maxn (t # prev) else prev
     | _ \<Rightarrow> prev)"

definition on_oracle_message :: "market_id \<Rightarrow> ws_message \<Rightarrow> ws_oracle option \<Rightarrow> ws_oracle option" where
  "on_oracle_message mid m prev = (case m of
       Oracle o' \<Rightarrow> if wo_channel o' = ''oracle.'' @ market_id_str mid then Some o' else prev
     | _ \<Rightarrow> prev)"

definition on_funding_message :: "market_id \<Rightarrow> ws_message \<Rightarrow> ws_funding option \<Rightarrow> ws_funding option" where
  "on_funding_message mid m prev = (case m of
       Funding f \<Rightarrow> if wf_channel f = ''funding.'' @ market_id_str mid then Some f else prev
     | _ \<Rightarrow> prev)"

text \<open>Mounting the hook of a plain stream: reset, listen, subscribe; and its cleanup.\<close>

definition mount_stream :: "string \<Rightarrow> nat \<Rightarrow> market_id \<Rightarrow> ws_client \<Rightarrow> ws_client" where
  "mount_stream topic fn mid c = subscribe (topic @ ''.'' @ market_id_str mid) (on fn c)"

definition unmount_stream :: "string \<Rightarrow> nat \<Rightarrow> market_id \<Rightarrow> ws_client \<Rightarrow> ws_client" where
  "unmount_stream topic fn mid c = off fn (unsubscribe (topic @ ''.'' @ market_id_str mid) c)"

definition useLiveTrades :: "nat \<Rightarrow> market_id \<Rightarrow> nat \<Rightarrow> ws_client \<Rightarrow> ws_trade list \<times> ws_client" where
  "useLiveTrades fn mid maxn c = ([], mount_stream ''trades'' fn mid c)"

definition useLiveOracle :: "nat \<Rightarrow> market_id \<Rightarrow> ws_client \<Rightarrow> ws_oracle option \<times> ws_client" where
  "useLiveOracle fn mid c = (None, mount_stream ''oracle'' fn mid c)"

definition useLiveFunding :: "nat \<Rightarrow> market_id \<Rightarrow> ws_client \<Rightarrow> ws_funding option \<times> ws_client" where
  "useLiveFunding fn mid c = (None, mount_stream ''funding'' fn mid c)"

text \<open>\<open>useAccountStream\<close>: the handler sees the account messages, in order.\<close>

definition useAccountStream :: "nat \<Rightarrow> string option \<Rightarrow> ws_client \<Rightarrow> ws_client" where
  "useAccountStream fn wallet c = (case wallet of
       Some (w # ws) \<Rightarrow> subscribe (''account.'' @ to_lower (w # ws)) (on fn c)
     | _ \<Rightarrow> c)"

definition account_messages :: "ws_message list \<Rightarrow> ws_account list" where
  "account_messages ms = List.map_filter (\<lambda>m. case m of Account a \<Rightarrow> Some a | _ \<Rightarrow> None) ms"

section \<open>Lemmas\<close>

subsection \<open>A delta is a replay of changes\<close>

definition zero_qty :: "string \<Rightarrow> bool" where
  "zero_qty q = (q = ''0'' \<or> num_eq (to_number q) (Fin 0))"

definition level_change :: "orderbook_level \<Rightarrow> (string, string) change" where
  "level_change l = (fst l, if zero_qty (snd l) then None else Some (snd l))"

lemma applyDelta_replay:
  "applyDelta b ls = foldl (\<lambda>m (k, c). case c of None \<Rightarrow> mdelete m k | Some v \<Rightarrow> mset_key m k v) b (map level_change ls)"
  by (induction ls arbitrary: b) (auto simp: applyDelta_def level_change_def zero_qty_def)

lemma applyDelta_wf: "map_wf b \<Longrightarrow> map_wf (applyDelta b ls)"
  unfolding applyDelta_replay by (rule jm.replay_ok)

lemma applyDelta_get:
  "map_wf b \<Longrightarrow> mget (applyDelta b ls) k =
     (case last_change (map level_change ls) k of None \<Rightarrow> mget b k | Some c \<Rightarrow> c)"
  unfolding applyDelta_replay by (rule jm.replay_get)

lemma last_change_find:
  "last_change (map level_change ls) k = map_option (snd \<circ> level_change) (find (\<lambda>l. fst l = k) (rev ls))"
proof (induction ls)
  case (Cons l ls)
  have app: "find P (xs @ ys) = (case find P xs of Some x \<Rightarrow> Some x | None \<Rightarrow> find P ys)" for P :: "orderbook_level \<Rightarrow> bool" and xs ys
    by (induction xs) auto
  obtain k' c where l: "level_change l = (k', c)" by (cases "level_change l")
  then have "fst l = k'" by (auto simp: level_change_def)
  then show ?case by (auto simp: Cons.IH app l split: option.splits)
qed simp

subsection \<open>The hook between two frames\<close>

datatype hook_event = Msg ws_message | Rest "orderbook_snapshot option" | Paint | StalePaint

definition hook_step :: "market_id \<Rightarrow> book_hook \<times> ws_client \<Rightarrow> hook_event \<Rightarrow> book_hook \<times> ws_client" where
  "hook_step mid hc e = (case e of
       Msg m \<Rightarrow> on_book_message mid m hc
     | Rest r \<Rightarrow> (seedFromRest mid r (fst hc), snd hc)
     | Paint \<Rightarrow> if bh_frames (fst hc) = 0 then hc else (flush (fst hc), snd hc)
     | StalePaint \<Rightarrow> (flush_stale (fst hc), snd hc))"

definition hook_inv :: "book_hook \<Rightarrow> bool" where
  "hook_inv h = (map_wf (bh_bids h) \<and> map_wf (bh_asks h) \<and>
     bh_frames h = (if bh_rafScheduled h then 1 else 0))"

lemma hook_inv_schedule:
  "hook_inv h \<Longrightarrow> map_wf b \<Longrightarrow> map_wf a \<Longrightarrow>
   hook_inv (scheduleFlush t (h\<lparr>bh_bids := b, bh_asks := a, bh_seq := n\<rparr>))"
  by (simp add: hook_inv_def scheduleFlush_def Let_def)

lemma hook_inv_step: "hook_inv (fst hc) \<Longrightarrow> hook_inv (fst (hook_step mid hc e))"
proof -
  assume inv: "hook_inv (fst hc)"
  obtain h c where hc: "hc = (h, c)" by (cases hc)
  have wf: "map_wf (bh_bids h)" "map_wf (bh_asks h)" using inv by (simp_all add: hc hook_inv_def)
  have f: "hook_inv (flush h)" "hook_inv (flush_stale h)"
    using inv by (simp_all add: hc flush_def flush_stale_def hook_inv_def split: list.split)
  show ?thesis
    using inv wf f hook_inv_schedule [of h]
    by (auto simp: hook_step_def on_book_message_def seedFromRest_def hc applyDelta_wf
        split: hook_event.split ws_message.split option.split)
qed

lemma hook_inv_run: "hook_inv (fst hc) \<Longrightarrow> hook_inv (fst (foldl (hook_step mid) hc es))"
  by (induction es arbitrary: hc) (simp_all add: hook_inv_step)

lemma hook_inv_mount: "hook_inv (fst (mount_book fn mid stale st c))"
  by (simp add: mount_book_def hook_inv_def)

subsection \<open>The painted ladder\<close>

lemma best_bids_best:
  "\<forall>l\<in>set b. price_ok (fst l) \<Longrightarrow> best_of (\<lambda>l. - num_key (fst l)) 25 b (best_bids b)"
  unfolding best_bids_def by (rule best_of_take_sort [OF orders_desc])

lemma best_asks_best:
  "\<forall>l\<in>set b. price_ok (fst l) \<Longrightarrow> best_of (\<lambda>l. num_key (fst l)) 25 b (best_asks b)"
  unfolding best_asks_def using best_of_take_sort [OF orders_asc [of "set b" fst]] by (simp add: comp_def)

section \<open>Properties\<close>

text \<open>
  C6. Applying a delta: the level of a price is decided by the last entry of the delta for
  that price (absent when its quantity is zero, else that quantity) and is untouched when
  the delta has no entry for it; prices stay unique keys.
\<close>

theorem delta_last_entry_wins:
  assumes "map_wf book"
  shows "mget (applyDelta book levels) p =
      (case find (\<lambda>l. fst l = p) (rev levels) of
         None \<Rightarrow> mget book p
       | Some (p', q) \<Rightarrow> if q = ''0'' \<or> num_eq (to_number q) (Fin 0) then None else Some q)
    \<and> map_wf (applyDelta book levels)"
  using applyDelta_get [OF assms, of levels p] applyDelta_wf [OF assms, of levels]
  by (auto simp: last_change_find level_change_def zero_qty_def split: option.splits)

theorem delta_last_entry_wins_witness:
  "mget (applyDelta [(''10.0'', ''1''), (''9.5'', ''2'')] [(''9.5'', ''0''), (''9.5'', ''3''), (''10.0'', ''0'')]) ''9.5'' = Some ''3''"
  using delta_last_entry_wins [of "[(''10.0'', ''1''), (''9.5'', ''2'')]"
      "[(''9.5'', ''0''), (''9.5'', ''3''), (''10.0'', ''0'')]" "''9.5''"]
  by (simp add: map_wf_def read_literal num_eq_def flo_of_int [of 3, simplified])

text \<open>
  C5. Coalescing: whatever stream messages, REST answers and paints a mounted book hook sees,
  at most one paint callback of this mount is pending, and when a pending one runs, of this or of
  an earlier mount of the hook, it publishes the current sequence number and, where all prices
  are finite numbers, the 25 best bids (descending) and asks (ascending) of the current book,
  none better left out.
\<close>

theorem hook_paints_best_of_latest:
  assumes "foldl (hook_step mid) (mount_book fn mid stale st c) es = (h, c')"
    and "\<forall>l\<in>set (bh_bids h) \<union> set (bh_asks h). price_ok (fst l)"
  shows "bh_frames h \<le> 1 \<and>
    (bh_frames h = 1 \<longrightarrow> (\<exists>s. fst (hook_step mid (h, c') Paint) = h\<lparr>bh_rafScheduled := False, bh_frames := 0, bh_state := Some s\<rparr>
       \<and> lo_sequence s = bh_seq h
       \<and> best_of (\<lambda>l. - num_key (fst l)) 25 (bh_bids h) (lo_bids s)
       \<and> best_of (\<lambda>l. num_key (fst l)) 25 (bh_asks h) (lo_asks s))) \<and>
    (bh_stale h \<noteq> [] \<longrightarrow> (\<exists>s. fst (hook_step mid (h, c') StalePaint) = h\<lparr>bh_stale := tl (bh_stale h), bh_state := Some s\<rparr>
       \<and> lo_sequence s = bh_seq h
       \<and> best_of (\<lambda>l. - num_key (fst l)) 25 (bh_bids h) (lo_bids s)
       \<and> best_of (\<lambda>l. num_key (fst l)) 25 (bh_asks h) (lo_asks s)))"
proof -
  have "hook_inv h" using hook_inv_run [OF hook_inv_mount [of fn mid stale st c], of mid es] assms(1) by simp
  then show ?thesis
    using best_bids_best [of "bh_bids h"] best_asks_best [of "bh_asks h"] assms(2)
    by (auto simp: hook_inv_def hook_step_def flush_def flush_stale_def neq_Nil_conv)
qed

definition demo_hook :: book_hook where
  "demo_hook = \<lparr>bh_bids = [], bh_asks = [], bh_seq = 5, bh_lastTsNs = ''0'', bh_rafScheduled = False,
     bh_frames = 0, bh_stale = [], bh_cancelled = False, bh_state = None\<rparr>"

definition demo_delta :: "int \<Rightarrow> ws_book" where
  "demo_delta n = \<lparr>wb_channel = ''orderbook.btc-usd'', wb_sequence = n, wb_bids = [(''99.9'', ''1'')],
     wb_asks = [], wb_tsNs = ''7''\<rparr>"

lemma price_ok_999: "price_ok ''99.9''"
proof -
  have "to_number ''99.9'' = flo (999/10)" by (simp add: read_literal)
  moreover have "bnd 100 (flo (999/10))" by (rule bnd_flo) simp_all
  ultimately show ?thesis unfolding price_ok_def using bnd_finite by simp
qed

theorem hook_paints_best_of_latest_witness:
  "\<exists>h c'. foldl (hook_step BtcUsd) (mount_book 1 BtcUsd [''3''] None demo_client) [Msg (Snapshot (demo_delta 4))] = (h, c') \<and>
     bh_frames h = 1 \<and> (\<exists>s. bh_state (fst (hook_step BtcUsd (h, c') Paint)) = Some s \<and> lo_sequence s = 4) \<and>
     (\<exists>s. bh_state (fst (hook_step BtcUsd (h, c') StalePaint)) = Some s \<and> lo_sequence s = 4)"
proof -
  let ?h = "\<lparr>bh_bids = [(''99.9'', ''1'')], bh_asks = [], bh_seq = 4, bh_lastTsNs = ''7'', bh_rafScheduled = True,
     bh_frames = 1, bh_stale = [''3''], bh_cancelled = False, bh_state = None\<rparr>"
  let ?c = "subscribe (book_channel BtcUsd) (on 1 demo_client)"
  have e: "foldl (hook_step BtcUsd) (mount_book 1 BtcUsd [''3''] None demo_client) [Msg (Snapshot (demo_delta 4))] = (?h, ?c)"
    by (simp add: hook_step_def on_book_message_def mount_book_def demo_delta_def book_channel_def
        scheduleFlush_def map_from_def)
  show ?thesis using hook_paints_best_of_latest [OF e] e by (auto simp: price_ok_999)
qed

text \<open>
  C7. A sequence gap is never applied: the hook's book and sequence stay as they are, the
  channel stays subscribed, and on an open connection the unsubscribe and subscribe frames
  that ask the server for a fresh snapshot leave in this order.
\<close>

theorem gap_keeps_book_and_resubscribes:
  assumes "wb_channel d = book_channel mid" "wb_sequence d \<noteq> bh_seq h + 1" "bh_seq h \<noteq> 0"
    and "book_channel mid \<in> set (wc_subs c)" "wc_ws c = Some i" "sock_state c i = Open"
  shows "\<exists>c'. on_book_message mid (Delta d) (h, c) = (h, c') \<and> set (wc_subs c') = set (wc_subs c) \<and>
    sent_on c' i = sent_on c i @ [Unsubscribe (book_channel mid), Subscribe (book_channel mid)]"
  using assms
  by (auto simp: on_book_message_def subscribe_def unsubscribe_def send_def sock_simps)

theorem gap_keeps_book_and_resubscribes_witness:
  "let c = subscribe ''orderbook.btc-usd'' (onopen 0 demo_client) in
   \<exists>c'. on_book_message BtcUsd (Delta (demo_delta 9)) (demo_hook, c) = (demo_hook, c') \<and>
     set (wc_subs c') = {''orderbook.btc-usd''} \<and>
     sent_on c' 0 = sent_on c 0 @ [Unsubscribe ''orderbook.btc-usd'', Subscribe ''orderbook.btc-usd'']"
  using gap_keeps_book_and_resubscribes [of "demo_delta 9" BtcUsd demo_hook
      "subscribe ''orderbook.btc-usd'' (onopen 0 demo_client)" 0]
  by (simp add: demo_delta_def demo_hook_def book_channel_def subscribe_def send_def demo_client_def
      connect_def new_client_def sock_state_def onopen_def Let_def set_sock_state_def sock_send_def
      open_frames_def sadd_def)

text \<open>
  Subscriptions are not counted per hook: when two mounted hooks follow the same market's
  oracle stream and one of them unmounts, the client is no longer subscribed although the
  other hook still listens, and a server that follows the frames stops sending it prices.
\<close>

theorem shared_stream_lost_on_unmount:
  assumes "ws_reachable c" "wc_ws c = Some i" "sock_state c i = Open" "fn \<noteq> fn'"
  shows "let ch = ''oracle.'' @ market_id_str mid;
             d = unmount_stream ''oracle'' fn' mid (snd (useLiveOracle fn' mid (snd (useLiveOracle fn mid c))))
         in fn \<in> set (wc_listeners d) \<and> ch \<notin> set (wc_subs d) \<and> ch \<notin> net_subs {} (sent_on d i)"
proof -
  let ?ch = "''oracle.'' @ market_id_str mid"
  let ?c1 = "subscribe ?ch (on fn' (subscribe ?ch (on fn c)))"
  let ?d = "off fn' (unsubscribe ?ch ?c1)"
  have "ws_reachable ?d" using assms(1) by (intro rc_step [OF _ st_off] rc_step [OF _ st_unsubscribe]
      rc_step [OF _ st_subscribe] rc_step [OF _ st_on])
  then have inv: "ws_inv ?d" by (rule ws_reachable_inv)
  have ws: "wc_ws ?d = Some i" "sock_state ?d i = Open"
    using assms(2,3) by (auto simp: off_def on_def subscribe_def unsubscribe_def send_def sock_simps)
  have subs: "?ch \<notin> set (wc_subs ?d)" "fn \<in> set (wc_listeners ?d)"
    using assms(2-4) by (auto simp: off_def on_def subscribe_def unsubscribe_def send_def sock_simps)
  have "net_subs {} (sent_on ?d i) = set (wc_subs ?d) - {[]}" using inv ws by (simp add: ws_inv_def)
  then show ?thesis
    using subs by (simp add: useLiveOracle_def unmount_stream_def mount_stream_def Let_def)
qed

theorem shared_stream_lost_on_unmount_witness:
  "let d = unmount_stream ''oracle'' 2 BtcUsd (snd (useLiveOracle 2 BtcUsd (snd (useLiveOracle 1 BtcUsd (onopen 0 demo_client)))))
   in (1::nat) \<in> set (wc_listeners d) \<and> ''oracle.btc-usd'' \<notin> set (wc_subs d)"
proof -
  have r: "ws_reachable (onopen 0 demo_client)" by (rule rc_step [OF demo_reachable st_open [OF demo_connecting]])
  have w: "wc_ws (onopen 0 demo_client) = Some 0" "sock_state (onopen 0 demo_client) 0 = Open"
    by (simp_all add: demo_client_def connect_def new_client_def sock_state_def onopen_def Let_def
        set_sock_state_def sock_send_def open_frames_def)
  show ?thesis using shared_stream_lost_on_unmount [OF r w, of 1 2 BtcUsd] by (simp add: Let_def)
qed

end
