(* ===== verification/Lockstep.thy ===== *)
theory Lockstep
  imports MockWs LiveBook
begin

text \<open>
  The mock exchange and the order book hook together: the server of \<open>MockWs\<close> pushes frames to
  its connections, the hook of \<open>LiveBook\<close> reads them in order. The theory shows that the
  server's own change of a book is the delta it broadcasts, so that a hook seeded by the
  snapshot of its subscription follows the server tick by tick.
\<close>

section \<open>Composition\<close>

text \<open>The frames that reach connection \<open>i\<close> between two states of the server, read by the hook.\<close>

definition new_frames :: "nat \<Rightarrow> mock_server \<Rightarrow> mock_server \<Rightarrow> ws_message list" where
  "new_frames i sv sv' = map snd (filter (\<lambda>f. fst f = i) (drop (length (sr_sent sv)) (sr_sent sv')))"

definition deliver :: "nat \<Rightarrow> market_id \<Rightarrow> mock_server \<Rightarrow> mock_server \<Rightarrow> book_hook \<times> ws_client \<Rightarrow> book_hook \<times> ws_client" where
  "deliver i mid sv sv' hc = foldl (\<lambda>hc m. on_book_message mid m hc) hc (new_frames i sv sv')"

text \<open>A tick of the simulation: the market, the drift draw, the three book draws, the clock.\<close>

type_synonym sim_tick = "market_id \<times> number \<times> (book_draw \<times> book_draw \<times> book_draw) \<times> int"

fun tick_ok :: "sim_tick \<Rightarrow> bool" where
  "tick_ok (mid, r, (d0, d1, d2), now) = (draw r \<and> book_draw_ok d0 \<and> book_draw_ok d1 \<and> book_draw_ok d2)"

fun follow :: "nat \<Rightarrow> market_id \<Rightarrow> sim_tick list \<Rightarrow> mock_server \<times> book_hook \<times> ws_client \<Rightarrow> mock_server \<times> book_hook \<times> ws_client" where
  "follow i mid [] s = s"
| "follow i mid ((mid', r, ds, now) # ticks) (sv, hc) =
     (let sv' = tick_book mid' r ds now sv in follow i mid ticks (sv', deliver i mid sv sv' hc))"

section \<open>The delta of a tick is the change of the book\<close>

lemma applyDelta_append: "applyDelta b (xs @ ys) = applyDelta (applyDelta b xs) ys"
  by (simp add: applyDelta_replay)

lemma applyDelta_zero: "applyDelta b [(p, ''0'')] = mdelete b p"
  by (simp add: applyDelta_replay level_change_def zero_qty_def)

lemma qty_not_zero: "qty_ok q \<Longrightarrow> \<not> zero_qty q"
proof
  assume q: "qty_ok q" "zero_qty q"
  have "to_number ''0'' = Fin 0" by (simp add: read_literal)
  with q show False by (auto simp: qty_ok_def zero_qty_def num_eq_def split: number.splits)
qed

lemma applyDelta_qty: "qty_ok q \<Longrightarrow> applyDelta b [(p, q)] = mset_key b p q"
  using qty_not_zero by (simp add: applyDelta_replay level_change_def)

definition replays :: "(string, string) jmap \<Rightarrow> (string, string) jmap \<Rightarrow> book_acc \<Rightarrow> bool" where
  "replays B A b = (ba_bids b = applyDelta B (ba_dbids b) \<and> ba_asks b = applyDelta A (ba_dasks b))"

lemma replays_step:
  assumes "replays B A b" "book_draw_ok d" "2 \<le> lotDec" "lotDec \<le> 4"
  shows "replays B A (mutate_one a tick tickDec lotDec b d)"
proof -
  obtain rb ro rr rq where d: "d = (rb, ro, rr, rq)" by (cases d)
  have "qty_ok (to_fixed (rq * Fin 2 + lit (5/100)) lotDec)" using assms(2-4) by (intro draw_qty) (simp_all add: d)
  then show ?thesis
    using assms(1) by (auto simp: replays_def mutate_one_def d Let_def applyDelta_append applyDelta_zero applyDelta_qty)
qed

lemma replays_fold:
  "replays B A b \<Longrightarrow> list_all book_draw_ok ds \<Longrightarrow> 2 \<le> lotDec \<Longrightarrow> lotDec \<le> 4 \<Longrightarrow>
   replays B A (foldl (mutate_one a tick tickDec lotDec) b ds)"
  by (induction ds arbitrary: b) (simp_all add: replays_step)

lemma mutate_market_replays:
  assumes "market_ok m" "list_all book_draw_ok ds" "mutate_market m r ds = (m', b)"
  shows "ms_bids m' = applyDelta (ms_bids m) (ba_dbids b)" "ms_asks m' = applyDelta (ms_asks m) (ba_dasks b)"
    "ms_sequence m' = ms_sequence m + 1"
proof -
  have l: "2 \<le> decFromStep (mk_lotSize (ms_market m))" "decFromStep (mk_lotSize (ms_market m)) \<le> 4"
    using assms(1) lot_decimals by (auto simp: market_ok_def)
  have "replays (ms_bids m) (ms_asks m) \<lparr>ba_bids = ms_bids m, ba_asks = ms_asks m, ba_dbids = [], ba_dasks = []\<rparr>"
    by (simp add: replays_def applyDelta_replay)
  from replays_fold [OF this assms(2) l]
  show "ms_bids m' = applyDelta (ms_bids m) (ba_dbids b)" "ms_asks m' = applyDelta (ms_asks m) (ba_dasks b)"
    "ms_sequence m' = ms_sequence m + 1"
    using assms(3) by (auto simp: mutate_market_def Let_def replays_def)
qed

section \<open>A hook that follows\<close>

text \<open>
  \<open>known_part\<close>: the hook's side has the server's level at every price, except that it may
  lack a level that was beyond the snapshot and has not changed since.
\<close>

definition known_part :: "(string, string) jmap \<Rightarrow> orderbook_level list \<Rightarrow> (string, string) jmap \<Rightarrow> (string, string) jmap \<Rightarrow> bool" where
  "known_part old snap server hook =
     (\<forall>p. mget hook p = mget server p \<or> (mget hook p = None \<and> mget server p = mget old p \<and> p \<notin> fst ` set snap))"

lemma known_part_delta:
  assumes "known_part old snap server hook" "map_wf server" "map_wf hook"
  shows "known_part old snap (applyDelta server ls) (applyDelta hook ls)"
  using assms unfolding known_part_def by (simp add: applyDelta_get split: option.split)

lemma known_part_snapshot:
  assumes "map_wf old" "mset snap \<subseteq># mset old"
  shows "known_part old snap old (map_from snap)"
proof -
  have sub: "set snap \<subseteq> set old" using assms(2) by (rule set_mset_mono [of "mset snap" "mset old", simplified])
  obtain rest where "mset old = mset snap + mset rest"
    using assms(2) by (metis ex_mset mset_subset_eq_exists_conv)
  then have "mset (map fst old) = mset (map fst (snap @ rest))" by simp
  then have "distinct (map fst (snap @ rest))"
    using assms(1) mset_eq_imp_distinct_iff unfolding map_wf_def by blast
  then have d: "distinct (map fst snap)" by simp
  have "mget (map_from snap) p = mget old p" if "p \<in> fst ` set snap" for p
  proof -
    from that obtain q where q: "(p, q) \<in> set snap" by auto
    then have "map_of snap p = Some q" using d by simp
    moreover have "mget old p = Some q" using q sub assms(1) by (auto simp: mget_mem)
    ultimately show ?thesis by (simp add: mget_from_distinct [OF d])
  qed
  moreover have "mget (map_from snap) p = None" if "p \<notin> fst ` set snap" for p
    using that by (simp add: mget_from_distinct [OF d] map_of_eq_None_iff del: mget_None_iff)
  ultimately show ?thesis unfolding known_part_def by blast
qed

definition in_step :: "nat \<Rightarrow> market_id \<Rightarrow> market_state \<Rightarrow> orderbook_snapshot \<Rightarrow> mock_server \<Rightarrow> book_hook \<Rightarrow> bool" where
  "in_step i mid m0 snap sv h =
     (mock_ok (sr_data sv) \<and> i \<in> set (sr_clients sv) \<and> distinct (sr_clients sv) \<and> book_channel mid \<in> set (subs_for i sv) \<and>
      map_wf (bh_bids h) \<and> map_wf (bh_asks h) \<and>
      (\<exists>m. mget (st_markets (sr_data sv)) mid = Some m \<and> bh_seq h = ms_sequence m \<and>
         known_part (ms_bids m0) (ob_bids snap) (ms_bids m) (bh_bids h) \<and>
         known_part (ms_asks m0) (ob_asks snap) (ms_asks m) (bh_asks h)))"

lemma broadcast_frames:
  assumes "distinct (sr_clients sv)"
  shows "new_frames i sv (broadcast P m (sv\<lparr>sr_data := st\<rparr>)) =
    (if i \<in> set (sr_clients sv) \<and> list_ex P (subs_for i sv) then [m] else [])"
proof -
  have "map snd (filter (\<lambda>f. fst f = i) (map (\<lambda>j. (j, m)) (filter Q xs))) = (if i \<in> set xs \<and> Q i then [m] else [])"
    if "distinct xs" for Q and xs :: "nat list"
    using that by (induction xs) auto
  from this [OF assms] show ?thesis by (simp add: new_frames_def broadcast_def subs_for_def)
qed

lemma scheduleFlush_fields [simp]:
  "bh_bids (scheduleFlush t h) = bh_bids h" "bh_asks (scheduleFlush t h) = bh_asks h" "bh_seq (scheduleFlush t h) = bh_seq h"
  by (simp_all add: scheduleFlush_def Let_def)

lemma channel_eq: "channel_of ''orderbook'' mid' = book_channel mid \<longleftrightarrow> mid' = mid"
  by (cases mid; cases mid') (simp_all add: channel_of_def book_channel_def)

lemma in_step_tick:
  assumes st: "in_step i mid m0 snap sv h" and ok: "tick_ok (mid', r, ds, now)"
  shows "\<exists>h'. deliver i mid sv (tick_book mid' r ds now sv) (h, c) = (h', c) \<and>
    in_step i mid m0 snap (tick_book mid' r ds now sv) h'"
proof -
  obtain d0 d1 d2 where ds: "ds = (d0, d1, d2)" by (cases ds)
  have dr: "draw r" "list_all book_draw_ok [d0, d1, d2]" using ok by (simp_all add: ds)
  from st have mo: "mock_ok (sr_data sv)" by (simp add: in_step_def)
  obtain n where n: "get_market (sr_data sv) mid' = Return n" "market_ok n" "mget (st_markets (sr_data sv)) mid' = Some n"
    using mock_ok_get [OF mo] by blast
  obtain n' b where nb: "mutate_market n r [d0, d1, d2] = (n', b)" by (cases "mutate_market n r [d0, d1, d2]")
  note rep = mutate_market_replays [OF n(2) dr(2) nb]
  let ?msg = "Delta \<lparr>wb_channel = channel_of ''orderbook'' mid', wb_sequence = ms_sequence n',
      wb_bids = ba_dbids b, wb_asks = ba_dasks b, wb_tsNs = nsStr (nowNs now)\<rparr>"
  let ?sv = "broadcast (\<lambda>ch. ch = channel_of ''orderbook'' mid') ?msg (sv\<lparr>sr_data := put_market mid' n' (sr_data sv)\<rparr>)"
  have tb: "tick_book mid' r ds now sv = ?sv"
    by (simp add: tick_book_def mutateBook_def ds n(1) nb)
  have mo': "mock_ok (sr_data ?sv)"
    using mutate_market_ok [OF n(2) dr] nb mo by (simp add: mock_ok_put)
  have fr: "new_frames i sv ?sv = (if list_ex (\<lambda>ch. ch = channel_of ''orderbook'' mid') (subs_for i sv) then [?msg] else [])"
    using st by (subst broadcast_frames) (auto simp: in_step_def)
  have subs: "subs_for i ?sv = subs_for i sv" by (simp add: subs_for_def)
  show ?thesis
  proof (cases "mid' = mid")
    case True
    then have "new_frames i sv ?sv = [?msg]" using st fr channel_eq [of mid mid] by (auto simp: in_step_def list_ex_iff)
    then have dl: "deliver i mid sv ?sv (h, c) = on_book_message mid ?msg (h, c)" by (simp add: deliver_def)
    from st True n(3) have sq: "bh_seq h = ms_sequence n" by (auto simp: in_step_def)
    let ?h = "scheduleFlush (nsStr (nowNs now)) (h\<lparr>bh_bids := applyDelta (bh_bids h) (ba_dbids b),
        bh_asks := applyDelta (bh_asks h) (ba_dasks b), bh_seq := ms_sequence n'\<rparr>)"
    have wf: "map_wf (ms_bids n)" "map_wf (ms_asks n)" using n(2) by (auto simp: market_ok_def side_ok_def)
    have "on_book_message mid ?msg (h, c) = (?h, c)"
      using True sq rep(3) by (simp add: on_book_message_def channel_eq)
    moreover have "in_step i mid m0 snap ?sv ?h"
      using st mo' subs True n(3) wf unfolding in_step_def
      by (auto simp: put_market_def rep(1,2) applyDelta_wf intro!: known_part_delta)
    ultimately show ?thesis using tb dl by simp
  next
    case False
    then have "deliver i mid sv ?sv (h, c) = (h, c)"
      unfolding deliver_def fr by (auto simp: on_book_message_def channel_eq)
    moreover have "in_step i mid m0 snap ?sv h"
      using st mo' subs False unfolding in_step_def by (auto simp: put_market_def)
    ultimately show ?thesis using tb by auto
  qed
qed

lemma in_step_follow:
  "in_step i mid m0 snap sv h \<Longrightarrow> list_all tick_ok ticks \<Longrightarrow>
   \<exists>sv' h'. follow i mid ticks (sv, h, c) = (sv', h', c) \<and> in_step i mid m0 snap sv' h'"
proof (induction ticks arbitrary: sv h)
  case (Cons t ticks)
  obtain mid' r ds now where t: "t = (mid', r, ds, now)" by (cases t) auto
  have "tick_ok (mid', r, ds, now)" using Cons.prems(2) by (simp add: t)
  from in_step_tick [OF Cons.prems(1) this, of c] obtain h' where
    "deliver i mid sv (tick_book mid' r ds now sv) (h, c) = (h', c)"
    "in_step i mid m0 snap (tick_book mid' r ds now sv) h'" by blast
  then show ?case using Cons.IH [of "tick_book mid' r ds now sv" h'] Cons.prems(2) by (simp add: t Let_def)
qed simp

lemma book_channel_parts:
  "starts_with (book_channel mid) ''orderbook.''" "market_of_str (slice_from (book_channel mid) 10) = Some mid"
  "book_channel mid \<noteq> []"
  by (cases mid; hypsubst; code_simp)+

lemma in_step_subscribe:
  fixes now :: int
  assumes "mock_ok (sr_data sv)" "i \<in> set (sr_clients sv)" "distinct (sr_clients sv)"
    and "get_market (sr_data sv) mid = Return m0"
  defines "sv1 \<equiv> on_message i now sv (Subscribe (book_channel mid))"
  shows "\<exists>snap h1. snapshotOf (sr_data sv) mid now = Return snap \<and> deliver i mid sv sv1 (h, c) = (h1, c) \<and> in_step i mid m0 snap sv1 h1"
proof -
  have m: "mget (st_markets (sr_data sv)) mid = Some m0" "market_ok m0"
    using assms(4) mock_ok_get [OF assms(1), of mid] by (auto simp: get_market_def split: option.splits)
  obtain snap where snap: "snapshotOf (sr_data sv) mid now = Return snap" "ob_sequence snap = ms_sequence m0"
    "best_of (\<lambda>l. - num_key (fst l)) 50 (ms_bids m0) (ob_bids snap)" "best_of (\<lambda>l. num_key (fst l)) 50 (ms_asks m0) (ob_asks snap)"
    using snapshot_best [OF m(2,1)] by blast
  let ?msg = "Snapshot \<lparr>wb_channel = book_channel mid, wb_sequence = ob_sequence snap, wb_bids = ob_bids snap,
      wb_asks = ob_asks snap, wb_tsNs = ob_tsNs snap\<rparr>"
  let ?svs = "sv\<lparr>sr_subs := mset_key (sr_subs sv) i (sadd (subs_for i sv) (book_channel mid))\<rparr>"
  have "mhas (st_markets (sr_data sv)) mid" using m(1) by (simp add: mhas_def del: mget_None_iff)
  then have sv1: "sv1 = push_frame i ?msg ?svs"
    using snap(1) book_channel_parts [of mid]
    by (simp add: sv1_def on_message_def Let_def del: market_of_str.simps)
  have fr: "new_frames i sv sv1 = [?msg]" by (simp add: sv1 new_frames_def push_frame_def)
  let ?h = "scheduleFlush (ob_tsNs snap) (h\<lparr>bh_bids := map_from (ob_bids snap), bh_asks := map_from (ob_asks snap), bh_seq := ob_sequence snap\<rparr>)"
  have dl: "deliver i mid sv sv1 (h, c) = (?h, c)" by (simp add: deliver_def fr on_book_message_def)
  have kp: "known_part (ms_bids m0) (ob_bids snap) (ms_bids m0) (map_from (ob_bids snap))"
    "known_part (ms_asks m0) (ob_asks snap) (ms_asks m0) (map_from (ob_asks snap))"
    using snap(3,4) m(2) by (auto simp: best_of_def market_ok_def side_ok_def intro!: known_part_snapshot)
  have "in_step i mid m0 snap sv1 ?h"
    using assms(1-3) m(1) snap(2) kp by (simp add: in_step_def sv1 subs_for_def)
  then show ?thesis using snap(1) dl by blast
qed

section \<open>Properties\<close>

text \<open>
  C2. The book hook follows the mock exchange. A connected hook subscribes, reads the snapshot
  the server answers with, and then reads the frames of any number of simulation ticks of any
  markets. At the end it has never asked for a new snapshot, its sequence number is the
  market's, and its book agrees with the server's at every price, except that it may lack
  levels that were not among the 50 best of the snapshot and have not changed since: it never
  shows a level or a quantity the server does not have.
\<close>

theorem hook_follows_exchange:
  assumes "mock_ok (sr_data sv)" "i \<in> set (sr_clients sv)" "distinct (sr_clients sv)"
    and "get_market (sr_data sv) mid = Return m0" "list_all tick_ok ticks"
  shows "\<exists>snap sv' h' m. snapshotOf (sr_data sv) mid now = Return snap \<and>
    follow i mid ticks (let sv1 = on_message i now sv (Subscribe (book_channel mid)) in (sv1, deliver i mid sv sv1 (h, c))) = (sv', h', c) \<and>
    get_market (sr_data sv') mid = Return m \<and> bh_seq h' = ms_sequence m \<and>
    (\<forall>p. mget (bh_bids h') p = mget (ms_bids m) p \<or>
       (mget (bh_bids h') p = None \<and> mget (ms_bids m) p = mget (ms_bids m0) p \<and> p \<notin> fst ` set (ob_bids snap))) \<and>
    (\<forall>p. mget (bh_asks h') p = mget (ms_asks m) p \<or>
       (mget (bh_asks h') p = None \<and> mget (ms_asks m) p = mget (ms_asks m0) p \<and> p \<notin> fst ` set (ob_asks snap)))"
proof -
  let ?sv1 = "on_message i now sv (Subscribe (book_channel mid))"
  obtain snap h1 where 1: "snapshotOf (sr_data sv) mid now = Return snap" "deliver i mid sv ?sv1 (h, c) = (h1, c)"
    "in_step i mid m0 snap ?sv1 h1" using in_step_subscribe [OF assms(1-4)] by blast
  obtain sv' h' where 2: "follow i mid ticks (?sv1, h1, c) = (sv', h', c)" "in_step i mid m0 snap sv' h'"
    using in_step_follow [OF 1(3) assms(5)] by blast
  then show ?thesis using 1(1,2) by (auto simp: in_step_def known_part_def get_market_def Let_def)
qed

definition half_draws :: "book_draw \<times> book_draw \<times> book_draw" where
  "half_draws = (let h = Fin (1/2) in ((h, h, h, h), (h, h, h, h), (h, h, h, h)))"

lemma draw_half: "draw (Fin (1/2))"
  unfolding draw_def by (intro exI [of _ "1/2"]) simp

theorem hook_follows_exchange_witness:
  "let sv = on_connection 0 (new_server (STATE (\<lambda>_ _. Fin (1/2)) (\<lambda>_ _. 0) 0));
       sv1 = on_message 0 0 sv (Subscribe (book_channel EthUsd))
   in \<exists>sv' h' m. follow 0 EthUsd [(EthUsd, Fin (1/2), half_draws, 1), (BtcUsd, Fin (1/2), half_draws, 2)]
          (sv1, deliver 0 EthUsd sv sv1 (demo_hook, demo_client)) = (sv', h', demo_client) \<and>
        get_market (sr_data sv') EthUsd = Return m \<and> bh_seq h' = ms_sequence m"
proof -
  let ?st = "STATE (\<lambda>_ _. Fin (1/2)) (\<lambda>_ _. 0) 0"
  let ?sv = "on_connection 0 (new_server ?st)"
  have ok: "mock_ok ?st" by (rule mock_ok_STATE) (rule draw_half)
  have sv: "sr_data ?sv = ?st" "sr_clients ?sv = [0]"
    by (simp_all add: on_connection_def new_server_def sadd_def)
  obtain m0 where m0: "get_market ?st EthUsd = Return m0" using mock_ok_get [OF ok] by blast
  have tk: "list_all tick_ok [(EthUsd, Fin (1/2), half_draws, 1), (BtcUsd, Fin (1/2), half_draws, 2)]"
    using draw_half by (simp add: half_draws_def Let_def)
  show ?thesis
    using hook_follows_exchange [of ?sv 0 EthUsd m0 "[(EthUsd, Fin (1/2), half_draws, 1), (BtcUsd, Fin (1/2), half_draws, 2)]" 0 demo_hook demo_client]
      ok m0 tk unfolding sv Let_def by auto
qed

text \<open>
  C3. Client and server agree on the subscriptions. For a client in any reachable state whose
  socket is open, the mock server that read exactly the frames the client sent on that socket,
  on a fresh connection, holds for it exactly the client's set of channels.
\<close>

theorem server_knows_the_channels:
  assumes "ws_reachable c" "wc_ws c = Some k" "sock_state c k = Open"
  shows "peer_subs j (foldl (on_message j now) (on_connection j sv) (sent_on c k)) = set (wc_subs c) - {[]}"
proof -
  have "net_subs {} (sent_on c k) = set (wc_subs c) - {[]}"
    using ws_reachable_inv [OF assms(1)] assms(2,3) by (simp add: ws_inv_def)
  moreover have "peer_subs j (on_connection j sv) = {}"
    by (simp add: peer_subs_def subs_for_def on_connection_def)
  ultimately show ?thesis using mw.subs_of_run [of j now "on_connection j sv" "sent_on c k"] by simp
qed

theorem server_knows_the_channels_witness:
  "peer_subs 0 (foldl (on_message 0 0) (on_connection 0 (new_server (STATE (\<lambda>_ _. Fin (1/2)) (\<lambda>_ _. 0) 0)))
     (sent_on (subscribe ''oracle.btc-usd'' (onopen 0 demo_client)) 0)) = {''oracle.btc-usd''}"
proof -
  let ?c = "subscribe ''oracle.btc-usd'' (onopen 0 demo_client)"
  have r: "ws_reachable ?c"
    by (intro rc_step [OF _ st_subscribe] rc_step [OF demo_reachable st_open [OF demo_connecting]])
  have w: "wc_ws ?c = Some 0" "sock_state ?c 0 = Open" "set (wc_subs ?c) = {''oracle.btc-usd''}"
    by (simp_all add: demo_client_def connect_def new_client_def sock_state_def onopen_def Let_def subscribe_def send_def
        set_sock_state_def sock_send_def open_frames_def sadd_def)
  show ?thesis using server_knows_the_channels [OF r w(1,2)] unfolding w(3) by simp
qed

end
