(* ===== verification/Session.thy ===== *)
theory Session
  imports WsClient Format
begin

text \<open>
  The REST layer and the sign-in of the web client: \<^verbatim>\<open>web/lib/api/rest.ts\<close>,
  \<^verbatim>\<open>web/lib/api/queries.ts\<close> and \<^verbatim>\<open>web/lib/wallet/siwe.ts\<close>. A response is its status, its
  status text and its payload, which parses as JSON (of a type \<open>'j\<close> the callers decide) or
  does not. Reading a body consumes it: \<open>res.text()\<close> after \<open>res.json()\<close> rejects with a
  \<open>TypeError\<close>. The network, the wallet and \<open>Date.parse\<close> (whose result on anything but ISO
  dates is up to the host) are parameters.
\<close>

section \<open>Requests\<close>

datatype request_body =
    NoBody
  | OrderBody order_request
  | AddressBody string
  | SiweBody string string

datatype http_method = GET | POST | DELETE

record api_request =
  ar_method :: http_method
  ar_path :: string
  ar_body :: request_body

definition API_BASE :: "string option \<Rightarrow> string" where
  "API_BASE env = (case env of None \<Rightarrow> ''http://localhost:8080'' | Some s \<Rightarrow> s)"

definition authHeaders :: "browser \<Rightarrow> (string, string) jmap" where
  "authHeaders b = (case mget (bw_storage b) jwt_key of
       Some (c # cs) \<Rightarrow> [(''Authorization'', ''Bearer '' @ c # cs)] | _ \<Rightarrow> [])"

definition request_headers :: "browser \<Rightarrow> (string, string) jmap" where
  "request_headers b = foldl (\<lambda>m (k, v). mset_key m k v) [(''content-type'', ''application/json'')] (authHeaders b)"

definition clearStoredJwtOn401 :: "browser \<Rightarrow> browser" where
  "clearStoredJwtOn401 b =
     b\<lparr>bw_storage := mdelete (mdelete (bw_storage b) jwt_key) jwt_exp_key,
       bw_events := bw_events b @ [jwt_event]\<rparr>"

datatype 'j payload = Json 'j | NotJson string

record 'j http_response =
  hr_status :: int
  hr_statusText :: string
  hr_payload :: "'j payload"

datatype 'j http_error =
    NetworkError string
  | BodyUnusable
  | BadJson
  | ApiFailure int string 'j

definition res_ok :: "'j http_response \<Rightarrow> bool" where
  "res_ok r = (200 \<le> hr_status r \<and> hr_status r \<le> 299)"

text \<open>
  \<open>request\<close> once \<open>fetch\<close> has settled: \<open>Inl\<close> is a rejected fetch. A failed status whose body
  is not JSON ends in the rejection of \<open>res.text()\<close>, before the status is looked at.
\<close>

definition request :: "string + 'j http_response \<Rightarrow> browser \<Rightarrow> ('j http_error, 'j) result \<times> browser" where
  "request answer b = (case answer of
       Inl m \<Rightarrow> (Throw (NetworkError m), b)
     | Inr res \<Rightarrow>
         if \<not> res_ok res then
           (case hr_payload res of
              NotJson t \<Rightarrow> (Throw BodyUnusable, b)
            | Json detail \<Rightarrow>
                (Throw (ApiFailure (hr_status res)
                   (''API '' @ int_str (hr_status res) @ '': '' @ hr_statusText res) detail),
                 if hr_status res = 401 then clearStoredJwtOn401 b else b))
         else (case hr_payload res of NotJson t \<Rightarrow> (Throw BadJson, b) | Json v \<Rightarrow> (Return v, b)))"

section \<open>The endpoints\<close>

text \<open>\<open>URLSearchParams\<close>: form encoding of a byte and of a query.\<close>

definition hex_digit :: "nat \<Rightarrow> char" where
  "hex_digit n = (if n < 10 then char_of (48 + n) else char_of (55 + n))"

definition form_char :: "char \<Rightarrow> string" where
  "form_char c = (let n = (of_char c :: nat) in
     if is_digit c \<or> (65 \<le> n \<and> n \<le> 90) \<or> (97 \<le> n \<and> n \<le> 122)
        \<or> c = CHR ''*'' \<or> c = CHR ''-'' \<or> c = CHR ''.'' \<or> c = CHR ''_'' then [c]
     else if n = 32 then ''+''
     else [CHR 0x25, hex_digit (n div 16), hex_digit (n mod 16)])"

definition form_encode :: "string \<Rightarrow> string" where
  "form_encode s = concat (map form_char s)"

fun query_string :: "(string \<times> string) list \<Rightarrow> string" where
  "query_string [] = []"
| "query_string [(k, v)] = form_encode k @ ''='' @ form_encode v"
| "query_string ((k, v) # kvs) = form_encode k @ ''='' @ form_encode v @ ''&'' @ query_string kvs"

definition get_req :: "string \<Rightarrow> api_request" where
  "get_req path = \<lparr>ar_method = GET, ar_path = path, ar_body = NoBody\<rparr>"

definition api_markets :: api_request where
  "api_markets = get_req ''/v1/markets''"

datatype depth = Depth50 | Depth200 | DepthFull

fun depth_str :: "depth \<Rightarrow> string" where
  "depth_str Depth50 = ''50''"
| "depth_str Depth200 = ''200''"
| "depth_str DepthFull = ''full''"

definition api_orderbook :: "market_id \<Rightarrow> depth \<Rightarrow> api_request" where
  "api_orderbook mid d = get_req (''/v1/orderbook/'' @ market_id_str mid @ ''?depth='' @ depth_str d)"

definition truthy_param :: "string \<Rightarrow> string option \<Rightarrow> (string \<times> string) list" where
  "truthy_param k v = (case v of Some (c # cs) \<Rightarrow> [(k, c # cs)] | _ \<Rightarrow> [])"

definition api_trades :: "market_id \<Rightarrow> number \<Rightarrow> string option \<Rightarrow> api_request" where
  "api_trades mid limit before = get_req (''/v1/trades/'' @ market_id_str mid @ ''?'' @
     query_string ((''limit'', num_str limit) # truthy_param ''before'' before))"

definition api_funding :: "market_id \<Rightarrow> string \<Rightarrow> api_request" where
  "api_funding mid win = get_req (''/v1/funding/'' @ market_id_str mid @ ''?range='' @ win)"

definition api_placeOrder :: "order_request \<Rightarrow> api_request" where
  "api_placeOrder body = \<lparr>ar_method = POST, ar_path = ''/v1/orders'', ar_body = OrderBody body\<rparr>"

definition api_cancelOrder :: "string \<Rightarrow> api_request" where
  "api_cancelOrder orderId = \<lparr>ar_method = DELETE, ar_path = ''/v1/orders/'' @ orderId, ar_body = NoBody\<rparr>"

definition api_openOrders :: api_request where
  "api_openOrders = get_req ''/v1/orders/open''"

definition api_positions :: api_request where
  "api_positions = get_req ''/v1/positions''"

definition api_fills :: "market_id option \<Rightarrow> number option \<Rightarrow> string option \<Rightarrow> api_request" where
  "api_fills mid limit before =
     (let q = (case mid of None \<Rightarrow> [] | Some m \<Rightarrow> [(''marketId'', market_id_str m)])
            @ (case limit of Some n \<Rightarrow> if truthy n then [(''limit'', num_str n)] else [] | None \<Rightarrow> [])
            @ truthy_param ''before'' before;
          qs = query_string q
      in get_req (''/v1/fills'' @ (if qs = [] then [] else ''?'' @ qs)))"

definition api_balance :: api_request where
  "api_balance = get_req ''/v1/account/balance''"

definition api_siweNonce :: "string \<Rightarrow> api_request" where
  "api_siweNonce address = \<lparr>ar_method = POST, ar_path = ''/v1/auth/siwe/nonce'', ar_body = AddressBody address\<rparr>"

definition api_siweVerify :: "string \<Rightarrow> string \<Rightarrow> api_request" where
  "api_siweVerify message signature =
     \<lparr>ar_method = POST, ar_path = ''/v1/auth/siwe/verify'', ar_body = SiweBody message signature\<rparr>"

section \<open>Query keys\<close>

datatype query =
    QMarkets | QOrderbook market_id | QTrades market_id | QFunding market_id
  | QOpenOrders | QPositions | QFills "market_id option" | QBalance

fun qk :: "query \<Rightarrow> string list" where
  "qk QMarkets = [''markets'']"
| "qk (QOrderbook m) = [''orderbook'', market_id_str m]"
| "qk (QTrades m) = [''trades'', market_id_str m]"
| "qk (QFunding m) = [''funding'', market_id_str m]"
| "qk QOpenOrders = [''openOrders'']"
| "qk QPositions = [''positions'']"
| "qk (QFills m) = [''fills'', case m of None \<Rightarrow> ''all'' | Some i \<Rightarrow> market_id_str i]"
| "qk QBalance = [''balance'']"

fun query_fn :: "query \<Rightarrow> api_request" where
  "query_fn QMarkets = api_markets"
| "query_fn (QOrderbook m) = api_orderbook m Depth50"
| "query_fn (QTrades m) = api_trades m (Fin 50) None"
| "query_fn (QFunding m) = api_funding m ''24h''"
| "query_fn QOpenOrders = api_openOrders"
| "query_fn QPositions = api_positions"
| "query_fn (QFills m) = api_fills m (Some (Fin 100)) None"
| "query_fn QBalance = api_balance"

fun query_staleTime :: "query \<Rightarrow> nat" where
  "query_staleTime QMarkets = 30000"
| "query_staleTime (QTrades _) = 2000"
| "query_staleTime (QFunding _) = 10000"
| "query_staleTime QBalance = 5000"
| "query_staleTime _ = 1000"

fun query_refetchInterval :: "query \<Rightarrow> nat option" where
  "query_refetchInterval QPositions = Some 2000"
| "query_refetchInterval (QFills _) = Some 2000"
| "query_refetchInterval _ = None"

definition usePlaceOrder_invalidates :: "string list list" where
  "usePlaceOrder_invalidates = [qk QOpenOrders, qk QPositions, [''fills'']]"

definition useCancelOrder_invalidates :: "string list list" where
  "useCancelOrder_invalidates = [qk QOpenOrders]"

section \<open>The stored token\<close>

record stored_jwt =
  sj_jwt :: string
  sj_expiresAt :: string

definition readStoredJwt :: "(string \<Rightarrow> number) \<Rightarrow> number \<Rightarrow> browser \<Rightarrow> stored_jwt option \<times> browser" where
  "readStoredJwt date_parse now b =
     (let jwt = mget (bw_storage b) jwt_key; exp = mget (bw_storage b) jwt_exp_key in
      if \<not> truthy_str jwt \<or> \<not> truthy_str exp then (None, b)
      else if num_le (date_parse (the exp)) now
      then (None, b\<lparr>bw_storage := mdelete (mdelete (bw_storage b) jwt_key) jwt_exp_key\<rparr>)
      else (Some \<lparr>sj_jwt = the jwt, sj_expiresAt = the exp\<rparr>, b))"

definition emitJwtChange :: "browser \<Rightarrow> browser" where
  "emitJwtChange b = b\<lparr>bw_events := bw_events b @ [jwt_event]\<rparr>"

definition writeJwt :: "string \<Rightarrow> string \<Rightarrow> browser \<Rightarrow> browser" where
  "writeJwt jwt expiresAt b = emitJwtChange
     (b\<lparr>bw_storage := mset_key (mset_key (bw_storage b) jwt_key jwt) jwt_exp_key expiresAt\<rparr>)"

definition clearJwt :: "browser \<Rightarrow> browser" where
  "clearJwt b = emitJwtChange (b\<lparr>bw_storage := mdelete (mdelete (bw_storage b) jwt_key) jwt_exp_key\<rparr>)"

text \<open>
  \<open>jwtSnapshot\<close>: React compares snapshots by reference, so a snapshot carries the identity of
  the object; \<open>fresh\<close> is the identity of an object made by this call.
\<close>

type_synonym snapshot_ref = "(nat \<times> stored_jwt) option"

definition jwtSnapshot :: "(string \<Rightarrow> number) \<Rightarrow> number \<Rightarrow> nat \<Rightarrow> snapshot_ref \<times> browser \<Rightarrow> snapshot_ref \<times> browser" where
  "jwtSnapshot date_parse now fresh cb = (case cb of (cached, b) \<Rightarrow>
     (case readStoredJwt date_parse now b of (r, b') \<Rightarrow>
       if map_option (sj_jwt \<circ> snd) cached = map_option sj_jwt r \<and>
          map_option (sj_expiresAt \<circ> snd) cached = map_option sj_expiresAt r
       then (cached, b') else (map_option (Pair fresh) r, b')))"

section \<open>Signing in\<close>

record siwe_state =
  ss_isSigning :: bool
  ss_error :: "string option"

record siwe_message =
  sm_domain :: string
  sm_address :: string
  sm_statement :: string
  sm_uri :: string
  sm_version :: string
  sm_chainId :: int
  sm_nonce :: string
  sm_issuedAt :: string

definition siwe_fields :: "string \<Rightarrow> string \<Rightarrow> string \<Rightarrow> int \<Rightarrow> string \<Rightarrow> string \<Rightarrow> siwe_message" where
  "siwe_fields host origin address chainId nonce issuedAt =
     \<lparr>sm_domain = host, sm_address = address, sm_statement = ''Sign in to Perplex.'', sm_uri = origin,
      sm_version = ''1'', sm_chainId = chainId, sm_nonce = nonce, sm_issuedAt = issuedAt\<rparr>"

text \<open>
  \<open>e instanceof Error ? e.message : String(e)\<close> for an error of \<open>request\<close>; \<open>host\<close> is the text of the
  errors the host raises itself.
\<close>

definition error_message :: "string \<Rightarrow> 'j http_error \<Rightarrow> string" where
  "error_message host e = (case e of NetworkError m \<Rightarrow> m | ApiFailure st m d \<Rightarrow> m | _ \<Rightarrow> host)"

text \<open>
  \<open>signIn\<close>: \<open>nonceCall\<close> and \<open>verifyCall\<close> are what the network answers to the two requests, which go
  through \<open>request\<close> with its effect on the storage; the wallet, given the fields of the message,
  answers with a signature or the message of its rejection. The JSON of an error answer is not
  looked at.
\<close>

definition signIn :: "string \<Rightarrow> string option \<Rightarrow> (string \<Rightarrow> siwe_message) \<Rightarrow> string + string http_response
    \<Rightarrow> (siwe_message \<Rightarrow> string + string) \<Rightarrow> (string \<Rightarrow> string + siwe_verify_response http_response)
    \<Rightarrow> siwe_state \<times> browser \<Rightarrow> siwe_state \<times> browser" where
  "signIn host address msg_of nonceCall sign verifyCall sb = (case sb of (s, b) \<Rightarrow>
     if \<not> truthy_str address then (s\<lparr>ss_error := Some ''Connect a wallet first.''\<rparr>, b)
     else let fail = (\<lambda>m. s\<lparr>ss_isSigning := False, ss_error := Some m\<rparr>) in
       case request nonceCall b of
         (Inl e, b1) \<Rightarrow> (fail (error_message host e), b1)
       | (Inr nonce, b1) \<Rightarrow> (case sign (msg_of nonce) of
             Inl m \<Rightarrow> (fail m, b1)
           | Inr signature \<Rightarrow> (case request (verifyCall signature) b1 of
                 (Inl e, b2) \<Rightarrow> (fail (error_message host e), b2)
               | (Inr v, b2) \<Rightarrow> (s\<lparr>ss_isSigning := False, ss_error := None\<rparr>,
                               writeJwt (sv_jwt v) (sv_expiresAt v) b2))))"

definition signOut :: "browser \<Rightarrow> browser" where
  "signOut b = clearJwt b"

text \<open>The effect of \<open>useSiwe\<close>: the socket follows the stored token.\<close>

definition siwe_effect :: "bool \<Rightarrow> number \<Rightarrow> snapshot_ref \<Rightarrow> ws_client option \<Rightarrow> ws_client option" where
  "siwe_effect ctor_ok jitter stored singleton =
     syncWsToken ctor_ok jitter (map_option (sj_jwt \<circ> snd) stored) singleton"

section \<open>Lemmas\<close>

text \<open>What a read does is done once: a second read at the same time changes nothing.\<close>

lemma readStoredJwt_again: "readStoredJwt dp now b = (r, b') \<Longrightarrow> readStoredJwt dp now b' = (r, b')"
  by (auto simp: readStoredJwt_def truthy_str_def Let_def simp del: mget_None_iff split: if_splits option.splits)

lemma jwtSnapshot_read:
  assumes "readStoredJwt dp now b = (r, b')"
  shows "jwtSnapshot dp now fresh (cached, b) = (if map_option snd cached = r then cached else map_option (Pair fresh) r, b')"
proof -
  have "map_option (sj_jwt \<circ> snd) cached = map_option sj_jwt r \<and>
      map_option (sj_expiresAt \<circ> snd) cached = map_option sj_expiresAt r \<longleftrightarrow> map_option snd cached = r"
    by (cases cached; cases r) auto
  then show ?thesis by (simp add: jwtSnapshot_def assms)
qed

text \<open>An answer that returns a value, and one that says the token is dead.\<close>

definition accepted :: "string + 'j http_response \<Rightarrow> 'j \<Rightarrow> bool" where
  "accepted answer v \<longleftrightarrow> (\<exists>res. answer = Inr res \<and> res_ok res \<and> hr_payload res = Json v)"

definition denied :: "string + 'j http_response \<Rightarrow> bool" where
  "denied answer \<longleftrightarrow> (\<exists>res d. answer = Inr res \<and> hr_status res = 401 \<and> hr_payload res = Json d)"

lemma request_result: "fst (request answer b) = Return v \<longleftrightarrow> accepted answer v"
  by (auto simp: request_def accepted_def split: sum.splits payload.splits)

lemma request_storage: "snd (request answer b) = (if denied answer then clearStoredJwtOn401 b else b)"
  by (auto simp: request_def denied_def res_ok_def split: sum.splits payload.splits)

lemma accepted_not_denied: "accepted answer v \<Longrightarrow> \<not> denied answer"
  by (auto simp: accepted_def denied_def res_ok_def)

lemma accepted_unique: "accepted answer v \<Longrightarrow> accepted answer v' \<Longrightarrow> v = v'"
  by (auto simp: accepted_def)

lemma request_accepted: "request answer b = (Return v, b') \<Longrightarrow> accepted answer v \<and> b' = b"
  using request_result [of answer b v] request_storage [of answer b] accepted_not_denied [of answer v] by simp

lemma request_failed:
  "request answer b = (Inl e, b') \<Longrightarrow> (\<nexists>v. accepted answer v) \<and> b' = (if denied answer then clearStoredJwtOn401 b else b)"
  using request_result [of answer b] request_storage [of answer b] by auto

section \<open>Properties\<close>

text \<open>
  A 401 whose body is not JSON is not recognised: the second read of the body rejects, the
  caller gets a type error instead of the API error and the dead token stays in the storage,
  so the next request carries it again.
\<close>

theorem plain_401_keeps_token:
  assumes "mget (bw_storage b) ''perplex.jwt'' = Some (c # cs)"
  shows "let (r, b') = request (Inr \<lparr>hr_status = 401, hr_statusText = st, hr_payload = NotJson t\<rparr>) b in
    r = Throw BodyUnusable \<and> mget (request_headers b') ''Authorization'' = Some (''Bearer '' @ c # cs)"
  using assms by (simp add: request_def res_ok_def request_headers_def authHeaders_def jwt_key_def)

theorem plain_401_keeps_token_witness:
  "mget (request_headers (snd (request (Inr \<lparr>hr_status = 401, hr_statusText = ''Unauthorized'', hr_payload = (NotJson ''no'' :: nat payload)\<rparr>) demo_browser)))
     ''Authorization'' = Some ''Bearer t''"
  using plain_401_keeps_token [where 'a = nat, of demo_browser "CHR ''t''" "[]" "''Unauthorized''" "''no''"]
  by (auto simp: demo_browser_def jwt_key_def split: prod.splits)

text \<open>
  C26. Storing and reading the token: after \<open>writeJwt\<close> of two non-empty strings a read gives
  them back unless \<open>Date.parse\<close> of the expiry is at or before now, in which case both keys
  are gone; after \<open>clearJwt\<close> every read gives nothing.
\<close>

theorem jwt_write_read:
  assumes "j \<noteq> []" "e \<noteq> []"
  shows "readStoredJwt dp now (writeJwt j e b) =
      (if num_le (dp e) now then (None, (writeJwt j e b)\<lparr>bw_storage :=
          mdelete (mdelete (bw_storage (writeJwt j e b)) ''perplex.jwt'') ''perplex.jwt.expiresAt''\<rparr>)
       else (Some \<lparr>sj_jwt = j, sj_expiresAt = e\<rparr>, writeJwt j e b))
    \<and> fst (readStoredJwt dp now (clearJwt b)) = None"
  using assms
  by (cases j; cases e) (simp_all add: readStoredJwt_def writeJwt_def clearJwt_def emitJwtChange_def
      truthy_str_def jwt_key_def jwt_exp_key_def Let_def)

theorem jwt_write_read_witness:
  "fst (readStoredJwt (\<lambda>_. Fin 10) (Fin 5) (writeJwt ''a'' ''e'' demo_browser)) = Some \<lparr>sj_jwt = ''a'', sj_expiresAt = ''e''\<rparr>"
  using jwt_write_read [of "''a''" "''e''" "\<lambda>_. Fin 10" "Fin 5" demo_browser] by simp

text \<open>
  The local expiry check never fires for an expiry that \<open>Date.parse\<close> cannot read, such
  as the nanosecond counters the server sends: the token is handed out at every time.
\<close>

theorem unreadable_expiry_never_expires:
  assumes "mget (bw_storage b) ''perplex.jwt'' = Some (c # cs)"
    and "mget (bw_storage b) ''perplex.jwt.expiresAt'' = Some (d # ds)" and "dp (d # ds) = NaN"
  shows "readStoredJwt dp now b = (Some \<lparr>sj_jwt = c # cs, sj_expiresAt = d # ds\<rparr>, b)"
  using assms by (simp add: readStoredJwt_def truthy_str_def jwt_key_def jwt_exp_key_def Let_def)

theorem unreadable_expiry_never_expires_witness:
  "fst (readStoredJwt (\<lambda>_. NaN) (Fin (10 ^ 15)) (writeJwt ''a'' ''1745539200000000000'' demo_browser)) =
     Some \<lparr>sj_jwt = ''a'', sj_expiresAt = ''1745539200000000000''\<rparr>"
  using unreadable_expiry_never_expires [of "writeJwt ''a'' ''1745539200000000000'' demo_browser" "CHR ''a''" "[]"
      "CHR ''1''" "''745539200000000000''" "\<lambda>_. NaN" "Fin (10 ^ 15)"]
  by (simp add: writeJwt_def emitJwtChange_def jwt_key_def jwt_exp_key_def)

text \<open>
  C27. \<open>jwtSnapshot\<close> is stable: it always shows what a read of the storage shows, and as long
  as the shown token and expiry do not change it returns the same object.
\<close>

theorem jwt_snapshot_stable:
  "let (s, b') = jwtSnapshot dp now fresh (cached, b) in
     map_option snd s = fst (readStoredJwt dp now b) \<and>
     (map_option snd cached = fst (readStoredJwt dp now b) \<longrightarrow> s = cached) \<and>
     fst (jwtSnapshot dp now fresh' (s, b')) = s"
proof -
  obtain r b' where r: "readStoredJwt dp now b = (r, b')" by (cases "readStoredJwt dp now b")
  then have r': "readStoredJwt dp now b' = (r, b')" by (rule readStoredJwt_again)
  note s = jwtSnapshot_read [OF r] and s' = jwtSnapshot_read [OF r']
  show ?thesis by (cases r) (auto simp: s s' r)
qed

theorem jwt_snapshot_stable_witness:
  "fst (jwtSnapshot (\<lambda>_. Fin 10) (Fin 5) 3 (None, writeJwt ''a'' ''e'' demo_browser)) =
     Some (3, \<lparr>sj_jwt = ''a'', sj_expiresAt = ''e''\<rparr>)"
  using jwt_snapshot_stable [of "\<lambda>_. Fin 10" "Fin 5" 3 None "writeJwt ''a'' ''e'' demo_browser"]
  by (simp add: jwtSnapshot_def readStoredJwt_def truthy_str_def writeJwt_def emitJwtChange_def jwt_key_def jwt_exp_key_def)

text \<open>
  C25. \<open>signIn\<close> always ends with its signing flag off (when it was off before). It stores the token
  of the server exactly when a wallet is connected, the nonce request succeeds, the wallet signs the
  message that carries that nonce and the server accepts the signature, and then no error is shown;
  on every other path an error is shown and no new token is stored, and when the failing request
  was answered by a JSON 401 the old token is gone too.
\<close>

theorem signIn_stores_only_verified:
  assumes "\<not> ss_isSigning s" "signIn host address msg_of nonceCall sign verifyCall (s, b) = (s', b')"
  shows "\<not> ss_isSigning s' \<and>
    (if \<exists>n g v. truthy_str address \<and> accepted nonceCall n \<and> sign (msg_of n) = Inr g \<and> accepted (verifyCall g) v
     then ss_error s' = None \<and>
       (\<exists>n g v. accepted nonceCall n \<and> sign (msg_of n) = Inr g \<and> accepted (verifyCall g) v \<and> b' = writeJwt (sv_jwt v) (sv_expiresAt v) b)
     else ss_error s' \<noteq> None \<and> (b' = b \<or> b' = clearStoredJwtOn401 b) \<and>
       (truthy_str address \<and> (denied nonceCall \<or> (\<exists>n g. accepted nonceCall n \<and> sign (msg_of n) = Inr g \<and> denied (verifyCall g)))
         \<longrightarrow> mget (bw_storage b') ''perplex.jwt'' = None \<and> mget (bw_storage b') ''perplex.jwt.expiresAt'' = None))"
proof -
  have c: "mget (bw_storage (clearStoredJwtOn401 b)) ''perplex.jwt'' = None" "mget (bw_storage (clearStoredJwtOn401 b)) ''perplex.jwt.expiresAt'' = None"
    by (simp_all add: clearStoredJwtOn401_def jwt_key_def jwt_exp_key_def del: mget_None_iff)
  show ?thesis using assms c
    by (auto simp: signIn_def Let_def simp del: mget_None_iff split: if_splits sum.splits prod.splits
        dest!: request_accepted request_failed dest: accepted_unique accepted_not_denied)
qed

theorem signIn_stores_only_verified_witness:
  "let (s', b') = signIn ''x'' (Some ''0xA'') (\<lambda>n. siwe_fields ''h'' ''o'' ''0xA'' 1 n ''t'')
      (Inr \<lparr>hr_status = 200, hr_statusText = ''OK'', hr_payload = Json ''n''\<rparr>) (\<lambda>m. Inr ''sig'')
      (\<lambda>g. Inr \<lparr>hr_status = 401, hr_statusText = ''Unauthorized'', hr_payload = Json \<lparr>sv_jwt = [], sv_expiresAt = []\<rparr>\<rparr>)
      (\<lparr>ss_isSigning = False, ss_error = None\<rparr>, demo_browser) in
   ss_error s' \<noteq> None \<and> mget (bw_storage b') ''perplex.jwt'' = None"
proof -
  let ?n = "Inr \<lparr>hr_status = 200, hr_statusText = ''OK'', hr_payload = Json ''n''\<rparr> :: string + string http_response"
  let ?v = "\<lambda>g :: string. Inr \<lparr>hr_status = 401, hr_statusText = ''Unauthorized'', hr_payload = Json \<lparr>sv_jwt = [], sv_expiresAt = []\<rparr>\<rparr>
    :: string + siwe_verify_response http_response"
  obtain s' b' where r: "signIn ''x'' (Some ''0xA'') (\<lambda>n. siwe_fields ''h'' ''o'' ''0xA'' 1 n ''t'') ?n (\<lambda>m. Inr ''sig'') ?v
      (\<lparr>ss_isSigning = False, ss_error = None\<rparr>, demo_browser) = (s', b')" by (metis surj_pair)
  have "accepted ?n ''n''" "denied (?v g)" "\<not> accepted (?v g) v" for g v by (simp_all add: accepted_def denied_def res_ok_def)
  then show ?thesis using signIn_stores_only_verified [OF _ r] unfolding r
    by (auto simp: truthy_str_def simp del: mget_None_iff)
qed

end
