(* ===== verification/SdkSocket.thy ===== *)
theory SdkSocket
  imports WsClient
begin

text \<open>
  The socket class of the TypeScript SDK, \<^verbatim>\<open>sdk/typescript/src/ws.ts\<close>. Sockets have
  identity as in theory \<open>WsClient\<close>, but here the event listeners call methods that use the
  field \<open>ws\<close>, whichever socket fired. Pending reconnect timers are a list of delays: nothing
  in the class cancels one. A frame is its \<open>type\<close>, its \<open>channel\<close> and its \<open>message\<close> field.
\<close>

record frame =
  fm_type :: string
  fm_channel :: "string option"
  fm_message :: "string option"

record sdk_ws =
  sw_ws :: "nat option"
  sw_subs :: "(string, nat jset) jmap"
  sw_jwt :: "string option"
  sw_reconnect :: bool
  sw_backoffMs :: nat
  sw_destroyed :: bool
  sw_authPromise :: bool
  sw_authListeners :: "nat list"
  sw_waiters :: "(string \<times> nat) list"
  sw_settled :: "(string + unit) list"
  sw_timers :: "nat list"
  sw_sockets :: "socket list"
  sw_delivered :: "(nat \<times> frame) list"

definition new_sdk_ws :: "string option \<Rightarrow> bool option \<Rightarrow> bool \<Rightarrow> (js_error, sdk_ws) result" where
  "new_sdk_ws jwt reconnect has_ctor =
     (if \<not> has_ctor then Throw (ErrorMsg ''no WebSocket implementation found; pass wsImpl from `ws` on Node'')
      else Return \<lparr>sw_ws = None, sw_subs = [], sw_jwt = jwt,
        sw_reconnect = (case reconnect of None \<Rightarrow> True | Some r \<Rightarrow> r), sw_backoffMs = 500,
        sw_destroyed = False, sw_authPromise = False, sw_authListeners = [], sw_waiters = [],
        sw_settled = [], sw_timers = [], sw_sockets = [], sw_delivered = []\<rparr>)"

section \<open>Sockets\<close>

definition st_at :: "socket list \<Rightarrow> nat \<Rightarrow> ready_state" where
  "st_at ss i = (if i < length ss then sk_state (ss ! i) else Closed)"

definition sent_at :: "socket list \<Rightarrow> nat \<Rightarrow> ws_outbound list" where
  "sent_at ss i = (if i < length ss then sk_sent (ss ! i) else [])"

definition put_state :: "nat \<Rightarrow> ready_state \<Rightarrow> sdk_ws \<Rightarrow> sdk_ws" where
  "put_state i st s = (if i < length (sw_sockets s)
     then s\<lparr>sw_sockets := (sw_sockets s)[i := (sw_sockets s ! i)\<lparr>sk_state := st\<rparr>]\<rparr> else s)"

text \<open>\<open>send\<close>: dropped unless the current socket is open.\<close>

definition sdk_send :: "ws_outbound \<Rightarrow> sdk_ws \<Rightarrow> sdk_ws" where
  "sdk_send m s = (case sw_ws s of None \<Rightarrow> s
     | Some i \<Rightarrow> if st_at (sw_sockets s) i = Open
         then s\<lparr>sw_sockets := (sw_sockets s)[i := (sw_sockets s ! i)\<lparr>sk_sent := sk_sent (sw_sockets s ! i) @ [m]\<rparr>]\<rparr>
         else s)"

section \<open>The methods\<close>

definition setJwt :: "string option \<Rightarrow> sdk_ws \<Rightarrow> sdk_ws" where
  "setJwt jwt s = s\<lparr>sw_jwt := jwt\<rparr>"

text \<open>\<open>connect\<close>; when the constructor throws, only the flag has changed.\<close>

definition sdk_connect :: "bool \<Rightarrow> sdk_ws \<Rightarrow> sdk_ws" where
  "sdk_connect ctor_ok s = (if sw_ws s \<noteq> None then s
     else let s1 = s\<lparr>sw_destroyed := False\<rparr> in
       if \<not> ctor_ok then s1
       else s1\<lparr>sw_ws := Some (length (sw_sockets s1)),
               sw_sockets := sw_sockets s1 @ [\<lparr>sk_state = Connecting, sk_sent = []\<rparr>]\<rparr>)"

definition sdk_close :: "sdk_ws \<Rightarrow> sdk_ws" where
  "sdk_close s = (let s1 = s\<lparr>sw_destroyed := True, sw_subs := []\<rparr> in
     case sw_ws s1 of None \<Rightarrow> s1
     | Some i \<Rightarrow> (if st_at (sw_sockets s1) i = Closed then s1 else put_state i Closing s1)\<lparr>sw_ws := None\<rparr>)"

definition sdk_subscribe :: "string \<Rightarrow> nat \<Rightarrow> sdk_ws \<Rightarrow> sdk_ws" where
  "sdk_subscribe ch l s = (case mget (sw_subs s) ch of
       Some ls \<Rightarrow> s\<lparr>sw_subs := mset_key (sw_subs s) ch (sadd ls l)\<rparr>
     | None \<Rightarrow> sdk_send (Subscribe ch) (s\<lparr>sw_subs := mset_key (sw_subs s) ch [l]\<rparr>))"

definition sdk_unsubscribe :: "string \<Rightarrow> nat \<Rightarrow> sdk_ws \<Rightarrow> sdk_ws" where
  "sdk_unsubscribe ch l s = (case mget (sw_subs s) ch of
       None \<Rightarrow> s
     | Some ls \<Rightarrow> if sremove ls l = []
         then sdk_send (Unsubscribe ch) (s\<lparr>sw_subs := mdelete (sw_subs s) ch\<rparr>)
         else s\<lparr>sw_subs := mset_key (sw_subs s) ch (sremove ls l)\<rparr>)"

text \<open>
  \<open>authenticate\<close>, in two parts: up to the wait for the open event, and from there on. The
  listener that settles the promise is installed on the socket that is current then.
\<close>

definition auth_send :: "string \<Rightarrow> sdk_ws \<Rightarrow> sdk_ws" where
  "auth_send jwt s = (if sw_authPromise s then s
     else sdk_send (Auth jwt) (s\<lparr>sw_authPromise := True,
       sw_authListeners := sw_authListeners s @ (case sw_ws s of None \<Rightarrow> [] | Some i \<Rightarrow> [i])\<rparr>))"

definition authenticate :: "bool \<Rightarrow> string \<Rightarrow> sdk_ws \<Rightarrow> sdk_ws" where
  "authenticate ctor_ok jwt s = (let s1 = s\<lparr>sw_jwt := Some jwt\<rparr> in
     if (case sw_ws s1 of None \<Rightarrow> False | Some i \<Rightarrow> st_at (sw_sockets s1) i = Open) then auth_send jwt s1
     else let s2 = sdk_connect ctor_ok s1 in
       case sw_ws s2 of None \<Rightarrow> s2 | Some i \<Rightarrow> s2\<lparr>sw_waiters := sw_waiters s2 @ [(jwt, i)]\<rparr>)"

section \<open>Events\<close>

definition sdk_onOpen :: "sdk_ws \<Rightarrow> sdk_ws" where
  "sdk_onOpen s = (let s1 = s\<lparr>sw_backoffMs := 500\<rparr>;
       s2 = (if truthy_str (sw_jwt s1) then sdk_send (Auth (the (sw_jwt s1))) s1 else s1)
     in foldl (\<lambda>t ch. sdk_send (Subscribe ch) t) s2 (mkeys (sw_subs s2)))"

text \<open>The open event of socket \<open>i\<close>: \<open>onOpen\<close>, then the continuations waiting on that socket.\<close>

definition sdk_open :: "nat \<Rightarrow> sdk_ws \<Rightarrow> sdk_ws" where
  "sdk_open i s = (let s1 = sdk_onOpen (put_state i Open s) in
     foldl (\<lambda>t w. auth_send (fst w) t) (s1\<lparr>sw_waiters := filter (\<lambda>w. snd w \<noteq> i) (sw_waiters s1)\<rparr>)
       (filter (\<lambda>w. snd w = i) (sw_waiters s1)))"

definition sdk_onMessage :: "frame option \<Rightarrow> sdk_ws \<Rightarrow> sdk_ws" where
  "sdk_onMessage parsed s = (case parsed of None \<Rightarrow> s
     | Some f \<Rightarrow> if fm_type f = ''ping'' then sdk_send Pong s
         else (case fm_channel f of None \<Rightarrow> s
           | Some ch \<Rightarrow> (case mget (sw_subs s) ch of None \<Rightarrow> s
               | Some ls \<Rightarrow> s\<lparr>sw_delivered := sw_delivered s @ map (\<lambda>l. (l, f)) ls\<rparr>)))"

text \<open>The settling listener of \<open>authenticate\<close>; it is removed from the current socket only.\<close>

definition auth_listener :: "nat \<Rightarrow> frame option \<Rightarrow> sdk_ws \<Rightarrow> sdk_ws" where
  "auth_listener i parsed s = (case parsed of None \<Rightarrow> s
     | Some f \<Rightarrow>
         (let s1 = s\<lparr>sw_authPromise := False,
              sw_authListeners := (if sw_ws s = Some i then remove1 i (sw_authListeners s) else sw_authListeners s)\<rparr> in
          if fm_type f = ''auth'' then s1\<lparr>sw_settled := sw_settled s1 @ [Inr ()]\<rparr>
          else if fm_type f = ''error'' then s1\<lparr>sw_settled := sw_settled s1 @
            [Inl (case fm_message f of None \<Rightarrow> ''auth failed'' | Some m \<Rightarrow> m)]\<rparr>
          else s))"

definition sdk_message :: "nat \<Rightarrow> frame option \<Rightarrow> sdk_ws \<Rightarrow> sdk_ws" where
  "sdk_message i parsed s = (let s1 = sdk_onMessage parsed s in
     foldl (\<lambda>t j. auth_listener i parsed t) s1 (filter (\<lambda>j. j = i) (sw_authListeners s1)))"

definition sdk_onClose :: "sdk_ws \<Rightarrow> sdk_ws" where
  "sdk_onClose s = (let s1 = s\<lparr>sw_ws := None\<rparr> in
     if sw_destroyed s1 \<or> \<not> sw_reconnect s1 then s1
     else s1\<lparr>sw_backoffMs := min (sw_backoffMs s1 * 2) 10000, sw_timers := sw_timers s1 @ [sw_backoffMs s1]\<rparr>)"

definition sdk_closed :: "nat \<Rightarrow> sdk_ws \<Rightarrow> sdk_ws" where
  "sdk_closed i s = sdk_onClose (put_state i Closed s)"

definition sdk_timer :: "bool \<Rightarrow> sdk_ws \<Rightarrow> sdk_ws" where
  "sdk_timer ctor_ok s = sdk_connect ctor_ok (s\<lparr>sw_timers := tl (sw_timers s)\<rparr>)"

section \<open>Runs\<close>

inductive sdk_step :: "sdk_ws \<Rightarrow> sdk_ws \<Rightarrow> bool" where
  ss_setJwt: "sdk_step s (setJwt jwt s)"
| ss_connect: "sdk_step s (sdk_connect ok s)"
| ss_close: "sdk_step s (sdk_close s)"
| ss_subscribe: "sdk_step s (sdk_subscribe ch l s)"
| ss_unsubscribe: "sdk_step s (sdk_unsubscribe ch l s)"
| ss_authenticate: "sdk_step s (authenticate ok jwt s)"
| ss_open: "st_at (sw_sockets s) i = Connecting \<Longrightarrow> sdk_step s (sdk_open i s)"
| ss_message: "st_at (sw_sockets s) i = Open \<Longrightarrow> sdk_step s (sdk_message i f s)"
| ss_closed: "st_at (sw_sockets s) i \<noteq> Closed \<Longrightarrow> sdk_step s (sdk_closed i s)"
| ss_timer: "sw_timers s \<noteq> [] \<Longrightarrow> sdk_step s (sdk_timer ok s)"

text \<open>The channels a peer can hold, and the shape of the subscription map.\<close>

definition sub_keys :: "(string, nat jset) jmap \<Rightarrow> string set" where
  "sub_keys m = fst ` set m - {[]}"

definition subs_ok :: "(string, nat jset) jmap \<Rightarrow> bool" where
  "subs_ok m = (map_wf m \<and> (\<forall>(ch, ls)\<in>set m. ls \<noteq> [] \<and> distinct ls))"

definition sdk_inv :: "sdk_ws \<Rightarrow> bool" where
  "sdk_inv s = (subs_ok (sw_subs s) \<and>
     500 \<le> sw_backoffMs s \<and> sw_backoffMs s \<le> 10000 \<and>
     (\<forall>i. sw_ws s = Some i \<longrightarrow> i < length (sw_sockets s)) \<and>
     (\<forall>i. st_at (sw_sockets s) i = Connecting \<longrightarrow> sent_at (sw_sockets s) i = []) \<and>
     (\<forall>i. sw_ws s = Some i \<and> st_at (sw_sockets s) i = Open \<longrightarrow>
        net_subs {} (sent_at (sw_sockets s) i) = sub_keys (sw_subs s)))"

section \<open>Lemmas\<close>

lemma sdk_send_fields [simp]:
  "sw_ws (sdk_send m s) = sw_ws s" "sw_subs (sdk_send m s) = sw_subs s" "sw_jwt (sdk_send m s) = sw_jwt s"
  "sw_backoffMs (sdk_send m s) = sw_backoffMs s" "sw_timers (sdk_send m s) = sw_timers s"
  "sw_waiters (sdk_send m s) = sw_waiters s" "sw_authPromise (sdk_send m s) = sw_authPromise s"
  "sw_settled (sdk_send m s) = sw_settled s" "sw_authListeners (sdk_send m s) = sw_authListeners s"
  "length (sw_sockets (sdk_send m s)) = length (sw_sockets s)"
  by (simp_all add: sdk_send_def split: option.split)

lemma put_state_fields [simp]:
  "sw_ws (put_state i st s) = sw_ws s" "sw_subs (put_state i st s) = sw_subs s" "sw_jwt (put_state i st s) = sw_jwt s"
  "sw_backoffMs (put_state i st s) = sw_backoffMs s" "sw_timers (put_state i st s) = sw_timers s"
  "sw_waiters (put_state i st s) = sw_waiters s" "sw_destroyed (put_state i st s) = sw_destroyed s"
  "sw_reconnect (put_state i st s) = sw_reconnect s" "sw_authPromise (put_state i st s) = sw_authPromise s"
  "length (sw_sockets (put_state i st s)) = length (sw_sockets s)"
  by (simp_all add: put_state_def)

lemma sdk_store [sock_simps]:
  "st_at (sw_sockets (sdk_send m s)) j = st_at (sw_sockets s) j"
  "sent_at (sw_sockets (sdk_send m s)) j =
     (if sw_ws s = Some j \<and> st_at (sw_sockets s) j = Open then sent_at (sw_sockets s) j @ [m]
      else sent_at (sw_sockets s) j)"
  "st_at (sw_sockets (put_state i st s)) j =
     (if j = i \<and> i < length (sw_sockets s) then st else st_at (sw_sockets s) j)"
  "sent_at (sw_sockets (put_state i st s)) j = sent_at (sw_sockets s) j"
  by (auto simp: sdk_send_def put_state_def st_at_def sent_at_def nth_list_update split: option.split)

lemma sdk_new_socket:
  "st_at (ss @ [\<lparr>sk_state = Connecting, sk_sent = []\<rparr>]) i = (if i = length ss then Connecting else st_at ss i)"
  "sent_at (ss @ [\<lparr>sk_state = Connecting, sk_sent = []\<rparr>]) i = (if i = length ss then [] else sent_at ss i)"
  by (auto simp: st_at_def sent_at_def nth_append)

text \<open>Frames that change no subscription keep the invariant, whichever socket they leave on.\<close>

lemma sdk_inv_send_plain: "sdk_inv s \<Longrightarrow> m = Pong \<or> m = Auth t \<Longrightarrow> sdk_inv (sdk_send m s)"
  unfolding sdk_inv_def by (auto simp: sock_simps net_subs_append)

lemma sub_keys_simps [simp]:
  "sub_keys [] = {}"
  "sub_keys (mset_key m k v) = (if k = [] then sub_keys m else insert k (sub_keys m))"
  "sub_keys (mdelete m k) = sub_keys m - {k}"
  by (auto simp: sub_keys_def mdelete_def)

lemma sub_keys_mem: "mget m k = Some v \<Longrightarrow> k \<noteq> [] \<Longrightarrow> insert k (sub_keys m) = sub_keys m"
  using mget_None_iff [of m k] by (auto simp: sub_keys_def)

lemma subs_ok_set: "subs_ok m \<Longrightarrow> ls \<noteq> [] \<Longrightarrow> distinct ls \<Longrightarrow> subs_ok (mset_key m k ls)"
  by (auto simp: subs_ok_def dest!: mset_key_mem)

lemma subs_ok_delete: "subs_ok m \<Longrightarrow> subs_ok (mdelete m k)"
  unfolding subs_ok_def by (auto simp: mdelete_def [of m k] intro: map_wf_delete [unfolded mdelete_def])

lemma subs_ok_get: "subs_ok m \<Longrightarrow> mget m k = Some ls \<Longrightarrow> ls \<noteq> [] \<and> distinct ls"
  using mget_mem [of m k ls] by (auto simp: subs_ok_def)

lemma sdk_inv_auth_send: "sdk_inv s \<Longrightarrow> sdk_inv (auth_send jwt s)"
proof -
  assume inv: "sdk_inv s"
  then have "sdk_inv (s\<lparr>sw_authPromise := True, sw_authListeners := l\<rparr>)" for l by (simp add: sdk_inv_def)
  then show ?thesis using inv by (simp add: auth_send_def sdk_inv_send_plain)
qed

lemma sdk_inv_connect: "sdk_inv s \<Longrightarrow> sdk_inv (sdk_connect ok s)"
  by (auto simp: sdk_inv_def sdk_connect_def Let_def sdk_new_socket)

lemma sdk_inv_close: "sdk_inv s \<Longrightarrow> sdk_inv (sdk_close s)"
  by (auto simp: sdk_inv_def sdk_close_def Let_def sock_simps subs_ok_def split: option.split if_splits)

lemma sdk_inv_subscribe:
  assumes inv: "sdk_inv s"
  shows "sdk_inv (sdk_subscribe ch l s)"
proof (cases "mget (sw_subs s) ch")
  case None
  have ok: "subs_ok (mset_key (sw_subs s) ch [l])" using inv by (simp add: sdk_inv_def subs_ok_set)
  show ?thesis using inv ok unfolding sdk_subscribe_def None
    by (auto simp: sdk_inv_def sock_simps net_subs_append)
next
  case (Some ls)
  have "ls \<noteq> [] \<and> distinct ls" using inv Some by (auto simp: sdk_inv_def dest: subs_ok_get)
  then have ok: "subs_ok (mset_key (sw_subs s) ch (sadd ls l))"
    using inv by (simp add: sdk_inv_def subs_ok_set sadd_def)
  show ?thesis using inv ok sub_keys_mem [OF Some] unfolding sdk_subscribe_def Some
    by (cases "ch = []") (auto simp: sdk_inv_def)
qed

lemma sdk_inv_unsubscribe:
  assumes inv: "sdk_inv s"
  shows "sdk_inv (sdk_unsubscribe ch l s)"
proof (cases "mget (sw_subs s) ch")
  case None
  show ?thesis using inv unfolding sdk_unsubscribe_def None by simp
next
  case (Some ls)
  have d: "subs_ok (mdelete (sw_subs s) ch)" using inv by (simp add: sdk_inv_def subs_ok_delete)
  have "distinct ls" using inv Some by (auto simp: sdk_inv_def dest: subs_ok_get)
  then have ok: "sremove ls l \<noteq> [] \<Longrightarrow> subs_ok (mset_key (sw_subs s) ch (sremove ls l))"
    using inv by (simp add: sdk_inv_def subs_ok_set)
  show ?thesis using inv d ok sub_keys_mem [OF Some] unfolding sdk_unsubscribe_def Some
    by (cases "ch = []") (auto simp: sdk_inv_def sock_simps net_subs_append)
qed

lemma sdk_inv_authenticate: "sdk_inv s \<Longrightarrow> sdk_inv (authenticate ok jwt s)"
proof -
  assume "sdk_inv s"
  then have "sdk_inv (s\<lparr>sw_jwt := Some jwt\<rparr>)" by (simp add: sdk_inv_def)
  moreover have "sdk_inv t \<Longrightarrow> sdk_inv (t\<lparr>sw_waiters := w\<rparr>)" for t w by (simp add: sdk_inv_def)
  ultimately show ?thesis
    by (simp add: authenticate_def Let_def sdk_inv_auth_send sdk_inv_connect split: option.split)
qed

subsection \<open>Opening\<close>

lemma sdk_resubscribe:
  "sent_at (sw_sockets (foldl (\<lambda>t ch. sdk_send (Subscribe ch) t) s chs)) j =
     (if sw_ws s = Some j \<and> st_at (sw_sockets s) j = Open then sent_at (sw_sockets s) j @ map Subscribe chs
      else sent_at (sw_sockets s) j)"
  "st_at (sw_sockets (foldl (\<lambda>t ch. sdk_send (Subscribe ch) t) s chs)) j = st_at (sw_sockets s) j"
  "sw_ws (foldl (\<lambda>t ch. sdk_send (Subscribe ch) t) s chs) = sw_ws s"
  "sw_subs (foldl (\<lambda>t ch. sdk_send (Subscribe ch) t) s chs) = sw_subs s"
  "sw_backoffMs (foldl (\<lambda>t ch. sdk_send (Subscribe ch) t) s chs) = sw_backoffMs s"
  "length (sw_sockets (foldl (\<lambda>t ch. sdk_send (Subscribe ch) t) s chs)) = length (sw_sockets s)"
  "sw_waiters (foldl (\<lambda>t ch. sdk_send (Subscribe ch) t) s chs) = sw_waiters s"
  by (induction chs arbitrary: s) (simp_all add: sock_simps)

definition jwt_frames :: "sdk_ws \<Rightarrow> ws_outbound list" where
  "jwt_frames s = (if truthy_str (sw_jwt s) then [Auth (the (sw_jwt s))] else [])"

lemma sdk_onOpen_state:
  "sent_at (sw_sockets (sdk_onOpen s)) j =
     (if sw_ws s = Some j \<and> st_at (sw_sockets s) j = Open
      then sent_at (sw_sockets s) j @ jwt_frames s @ map Subscribe (mkeys (sw_subs s)) else sent_at (sw_sockets s) j)"
  "st_at (sw_sockets (sdk_onOpen s)) j = st_at (sw_sockets s) j"
  "sw_ws (sdk_onOpen s) = sw_ws s" "sw_subs (sdk_onOpen s) = sw_subs s" "sw_backoffMs (sdk_onOpen s) = 500"
  "length (sw_sockets (sdk_onOpen s)) = length (sw_sockets s)" "sw_waiters (sdk_onOpen s) = sw_waiters s"
  by (auto simp: sdk_onOpen_def Let_def sdk_resubscribe sock_simps jwt_frames_def)

lemma net_subs_open: "net_subs S (jwt_frames s @ map Subscribe (mkeys m)) = S \<union> sub_keys m"
  using net_subs_map_Subscribe [of S "map fst m"]
  by (simp add: jwt_frames_def net_subs_append sub_keys_def mkeys_def)

lemma sdk_inv_onOpen:
  assumes inv: "sdk_inv s" and st: "st_at (sw_sockets s) i = Connecting"
  shows "sdk_inv (sdk_onOpen (put_state i Open s))"
proof -
  have len: "i < length (sw_sockets s)" using st by (auto simp: st_at_def split: if_splits)
  have "sent_at (sw_sockets s) i = []" using inv st by (simp add: sdk_inv_def)
  then show ?thesis using inv len unfolding sdk_inv_def
    by (auto simp: sdk_onOpen_state sock_simps net_subs_append [of _ _ "jwt_frames _ @ _"] net_subs_open split: if_splits)
qed

lemma sdk_inv_open:
  assumes "sdk_inv s" "st_at (sw_sockets s) i = Connecting"
  shows "sdk_inv (sdk_open i s)"
proof -
  have fold: "sdk_inv t \<Longrightarrow> sdk_inv (foldl (\<lambda>t w. auth_send (fst w) t) t ws)" for t and ws :: "(string \<times> nat) list"
    by (induction ws arbitrary: t) (simp_all add: sdk_inv_auth_send)
  have "sdk_inv t \<Longrightarrow> sdk_inv (t\<lparr>sw_waiters := w\<rparr>)" for t w by (simp add: sdk_inv_def)
  then show ?thesis unfolding sdk_open_def Let_def by (intro fold) (simp add: sdk_inv_onOpen [OF assms])
qed

lemma sdk_inv_message: "sdk_inv s \<Longrightarrow> sdk_inv (sdk_message i f s)"
proof -
  assume inv: "sdk_inv s"
  have on: "sdk_inv (sdk_onMessage f s)"
    using inv sdk_inv_send_plain [OF inv, of Pong]
    by (auto simp: sdk_onMessage_def sdk_inv_def split: option.split)
  have l: "sdk_inv t \<Longrightarrow> sdk_inv (auth_listener i f t)" for t
    by (auto simp: auth_listener_def sdk_inv_def Let_def split: option.split)
  have "sdk_inv t \<Longrightarrow> sdk_inv (foldl (\<lambda>t j. auth_listener i f t) t ls)" for t and ls :: "nat list"
    by (induction ls arbitrary: t) (simp_all add: l)
  then show ?thesis using on by (simp add: sdk_message_def Let_def)
qed

lemma sdk_inv_closed: "sdk_inv s \<Longrightarrow> sdk_inv (sdk_closed i s)"
  by (auto simp: sdk_inv_def sdk_closed_def sdk_onClose_def Let_def sock_simps split: if_splits)

lemma sdk_inv_timer: "sdk_inv s \<Longrightarrow> sdk_inv (sdk_timer ok s)"
  unfolding sdk_timer_def by (rule sdk_inv_connect) (simp add: sdk_inv_def)

lemma sdk_inv_step: "sdk_step s t \<Longrightarrow> sdk_inv s \<Longrightarrow> sdk_inv t"
  by (induction rule: sdk_step.induct)
    (simp_all add: sdk_inv_connect sdk_inv_close sdk_inv_subscribe sdk_inv_unsubscribe sdk_inv_authenticate
      sdk_inv_open sdk_inv_message sdk_inv_closed sdk_inv_timer, simp add: sdk_inv_def setJwt_def)

interpretation sd: transition_system sdk_step sdk_inv
  by unfold_locales (rule sdk_inv_step)

lemma sdk_inv_new: "new_sdk_ws jwt rc True = Return s \<Longrightarrow> sdk_inv s"
  by (auto simp: new_sdk_ws_def sdk_inv_def subs_ok_def st_at_def)

section \<open>Properties\<close>

definition demo_sdk :: sdk_ws where
  "demo_sdk = (case new_sdk_ws (Some ''j'') None True of Inr s \<Rightarrow> s)"

lemma demo_sdk_new: "new_sdk_ws (Some ''j'') None True = Return demo_sdk"
  by (simp add: demo_sdk_def new_sdk_ws_def)

lemmas sdk_eval = demo_sdk_def new_sdk_ws_def sdk_connect_def sdk_open_def sdk_onOpen_def put_state_def
  sdk_send_def st_at_def sent_at_def Let_def mkeys_def sdk_closed_def sdk_onClose_def sdk_timer_def
  sdk_close_def sdk_subscribe_def authenticate_def auth_send_def truthy_str_def

text \<open>
  C29. After any run of calls, socket events and timers from a new SDK socket: every listed
  channel has a listener; on an open current socket the frames sent leave a peer with exactly
  the channels that have listeners (also after reconnects, where they are all sent again);
  and the next back-off lies between 500 and 10000 ms.
\<close>

theorem sdk_peer_follows_listeners:
  assumes "new_sdk_ws jwt rc True = Return s0" "sdk_step\<^sup>*\<^sup>* s0 s"
  shows "(\<forall>ch ls. mget (sw_subs s) ch = Some ls \<longrightarrow> ls \<noteq> []) \<and>
    (\<forall>i. sw_ws s = Some i \<and> st_at (sw_sockets s) i = Open \<longrightarrow>
       net_subs {} (sent_at (sw_sockets s) i) = {ch. ch \<noteq> [] \<and> mget (sw_subs s) ch \<noteq> None}) \<and>
    500 \<le> sw_backoffMs s \<and> sw_backoffMs s \<le> 10000"
proof -
  have inv: "sdk_inv s" using sd.run_inv [OF assms(2) sdk_inv_new [OF assms(1)]] .
  have k: "sub_keys (sw_subs s) = {ch. ch \<noteq> [] \<and> mget (sw_subs s) ch \<noteq> None}" by (auto simp: sub_keys_def)
  show ?thesis using inv subs_ok_get [of "sw_subs s"] unfolding sdk_inv_def k by blast
qed

theorem sdk_peer_follows_listeners_witness:
  "net_subs {} (sent_at (sw_sockets (sdk_open 0 (sdk_subscribe ''trades.btc-usd'' 1 (sdk_connect True demo_sdk)))) 0)
     = {''trades.btc-usd''}"
proof -
  let ?s = "sdk_open 0 (sdk_subscribe ''trades.btc-usd'' 1 (sdk_connect True demo_sdk))"
  have "sdk_step demo_sdk (sdk_connect True demo_sdk)" by (rule ss_connect)
  moreover have "sdk_step (sdk_connect True demo_sdk) (sdk_subscribe ''trades.btc-usd'' 1 (sdk_connect True demo_sdk))"
    by (rule ss_subscribe)
  moreover have "sdk_step (sdk_subscribe ''trades.btc-usd'' 1 (sdk_connect True demo_sdk)) ?s"
    by (rule ss_open) (simp add: sdk_eval)
  ultimately have "sdk_step\<^sup>*\<^sup>* demo_sdk ?s" by (meson rtranclp.rtrancl_refl rtranclp.rtrancl_into_rtrancl)
  from sdk_peer_follows_listeners [OF demo_sdk_new this] show ?thesis by (simp add: sdk_eval)
qed

lemma backoff_step: "min (min 10000 (500 * 2 ^ n) * 2) (10000::nat) = min 10000 (500 * 2 ^ Suc n)"
  by (auto simp: min_def)

lemma backoff_run:
  assumes "\<not> sw_destroyed s" "sw_reconnect s" "sw_backoffMs s = 500" "sw_timers s = []"
  shows "sw_timers ((sdk_onClose ^^ k) s) = map (\<lambda>n. min 10000 (500 * 2 ^ n)) [0..<k] \<and>
    sw_backoffMs ((sdk_onClose ^^ k) s) = min 10000 (500 * 2 ^ k) \<and>
    \<not> sw_destroyed ((sdk_onClose ^^ k) s) \<and> sw_reconnect ((sdk_onClose ^^ k) s)"
proof (induction k)
  case (Suc k)
  let ?t = "(sdk_onClose ^^ k) s"
  have "sw_timers (sdk_onClose ?t) = sw_timers ?t @ [sw_backoffMs ?t]"
    "sw_backoffMs (sdk_onClose ?t) = min (sw_backoffMs ?t * 2) 10000"
    "\<not> sw_destroyed (sdk_onClose ?t)" "sw_reconnect (sdk_onClose ?t)"
    using Suc by (simp_all add: sdk_onClose_def [of ?t] Let_def)
  then show ?case using Suc by (simp add: backoff_step del: power_Suc)
qed (use assms in simp)

text \<open>
  The back-off doubles up to its cap: \<open>k\<close> close events in a row without an open one ask for
  the delays 500, 1000, 2000, 4000, 8000 and then 10000 ms each.
\<close>

theorem sdk_backoff_schedule:
  assumes "\<not> sw_destroyed s" "sw_reconnect s" "sw_backoffMs s = 500" "sw_timers s = []"
  shows "sw_timers ((sdk_onClose ^^ k) s) = map (\<lambda>n. min 10000 (500 * 2 ^ n)) [0..<k]"
  using backoff_run [OF assms] by blast

theorem sdk_backoff_schedule_witness:
  "sw_timers ((sdk_onClose ^^ 7) demo_sdk) = [500, 1000, 2000, 4000, 8000, 10000, 10000]"
proof -
  have "sw_timers ((sdk_onClose ^^ 7) demo_sdk) = map (\<lambda>n. min 10000 (500 * 2 ^ n)) [0..<7]"
    by (rule sdk_backoff_schedule) (simp_all add: demo_sdk_def new_sdk_ws_def)
  then show ?thesis by (simp add: upt_rec)
qed

lemma sdk_closed_waiting:
  "sdk_step\<^sup>*\<^sup>* demo_sdk (sdk_close (sdk_closed 0 (sdk_connect True demo_sdk)))"
proof -
  have 1: "sdk_step demo_sdk (sdk_connect True demo_sdk)" by (rule ss_connect)
  have 2: "sdk_step (sdk_connect True demo_sdk) (sdk_closed 0 (sdk_connect True demo_sdk))"
    by (rule ss_closed) (simp add: sdk_eval)
  have 3: "sdk_step (sdk_closed 0 (sdk_connect True demo_sdk)) (sdk_close (sdk_closed 0 (sdk_connect True demo_sdk)))"
    by (rule ss_close)
  show ?thesis using 1 2 3 by (meson rtranclp.rtrancl_refl rtranclp.rtrancl_into_rtrancl)
qed

text \<open>
  \<open>close()\<close> during a back-off does not stop the client: a run reaches a state that is
  destroyed, has no socket and no subscriptions, and whose pending timer clears the flag and
  opens a socket.
\<close>

theorem sdk_close_is_undone_by_timer:
  "\<exists>s0 s. new_sdk_ws (Some ''j'') None True = Return s0 \<and> sdk_step\<^sup>*\<^sup>* s0 s \<and>
     sw_destroyed s \<and> sw_ws s = None \<and> sw_subs s = [] \<and> sw_timers s \<noteq> [] \<and>
     \<not> sw_destroyed (sdk_timer True s) \<and> sw_ws (sdk_timer True s) = Some 1 \<and>
     st_at (sw_sockets (sdk_timer True s)) 1 = Connecting"
  using demo_sdk_new sdk_closed_waiting
  by (intro exI [of _ demo_sdk] exI [of _ "sdk_close (sdk_closed 0 (sdk_connect True demo_sdk))"])
    (simp add: sdk_eval)

definition auth_stuck :: sdk_ws where
  "auth_stuck = sdk_open 1 (sdk_timer True (sdk_closed 0 (authenticate True ''a'' (sdk_open 0 (sdk_connect True demo_sdk)))))"

lemma auth_stuck_run: "sdk_step\<^sup>*\<^sup>* demo_sdk auth_stuck"
proof -
  let ?s1 = "sdk_connect True demo_sdk" let ?s2 = "sdk_open 0 ?s1" let ?s3 = "authenticate True ''a'' ?s2"
  let ?s4 = "sdk_closed 0 ?s3" let ?s5 = "sdk_timer True ?s4"
  have 1: "sdk_step demo_sdk ?s1" by (rule ss_connect)
  have 2: "sdk_step ?s1 ?s2" by (rule ss_open) (simp add: sdk_eval)
  have 3: "sdk_step ?s2 ?s3" by (rule ss_authenticate)
  have 4: "sdk_step ?s3 ?s4" by (rule ss_closed) (simp add: sdk_eval)
  have 5: "sdk_step ?s4 ?s5" by (rule ss_timer) (simp add: sdk_eval)
  have 6: "sdk_step ?s5 auth_stuck" unfolding auth_stuck_def by (rule ss_open) (simp add: sdk_eval)
  show ?thesis using 1 2 3 4 5 6 by (meson rtranclp.rtrancl_refl rtranclp.rtrancl_into_rtrancl)
qed

text \<open>
  A connection lost between the auth frame and its answer blocks \<open>authenticate\<close> for good: a
  run reaches an open connection on which a further \<open>authenticate\<close> only stores the token (no
  auth frame leaves) and no message of that connection settles the promise.
\<close>

theorem sdk_authenticate_stuck:
  "\<exists>s. sdk_step\<^sup>*\<^sup>* demo_sdk s \<and> sw_ws s = Some 1 \<and> st_at (sw_sockets s) 1 = Open \<and> sw_authPromise s \<and>
     authenticate ok j s = s\<lparr>sw_jwt := Some j\<rparr> \<and>
     sw_authPromise (sdk_message 1 f s) \<and> sw_settled (sdk_message 1 f s) = []"
proof (intro exI [of _ auth_stuck] conjI)
  have s: "sw_ws auth_stuck = Some 1" "st_at (sw_sockets auth_stuck) 1 = Open" "sw_authPromise auth_stuck"
    "sw_authListeners auth_stuck = [0]" "sw_settled auth_stuck = []"
    by (simp_all add: auth_stuck_def sdk_eval)
  show "sdk_step\<^sup>*\<^sup>* demo_sdk auth_stuck" by (rule auth_stuck_run)
  show "sw_ws auth_stuck = Some 1" "st_at (sw_sockets auth_stuck) 1 = Open" "sw_authPromise auth_stuck" by (rule s)+
  show "authenticate ok j auth_stuck = auth_stuck\<lparr>sw_jwt := Some j\<rparr>"
    using s by (simp add: authenticate_def auth_send_def Let_def)
  have m: "sw_authPromise (sdk_onMessage f auth_stuck)" "sw_authListeners (sdk_onMessage f auth_stuck) = [0]"
    "sw_settled (sdk_onMessage f auth_stuck) = []"
    using s by (auto simp: sdk_onMessage_def split: option.split)
  show "sw_authPromise (sdk_message 1 f auth_stuck)" "sw_settled (sdk_message 1 f auth_stuck) = []"
    using m by (simp_all add: sdk_message_def Let_def)
qed

end
