(* ===== verification/SdkClient.thy ===== *)
theory SdkClient
  imports Session
begin

text \<open>
  The REST client of the TypeScript SDK: the wire types of \<^verbatim>\<open>sdk/typescript/src/types.ts\<close>
  (market ids are plain strings here) and class \<open>PerplexClient\<close> of
  \<^verbatim>\<open>sdk/typescript/src/client.ts\<close>. A method is the request it hands to \<open>fetch\<close>; the answer
  is an argument.
\<close>

section \<open>Wire types\<close>

record market_info =
  mi_id :: string
  mi_base :: string
  mi_quote :: string
  mi_active :: bool
  mi_tickSize :: string
  mi_lotSize :: string
  mi_maxLeverage :: number
  mi_imRatioBps :: number
  mi_mmRatioBps :: number
  mi_liqBonusBps :: number
  mi_takerFeeBps :: number
  mi_makerRebateBps :: number
  mi_fundingIntervalSec :: number
  mi_indexPriceX18 :: string

record sdk_snapshot =
  sn_marketId :: string
  sn_sequence :: int
  sn_bids :: "(string \<times> string) list"
  sn_asks :: "(string \<times> string) list"
  sn_tsNs :: string

record sdk_trade =
  sd_id :: string
  sd_marketId :: string
  sd_price :: string
  sd_qty :: string
  sd_side :: side
  sd_tsNs :: string

record sdk_trades =
  sds_trades :: "sdk_trade list"
  sds_nextBefore :: "string option"

record funding_history_point =
  fh_tsNs :: string
  fh_rateBps :: number

record sdk_funding =
  sf_marketId :: string
  sf_currentRateBps :: number
  sf_nextSettlementTsNs :: string
  sf_history :: "funding_history_point list"

record place_order_request =
  po_marketId :: string
  po_side :: side
  po_type :: order_type
  po_price :: "string option"
  po_qty :: string
  po_timeInForce :: time_in_force
  po_reduceOnly :: "bool option"
  po_postOnly :: "bool option"
  po_clientOrderId :: "string option"
  po_nonce :: string
  po_signature :: string

record place_order_response =
  pp_orderId :: string
  pp_status :: string
  pp_tsNs :: string

record cancel_order_response =
  cr_orderId :: string
  cr_status :: string

record sdk_open_order =
  so_id :: string
  so_marketId :: string
  so_side :: side
  so_type :: order_type
  so_price :: string
  so_qty :: string
  so_remaining :: string
  so_tsNs :: string
  so_clientOrderId :: "string option"

record position_info =
  pi_marketId :: string
  pi_size :: string
  pi_side :: position_side
  pi_entryPriceX18 :: string
  pi_markPriceX18 :: string
  pi_notionalUsdc :: string
  pi_unrealisedPnlUsdc :: string
  pi_realisedPnlUsdc :: string
  pi_leverage :: string
  pi_liquidationPriceX18 :: string
  pi_fundingPaidUsdc :: string
  pi_lastUpdatedTsNs :: string

record sdk_positions =
  sp_collateralUsdc :: string
  sp_freeCollateralUsdc :: string
  sp_totalUnrealisedPnlUsdc :: string
  sp_totalNotionalUsdc :: string
  sp_positions :: "position_info list"

record fill_info =
  fi_id :: string
  fi_orderId :: string
  fi_marketId :: string
  fi_side :: side
  fi_price :: string
  fi_qty :: string
  fi_feeUsdc :: string
  fi_role :: fill_role
  fi_tsNs :: string
  fi_txHash :: string

record sdk_fills =
  sfs_fills :: "fill_info list"
  sfs_nextBefore :: "string option"

record sdk_siwe_verify =
  sy_jwt :: string
  sy_expiresAt :: string

record ('d, 'w) sdk_balance =
  sb_vaultBalanceUsdc :: string
  sb_walletUsdcBalance :: string
  sb_pendingDeposits :: "'d list"
  sb_pendingWithdrawals :: "'w list"

record api_error_body =
  eb_code :: string
  eb_message :: string

section \<open>The client\<close>

record sdk_client =
  sc_baseUrl :: string
  sc_jwt :: "string option"

record perplex_api_error =
  pe_status :: int
  pe_code :: string
  pe_message :: string
  pe_retryAfterSecs :: "number option"

definition strip_slashes :: "string \<Rightarrow> string" where
  "strip_slashes s = rev (dropWhile (\<lambda>c. c = CHR ''/'') (rev s))"

definition new_sdk_client :: "string \<Rightarrow> string option \<Rightarrow> sdk_client" where
  "new_sdk_client baseUrl jwt = \<lparr>sc_baseUrl = strip_slashes baseUrl, sc_jwt = jwt\<rparr>"

definition sdk_setJwt :: "string option \<Rightarrow> sdk_client \<Rightarrow> sdk_client" where
  "sdk_setJwt jwt c = c\<lparr>sc_jwt := jwt\<rparr>"

datatype sdk_body =
    SdkOrder place_order_request
  | SdkAddress string
  | SdkSiwe string string

record sdk_call =
  sl_method :: http_method
  sl_path :: string
  sl_body :: "sdk_body option"

text \<open>\<open>encodeURIComponent\<close> keeps letters, digits and a few marks.\<close>

definition uri_char :: "char \<Rightarrow> string" where
  "uri_char c = (let n = (of_char c :: nat) in
     if is_digit c \<or> (65 \<le> n \<and> n \<le> 90) \<or> (97 \<le> n \<and> n \<le> 122)
        \<or> c \<in> set ''-_.!~*()'' \<or> n = 39 then [c]
     else [CHR 0x25, hex_digit (n div 16), hex_digit (n mod 16)])"

definition encodeURIComponent :: "string \<Rightarrow> string" where
  "encodeURIComponent s = concat (map uri_char s)"

definition sdk_get :: "string \<Rightarrow> sdk_call" where
  "sdk_get path = \<lparr>sl_method = GET, sl_path = path, sl_body = None\<rparr>"

definition listMarkets :: sdk_call where
  "listMarkets = sdk_get ''/v1/markets''"

definition sdk_getOrderbook :: "string \<Rightarrow> depth \<Rightarrow> sdk_call" where
  "sdk_getOrderbook marketId d =
     sdk_get (''/v1/orderbook/'' @ encodeURIComponent marketId @ ''?depth='' @ depth_str d)"

definition opt_param :: "string \<Rightarrow> string option \<Rightarrow> (string \<times> string) list" where
  "opt_param k v = (case v of None \<Rightarrow> [] | Some s \<Rightarrow> [(k, s)])"

definition sdk_getTrades :: "string \<Rightarrow> number option \<Rightarrow> string option \<Rightarrow> sdk_call" where
  "sdk_getTrades marketId limit before = sdk_get (''/v1/trades/'' @ encodeURIComponent marketId @ ''?'' @
     query_string (opt_param ''limit'' (map_option num_str limit) @ opt_param ''before'' before))"

definition sdk_getFunding :: "string \<Rightarrow> string \<Rightarrow> sdk_call" where
  "sdk_getFunding marketId win =
     sdk_get (''/v1/funding/'' @ encodeURIComponent marketId @ ''?range='' @ win)"

definition sdk_siweNonce :: "string \<Rightarrow> sdk_call" where
  "sdk_siweNonce address = \<lparr>sl_method = POST, sl_path = ''/v1/auth/siwe/nonce'', sl_body = Some (SdkAddress address)\<rparr>"

definition sdk_siweVerify :: "string \<Rightarrow> string \<Rightarrow> sdk_call" where
  "sdk_siweVerify message signature =
     \<lparr>sl_method = POST, sl_path = ''/v1/auth/siwe/verify'', sl_body = Some (SdkSiwe message signature)\<rparr>"

definition sdk_placeOrder :: "place_order_request \<Rightarrow> sdk_call" where
  "sdk_placeOrder req = \<lparr>sl_method = POST, sl_path = ''/v1/orders'', sl_body = Some (SdkOrder req)\<rparr>"

definition sdk_cancelOrder :: "string \<Rightarrow> sdk_call" where
  "sdk_cancelOrder orderId =
     \<lparr>sl_method = DELETE, sl_path = ''/v1/orders/'' @ encodeURIComponent orderId, sl_body = None\<rparr>"

definition listOpenOrders :: sdk_call where
  "listOpenOrders = sdk_get ''/v1/orders/open''"

definition listPositions :: sdk_call where
  "listPositions = sdk_get ''/v1/positions''"

definition listFills :: "string option \<Rightarrow> number option \<Rightarrow> string option \<Rightarrow> sdk_call" where
  "listFills marketId limit before = sdk_get (''/v1/fills?'' @
     query_string (truthy_param ''marketId'' marketId @ opt_param ''limit'' (map_option num_str limit) @ opt_param ''before'' before))"

definition sdk_getBalance :: sdk_call where
  "sdk_getBalance = sdk_get ''/v1/account/balance''"

section \<open>The transport\<close>

record sdk_fetch =
  sx_url :: string
  sx_method :: http_method
  sx_headers :: "(string, string) jmap"
  sx_body :: "sdk_body option"

definition sdk_fetch_args :: "sdk_client \<Rightarrow> sdk_call \<Rightarrow> sdk_fetch" where
  "sdk_fetch_args c q =
     \<lparr>sx_url = sc_baseUrl c @ sl_path q, sx_method = sl_method q,
      sx_headers = [(''accept'', ''application/json'')]
        @ (if sl_body q \<noteq> None then [(''content-type'', ''application/json'')] else [])
        @ (if truthy_str (sc_jwt c) then [(''authorization'', ''Bearer '' @ the (sc_jwt c))] else []),
      sx_body = sl_body q\<rparr>"

text \<open>
  An answer: status, the retry-after header, and the body as JSON or not. For a failed status
  only the \<open>error\<close> member of the JSON body is looked at, through \<open>err_of\<close>.
\<close>

record 'j sdk_response =
  sr_status :: int
  sr_retryAfter :: "string option"
  sr_json :: "'j option"

definition parseInt :: "string \<Rightarrow> number" where
  "parseInt s = (let t = dropWhile is_space s; (neg, u) = signed_part t; ds = takeWhile is_digit u
     in if ds = [] then NaN else num_of_int (if neg then - digits_val ds else digits_val ds))"

datatype sdk_error = FetchRejected string | BodyNotJson | ApiErr perplex_api_error

definition sdk_request :: "('j \<Rightarrow> api_error_body option) \<Rightarrow> string + 'j sdk_response \<Rightarrow> (sdk_error, 'j) result" where
  "sdk_request err_of answer = (case answer of
       Inl m \<Rightarrow> Throw (FetchRejected m)
     | Inr res \<Rightarrow>
         if \<not> (200 \<le> sr_status res \<and> sr_status res \<le> 299) then
           (let err = (case sr_json res of None \<Rightarrow> None | Some j \<Rightarrow> err_of j);
                code = (case err of None \<Rightarrow> ''HTTP_ERROR'' | Some e \<Rightarrow> eb_code e);
                message = (case err of None \<Rightarrow> ''request failed: '' @ int_str (sr_status res) | Some e \<Rightarrow> eb_message e)
            in Throw (ApiErr \<lparr>pe_status = sr_status res, pe_code = code, pe_message = message,
                 pe_retryAfterSecs = map_option parseInt (sr_retryAfter res)\<rparr>))
         else (case sr_json res of None \<Rightarrow> Throw BodyNotJson | Some j \<Rightarrow> Return j))"

text \<open>\<open>siweVerify\<close> keeps the token of a successful answer.\<close>

definition siweVerify_done :: "(sdk_error, sdk_siwe_verify) result \<Rightarrow> sdk_client \<Rightarrow> sdk_client" where
  "siweVerify_done r c = (case r of Inl e \<Rightarrow> c | Inr v \<Rightarrow> c\<lparr>sc_jwt := Some (sy_jwt v)\<rparr>)"

section \<open>Properties\<close>

lemma parseInt_nat:
  assumes "0 \<le> n"
  shows "parseInt (int_str n) = num_of_int n"
proof -
  have d: "list_all is_digit (nat_digits n)" using assms by (rule nat_digits_all)
  have p: "list_all plain_char (nat_digits n)" using d by (simp add: list_all_iff plain_char_def)
  have sp: "dropWhile is_space (nat_digits n) = nat_digits n"
    using p nat_digits_ne [of n] by (cases "nat_digits n") (auto simp: plain_not_space)
  have sg: "signed_part (nat_digits n) = (False, nat_digits n)"
    using d nat_digits_ne [of n] by (cases "nat_digits n") (auto simp: signed_part_def is_digit_def Let_def)
  have tw: "takeWhile is_digit (nat_digits n) = nat_digits n"
    using d by (simp add: takeWhile_eq_all_conv list_all_iff)
  show ?thesis using assms by (simp add: parseInt_def int_str_def sp sg tw digits_val_nat_digits)
qed

text \<open>
  What the SDK puts on the wire: the base URL never ends in a slash, so paths are joined by
  exactly one; the bearer header is present exactly for a non-empty token, the content type
  exactly for a body; a successful sign-in makes later requests carry its token; and a
  retry-after header that is a printed number is read back exactly.
\<close>

theorem sdk_wire_format:
  "(sx_url (sdk_fetch_args (new_sdk_client u jwt) q) = strip_slashes u @ sl_path q \<and>
    (strip_slashes u = [] \<or> last (strip_slashes u) \<noteq> CHR ''/'')) \<and>
   (mget (sx_headers (sdk_fetch_args c q)) ''authorization'' =
      (case sc_jwt c of Some (t # ts) \<Rightarrow> Some (''Bearer '' @ t # ts) | _ \<Rightarrow> None)) \<and>
   (mget (sx_headers (sdk_fetch_args c q)) ''content-type'' \<noteq> None \<longleftrightarrow> sl_body q \<noteq> None) \<and>
   sc_jwt (siweVerify_done (Inr v) c) = Some (sy_jwt v) \<and>
   parseInt (int_str (int n)) = num_of_int (int n)"
proof -
  have "strip_slashes u = [] \<or> last (strip_slashes u) \<noteq> CHR ''/''"
    using hd_dropWhile [of "\<lambda>c. c = CHR ''/''" "rev u"]
    by (auto simp: strip_slashes_def last_rev)
  then show ?thesis
    by (auto simp: sdk_fetch_args_def new_sdk_client_def siweVerify_done_def parseInt_nat truthy_str_def
        split: option.split list.split)
qed

end
