(* ===== verification/Ticket.thy ===== *)
theory Ticket
  imports Format JsArray
begin

text \<open>
  Placing and closing orders: the EIP-712 message of \<^verbatim>\<open>web/lib/eip712/order.ts\<close>, the UI store
  of \<^verbatim>\<open>web/lib/store/ui-store.ts\<close>, the order ticket of
  \<^verbatim>\<open>web/components/trade/OrderForm.tsx\<close> and \<^verbatim>\<open>web/lib/trade/use-close-position.ts\<close>. The
  hash and the decimal parser of the \<open>viem\<close> package (\<open>keccak\<close>, \<open>parse_units\<close>), the wallet
  (\<open>sign\<close>) and the exchange (\<open>place\<close>) are parameters.
\<close>

section \<open>The signed message\<close>

record order_domain =
  dm_name :: string
  dm_version :: string
  dm_chainId :: int
  dm_verifyingContract :: string

definition ORDER_DOMAIN :: "int \<Rightarrow> string \<Rightarrow> order_domain" where
  "ORDER_DOMAIN chainId verifyingContract =
     \<lparr>dm_name = ''Perplex'', dm_version = ''1'', dm_chainId = chainId, dm_verifyingContract = verifyingContract\<rparr>"

definition ORDER_TYPES :: "(string \<times> string) list" where
  "ORDER_TYPES = [(''owner'', ''address''), (''marketId'', ''bytes32''), (''side'', ''uint8''),
     (''orderType'', ''uint8''), (''price'', ''uint256''), (''qty'', ''uint256''), (''timeInForce'', ''uint8''),
     (''reduceOnly'', ''bool''), (''postOnly'', ''bool''), (''nonce'', ''uint256''), (''expiryTsSec'', ''uint64'')]"

fun SIDE :: "side \<Rightarrow> int" where
  "SIDE Buy = 0"
| "SIDE Sell = 1"

fun TYPE_CODE :: "order_type \<Rightarrow> int" where
  "TYPE_CODE Market = 0"
| "TYPE_CODE Limit = 1"

fun TIF :: "time_in_force \<Rightarrow> int" where
  "TIF Gtc = 0"
| "TIF Ioc = 1"
| "TIF Fok = 2"

definition marketIdHash :: "(string \<Rightarrow> string) \<Rightarrow> market_id \<Rightarrow> string" where
  "marketIdHash keccak mid = keccak (market_id_str mid)"

record build_order_input =
  bo_owner :: string
  bo_marketId :: market_id
  bo_side :: side
  bo_type :: order_type
  bo_price :: string
  bo_qty :: string
  bo_timeInForce :: time_in_force
  bo_reduceOnly :: bool
  bo_postOnly :: bool
  bo_nonce :: string
  bo_expiryTsSec :: "int option"

record typed_order =
  to_owner :: string
  to_marketId :: string
  to_side :: int
  to_orderType :: int
  to_price :: int
  to_qty :: int
  to_timeInForce :: int
  to_reduceOnly :: bool
  to_postOnly :: bool
  to_nonce :: int
  to_expiryTsSec :: int

text \<open>What the wallet and the network can throw: an \<open>Error\<close> with its message, or something else.\<close>

datatype thrown = ErrorObj string | NonError

type_synonym unit_parser = "string \<Rightarrow> nat \<Rightarrow> (thrown, int) result"

definition buildOrderTypedMessage ::
    "(string \<Rightarrow> string) \<Rightarrow> unit_parser \<Rightarrow> build_order_input \<Rightarrow> (thrown, typed_order) result" where
  "buildOrderTypedMessage keccak parse_units input =
     (case parse_units (bo_price input) 18 of Inl e \<Rightarrow> Throw e
      | Inr price \<Rightarrow> (case parse_units (bo_qty input) 18 of Inl e \<Rightarrow> Throw e
        | Inr qty \<Rightarrow> (case to_bigint (bo_nonce input) of Inl e \<Rightarrow> Throw (ErrorObj ''SyntaxError'')
          | Inr nonce \<Rightarrow> Return \<lparr>to_owner = bo_owner input, to_marketId = marketIdHash keccak (bo_marketId input),
              to_side = SIDE (bo_side input), to_orderType = TYPE_CODE (bo_type input), to_price = price, to_qty = qty,
              to_timeInForce = TIF (bo_timeInForce input), to_reduceOnly = bo_reduceOnly input,
              to_postOnly = bo_postOnly input, to_nonce = nonce,
              to_expiryTsSec = (case bo_expiryTsSec input of None \<Rightarrow> 0 | Some t \<Rightarrow> t)\<rparr>)))"

section \<open>The UI store\<close>

datatype toast_kind = Info | Success | Warn | Error

record toast =
  ts_id :: string
  ts_kind :: toast_kind
  ts_title :: string
  ts_body :: "string option"

record celebration =
  ce_id :: string
  ce_title :: string
  ce_body :: "string option"

text \<open>An optimistic order is an open order that always has its client order id.\<close>

record ui_state =
  ui_selectedMarket :: market_id
  ui_walletDrawerOpen :: bool
  ui_optimisticOrders :: "open_order list"
  ui_toasts :: "toast list"
  ui_celebration :: "celebration option"

definition initial_ui :: ui_state where
  "initial_ui = \<lparr>ui_selectedMarket = BtcUsd, ui_walletDrawerOpen = False, ui_optimisticOrders = [],
     ui_toasts = [], ui_celebration = None\<rparr>"

definition setSelectedMarket :: "market_id \<Rightarrow> ui_state \<Rightarrow> ui_state" where
  "setSelectedMarket m u = u\<lparr>ui_selectedMarket := m\<rparr>"

definition openWalletDrawer :: "ui_state \<Rightarrow> ui_state" where
  "openWalletDrawer u = u\<lparr>ui_walletDrawerOpen := True\<rparr>"

definition closeWalletDrawer :: "ui_state \<Rightarrow> ui_state" where
  "closeWalletDrawer u = u\<lparr>ui_walletDrawerOpen := False\<rparr>"

definition addOptimisticOrder :: "open_order \<Rightarrow> ui_state \<Rightarrow> ui_state" where
  "addOptimisticOrder o' u = u\<lparr>ui_optimisticOrders :=
     o' # filter (\<lambda>x. oo_clientOrderId x \<noteq> oo_clientOrderId o') (ui_optimisticOrders u)\<rparr>"

definition removeOptimisticOrder :: "string \<Rightarrow> ui_state \<Rightarrow> ui_state" where
  "removeOptimisticOrder cid u = u\<lparr>ui_optimisticOrders :=
     filter (\<lambda>x. oo_clientOrderId x \<noteq> Some cid) (ui_optimisticOrders u)\<rparr>"

text \<open>\<open>suffix\<close> is the time stamp and random part of the id.\<close>

definition pushToast :: "string \<Rightarrow> toast_kind \<Rightarrow> string \<Rightarrow> string option \<Rightarrow> ui_state \<Rightarrow> ui_state" where
  "pushToast suffix kind title body u = u\<lparr>ui_toasts := ui_toasts u @
     [\<lparr>ts_id = ''t_'' @ suffix, ts_kind = kind, ts_title = title, ts_body = body\<rparr>]\<rparr>"

definition dismissToast :: "string \<Rightarrow> ui_state \<Rightarrow> ui_state" where
  "dismissToast tid u = u\<lparr>ui_toasts := filter (\<lambda>t. ts_id t \<noteq> tid) (ui_toasts u)\<rparr>"

definition celebrate :: "string \<Rightarrow> string \<Rightarrow> string option \<Rightarrow> ui_state \<Rightarrow> ui_state" where
  "celebrate suffix title body u = u\<lparr>ui_celebration :=
     Some \<lparr>ce_id = ''c_'' @ suffix, ce_title = title, ce_body = body\<rparr>\<rparr>"

definition dismissCelebration :: "ui_state \<Rightarrow> ui_state" where
  "dismissCelebration u = u\<lparr>ui_celebration := None\<rparr>"

section \<open>The fill preview\<close>

record fill_preview =
  fw_effPrice :: number
  fw_filledQty :: number
  fw_remaining :: number
  fw_worstPrice :: "number option"
  fw_wouldCross :: bool

record walk =
  wk_remaining :: number
  wk_notional :: number
  wk_filled :: number
  wk_worst :: "number option"
  wk_crossed :: bool

text \<open>The loop over the levels: \<open>break\<close> ends it, \<open>continue\<close> skips the level.\<close>

fun walk_levels :: "side \<Rightarrow> order_type \<Rightarrow> number \<Rightarrow> orderbook_level list \<Rightarrow> walk \<Rightarrow> walk" where
  "walk_levels sd ty limitPx [] w = w"
| "walk_levels sd ty limitPx ((pxStr, qtyStr) # ls) w =
     (if num_le (wk_remaining w) (Fin 0) then w
      else let lvlPx = to_number pxStr; lvlQty = to_number qtyStr in
        if \<not> is_finite lvlPx \<or> \<not> is_finite lvlQty \<or> num_le lvlQty (Fin 0) then walk_levels sd ty limitPx ls w
        else if ty = Limit \<and> \<not> is_finite limitPx then w
        else if ty = Limit \<and> sd = Buy \<and> num_lt limitPx lvlPx then w
        else if ty = Limit \<and> sd = Sell \<and> num_lt lvlPx limitPx then w
        else let tk = num_min (wk_remaining w) lvlQty in
          walk_levels sd ty limitPx ls
            \<lparr>wk_remaining = wk_remaining w - tk, wk_notional = wk_notional w + tk * lvlPx,
             wk_filled = wk_filled w + tk, wk_worst = Some lvlPx,
             wk_crossed = (wk_crossed w \<or> ty = Limit)\<rparr>)"

definition previewFill :: "side \<Rightarrow> order_type \<Rightarrow> number \<Rightarrow> string \<Rightarrow> orderbook_snapshot option \<Rightarrow> number option \<Rightarrow> fill_preview" where
  "previewFill sd ty qty priceInput book markPx =
     (let limitPx = (if ty = Limit then to_number priceInput else NaN);
          mark0 = (case markPx of None \<Rightarrow> Fin 0 | Some m \<Rightarrow> m);
          resting = (if is_finite limitPx then limitPx else Fin 0);
          fallback = \<lparr>fw_effPrice = (if ty = Market then mark0 else resting), fw_filledQty = Fin 0,
            fw_remaining = qty, fw_worstPrice = None, fw_wouldCross = False\<rparr>
      in case book of None \<Rightarrow> fallback
         | Some b \<Rightarrow>
           if num_le qty (Fin 0) then fallback
           else let levels = (if sd = Buy then ob_asks b else ob_bids b) in
             if levels = [] then fallback
             else let w = walk_levels sd ty limitPx levels
                    \<lparr>wk_remaining = qty, wk_notional = Fin 0, wk_filled = Fin 0, wk_worst = None, wk_crossed = False\<rparr> in
               if ty = Limit \<and> \<not> wk_crossed w
               then \<lparr>fw_effPrice = resting, fw_filledQty = Fin 0, fw_remaining = qty, fw_worstPrice = None, fw_wouldCross = False\<rparr>
               else if num_le (wk_filled w) (Fin 0)
               then \<lparr>fw_effPrice = (if ty = Limit \<and> is_finite limitPx then limitPx else mark0), fw_filledQty = Fin 0,
                     fw_remaining = qty, fw_worstPrice = None, fw_wouldCross = wk_crossed w\<rparr>
               else \<lparr>fw_effPrice = wk_notional w / wk_filled w, fw_filledQty = wk_filled w,
                     fw_remaining = wk_remaining w, fw_worstPrice = wk_worst w, fw_wouldCross = wk_crossed w\<rparr>)"

definition sideLiqEstimate :: "side \<Rightarrow> number \<Rightarrow> number \<Rightarrow> market option \<Rightarrow> number option" where
  "sideLiqEstimate sd price leverage mk = (case mk of None \<Rightarrow> None
     | Some m \<Rightarrow> if \<not> truthy price \<or> \<not> truthy leverage then None
         else let mmRatio = mk_mmRatioBps m / Fin 10000 in
           if sd = Buy then Some (price * (Fin 1 - Fin 1 / leverage + mmRatio))
           else Some (price * (Fin 1 + Fin 1 / leverage - mmRatio)))"

section \<open>The ticket\<close>

record form =
  of_side :: side
  of_type :: order_type
  of_priceInput :: string
  of_qtyInput :: string
  of_leverage :: number
  of_tif :: time_in_force
  of_reduceOnly :: bool
  of_postOnly :: bool
  of_lastType :: "order_type option"

definition initial_form :: form where
  "initial_form = \<lparr>of_side = Buy, of_type = Market, of_priceInput = [], of_qtyInput = [], of_leverage = Fin 2,
     of_tif = Gtc, of_reduceOnly = False, of_postOnly = False, of_lastType = None\<rparr>"

text \<open>What the form reads from elsewhere.\<close>

record form_env =
  fe_marketId :: market_id
  fe_market :: "market option"
  fe_oracle :: "ws_oracle option"
  fe_book :: "orderbook_snapshot option"
  fe_freeCollateral :: "string option"
  fe_connected :: bool
  fe_address :: "string option"
  fe_chainId :: "int option"
  fe_pending :: bool

definition markPx :: "form_env \<Rightarrow> number option" where
  "markPx e = (case fe_oracle e of Some o' \<Rightarrow> Some (x18ToDollars (NStr (wo_priceX18 o')))
     | None \<Rightarrow> map_option (\<lambda>m. x18ToDollars (NStr (mk_indexPriceX18 m))) (fe_market e))"

definition tickDec :: "form_env \<Rightarrow> nat" where
  "tickDec e = (case fe_market e of None \<Rightarrow> 2 | Some m \<Rightarrow> max 2 (decOf (mk_tickSize m)))"

definition lotDec :: "form_env \<Rightarrow> nat" where
  "lotDec e = (case fe_market e of None \<Rightarrow> 4 | Some m \<Rightarrow> decOf (mk_lotSize m))"

text \<open>The effect that prefills the limit price once per change to limit.\<close>

definition prefill :: "form_env \<Rightarrow> form \<Rightarrow> form" where
  "prefill e f =
     (let f1 = (case markPx e of Some px \<Rightarrow>
                  if of_type f = Limit \<and> of_lastType f \<noteq> Some Limit
                  then f\<lparr>of_priceInput := to_fixed px (tickDec e)\<rparr> else f
                | None \<Rightarrow> f)
      in f1\<lparr>of_lastType := Some (of_type f)\<rparr>)"

definition form_qty :: "form \<Rightarrow> number" where
  "form_qty f = (let n = to_number (of_qtyInput f) in if truthy n then n else Fin 0)"

record ticket =
  tk_effPrice :: number
  tk_notional :: number
  tk_margin :: number
  tk_fee :: number
  tk_liqEst :: "number option"
  tk_free :: "number option"
  tk_insufficient :: bool
  tk_canSubmit :: bool

definition ticket_of :: "form_env \<Rightarrow> form \<Rightarrow> ticket" where
  "ticket_of e f =
     (let qty = form_qty f;
          effPrice = fw_effPrice (previewFill (of_side f) (of_type f) qty (of_priceInput f) (fe_book e) (markPx e));
          notional = effPrice * qty;
          margin = (if num_lt (Fin 0) (of_leverage f) then notional / of_leverage f else Fin 0);
          feeBps = (case fe_market e of None \<Rightarrow> Fin 5 | Some m \<Rightarrow> mk_takerFeeBps m);
          fee = notional * (feeBps / Fin 10000);
          free = (case fe_freeCollateral e of Some (c # cs) \<Rightarrow> Some (usdc6ToDollars (NStr (c # cs))) | _ \<Rightarrow> None);
          insufficient = (case free of None \<Rightarrow> False | Some x \<Rightarrow> num_lt x margin)
      in \<lparr>tk_effPrice = effPrice, tk_notional = notional, tk_margin = margin, tk_fee = fee,
          tk_liqEst = sideLiqEstimate (of_side f) effPrice (of_leverage f) (fe_market e),
          tk_free = free, tk_insufficient = insufficient,
          tk_canSubmit = (fe_connected e \<and> fe_market e \<noteq> None \<and> num_lt (Fin 0) qty \<and>
            (of_type f = Market \<or> num_lt (Fin 0) effPrice) \<and> \<not> insufficient \<and> \<not> fe_pending e)\<rparr>)"

text \<open>The quick size buttons.\<close>

definition quick_size :: "form_env \<Rightarrow> number \<Rightarrow> form \<Rightarrow> form" where
  "quick_size e pct f =
     (let t = ticket_of e f in
      case tk_free t of None \<Rightarrow> f
      | Some free \<Rightarrow>
          if \<not> truthy free \<or> \<not> truthy (tk_effPrice t) \<or> num_le (of_leverage f) (Fin 0) then f
          else let maxQty = free * of_leverage f / tk_effPrice t in
            f\<lparr>of_qtyInput := to_fixed (maxQty * (pct / Fin 100)) (lotDec e)\<rparr>)"

definition LEVERAGE_PRESETS :: "nat list" where
  "LEVERAGE_PRESETS = [1, 2, 5, 10, 20]"

definition leverage_presets :: "market option \<Rightarrow> nat list" where
  "leverage_presets mk = filter (\<lambda>l. num_le (Fin (of_nat l))
     (case mk of None \<Rightarrow> Fin 20 | Some m \<Rightarrow> mk_maxLeverage m)) LEVERAGE_PRESETS"

section \<open>The controls of the form\<close>

definition max_leverage :: "form_env \<Rightarrow> number" where
  "max_leverage e = (case fe_market e of None \<Rightarrow> Fin 20 | Some m \<Rightarrow> mk_maxLeverage m)"

datatype form_event =
    PickSide side | PickType order_type | TypePrice string | TypeSize string | QuickSize nat
  | SlideLeverage int | PickLeverage nat | SetReduceOnly bool | SetPostOnly bool | PickTif time_in_force

text \<open>
  Which controls are on the page and enabled: the price field and the time in force appear for
  limit orders only, the post-only box is disabled for market orders, the range input yields
  integers from its minimum to its maximum.
\<close>

fun form_enabled :: "form_env \<Rightarrow> form \<Rightarrow> form_event \<Rightarrow> bool" where
  "form_enabled e f (TypePrice s) \<longleftrightarrow> of_type f = Limit"
| "form_enabled e f (QuickSize pct) \<longleftrightarrow> pct \<in> set [25, 50, 75, 100]"
| "form_enabled e f (SlideLeverage l) \<longleftrightarrow> 1 \<le> l \<and> num_le (Fin (of_int l)) (max_leverage e)"
| "form_enabled e f (PickLeverage l) \<longleftrightarrow> l \<in> set (leverage_presets (fe_market e))"
| "form_enabled e f (SetPostOnly b) \<longleftrightarrow> of_type f \<noteq> Market"
| "form_enabled e f (PickTif t) \<longleftrightarrow> of_type f = Limit"
| "form_enabled e f _ \<longleftrightarrow> True"

fun form_step :: "form_env \<Rightarrow> form_event \<Rightarrow> form \<Rightarrow> form" where
  "form_step e (PickSide sd) f = f\<lparr>of_side := sd\<rparr>"
| "form_step e (PickType t) f = f\<lparr>of_type := t\<rparr>"
| "form_step e (TypePrice s) f = f\<lparr>of_priceInput := s\<rparr>"
| "form_step e (TypeSize s) f = f\<lparr>of_qtyInput := s\<rparr>"
| "form_step e (QuickSize pct) f = quick_size e (Fin (of_nat pct)) f"
| "form_step e (SlideLeverage l) f = f\<lparr>of_leverage := to_number (int_str l)\<rparr>"
| "form_step e (PickLeverage l) f = f\<lparr>of_leverage := Fin (of_nat l)\<rparr>"
| "form_step e (SetReduceOnly b) f = f\<lparr>of_reduceOnly := b\<rparr>"
| "form_step e (SetPostOnly b) f = f\<lparr>of_postOnly := b\<rparr>"
| "form_step e (PickTif t) f = f\<lparr>of_tif := t\<rparr>"

text \<open>A step of the form on screen: the user works a control, or the prefill effect runs after a render.\<close>

inductive form_moves :: "form_env \<Rightarrow> form \<Rightarrow> form \<Rightarrow> bool" for e where
  control: "form_enabled e f ev \<Longrightarrow> form_moves e f (form_step e ev f)"
| effect: "form_moves e f (prefill e f)"

text \<open>The filled share of the slider, in percent.\<close>

definition slider_fill :: "form_env \<Rightarrow> form \<Rightarrow> number" where
  "slider_fill e f = (of_leverage f - Fin 1) / (max_leverage e - Fin 1) * Fin 100"

definition middle_dot :: string where
  "middle_dot = [CHR 0xC2, CHR 0xB7]"

fun TIF_HELP :: "time_in_force \<Rightarrow> string" where
  "TIF_HELP Gtc = ''Good till cancelled '' @ middle_dot @ '' rests in the book until filled or you cancel it''"
| "TIF_HELP Ioc = ''Immediate or cancel '' @ middle_dot @ '' fills what'' @ [CHR 0x27] @ ''s available now, kills the rest''"
| "TIF_HELP Fok = ''Fill or kill '' @ middle_dot @ '' fully fills instantly or rejects the entire order''"

datatype highlight = WarnHighlight | ShortHighlight

definition value_class :: "highlight option \<Rightarrow> bool \<Rightarrow> string" where
  "value_class h muted = (case h of
       Some WarnHighlight \<Rightarrow> ''text-warn''
     | Some ShortHighlight \<Rightarrow> ''text-short font-semibold''
     | None \<Rightarrow> if muted then ''text-fg-mid'' else ''text-fg'')"

definition dollars_or_dash :: "number \<Rightarrow> string" where
  "dollars_or_dash n = (if truthy n then CHR ''$'' # commaFmt n 2 else dash)"

text \<open>The summary box, as label, value and class of every row.\<close>

definition summary_rows :: "form_env \<Rightarrow> form \<Rightarrow> (string \<times> string \<times> string) list" where
  "summary_rows e f = (let t = ticket_of e f in
     [(''Order value'', dollars_or_dash (tk_notional t), value_class None False),
      (''Margin required'', dollars_or_dash (tk_margin t),
         value_class (if tk_insufficient t then Some ShortHighlight else None) False),
      (''Est. fee'', dollars_or_dash (tk_fee t), value_class None True),
      (''Liquidation @ '' @ num_str (of_leverage f) @ ''x'',
         case tk_liqEst t of None \<Rightarrow> dash | Some l \<Rightarrow> CHR ''$'' # commaFmt l (tickDec e),
         value_class (map_option (\<lambda>_. WarnHighlight) (tk_liqEst t)) False),
      (''Free collateral'',
         case tk_free t of None \<Rightarrow> dash | Some x \<Rightarrow> CHR ''$'' # commaFmt x 2, value_class None True)])"

definition direction :: "side \<Rightarrow> string" where
  "direction sd = (if sd = Buy then ''Long'' else ''Short'')"

text \<open>The button under the ticket, which connects the wallet or submits the order.\<close>

record ticket_button =
  tb_label :: string
  tb_submits :: bool
  tb_disabled :: bool
  tb_loading :: bool

definition ticket_button_of :: "form_env \<Rightarrow> bool \<Rightarrow> form \<Rightarrow> ticket_button" where
  "ticket_button_of e connecting f =
     (if \<not> fe_connected e
      then \<lparr>tb_label = ''Connect wallet to trade'', tb_submits = False, tb_disabled = False, tb_loading = connecting\<rparr>
      else let t = ticket_of e f in
        \<lparr>tb_label = (if tk_insufficient t then ''Insufficient margin''
                     else direction (of_side f) @ '' '' @ (case fe_market e of None \<Rightarrow> [] | Some m \<Rightarrow> mk_base m)),
         tb_submits = True, tb_disabled = \<not> tk_canSubmit t, tb_loading = fe_pending e\<rparr>)"

section \<open>Submitting\<close>

definition SETTLEMENT_PLACEHOLDER :: string where
  "SETTLEMENT_PLACEHOLDER = ''0x0000000000000000000000000000000000000000''"

text \<open>What the environment decides during one submission.\<close>

record submit_env =
  se_keccak :: "string \<Rightarrow> string"
  se_parse_units :: unit_parser
  se_sign :: "order_domain \<Rightarrow> typed_order \<Rightarrow> (thrown, string) result"
  se_place :: "order_request \<Rightarrow> (thrown, order_ack) result"
  se_now :: int
  se_suffix :: string
  se_ids :: "nat \<Rightarrow> string"

definition thrown_or :: "string \<Rightarrow> thrown \<Rightarrow> string" where
  "thrown_or d e = (case e of ErrorObj m \<Rightarrow> m | NonError \<Rightarrow> d)"

definition optimisticPrice :: "form_env \<Rightarrow> form \<Rightarrow> string" where
  "optimisticPrice e f = (if of_type f = Market
     then to_fixed (case markPx e of None \<Rightarrow> Fin 0 | Some p \<Rightarrow> p) (tickDec e) else of_priceInput f)"

definition optimisticQty :: "form_env \<Rightarrow> form \<Rightarrow> string" where
  "optimisticQty e f = to_fixed (form_qty f) (lotDec e)"

definition order_input :: "form_env \<Rightarrow> form \<Rightarrow> string \<Rightarrow> string \<Rightarrow> build_order_input" where
  "order_input e f owner nonce =
     \<lparr>bo_owner = owner, bo_marketId = fe_marketId e, bo_side = of_side f, bo_type = of_type f,
      bo_price = optimisticPrice e f, bo_qty = optimisticQty e f, bo_timeInForce = of_tif f,
      bo_reduceOnly = of_reduceOnly f, bo_postOnly = of_postOnly f, bo_nonce = nonce, bo_expiryTsSec = None\<rparr>"

text \<open>The signature step shared by the ticket and the close button: without a chain id nothing is signed.\<close>

definition sign_order :: "submit_env \<Rightarrow> int option \<Rightarrow> build_order_input \<Rightarrow> (thrown, string) result" where
  "sign_order s chainId input =
     (case chainId of None \<Rightarrow> Return ''0x0000''
      | Some c \<Rightarrow> if c = 0 then Return ''0x0000''
          else (case buildOrderTypedMessage (se_keccak s) (se_parse_units s) input of Inl e \<Rightarrow> Throw e
            | Inr m \<Rightarrow> se_sign s (ORDER_DOMAIN c SETTLEMENT_PLACEHOLDER) m))"

definition order_req :: "form_env \<Rightarrow> form \<Rightarrow> string \<Rightarrow> string \<Rightarrow> string \<Rightarrow> order_request" where
  "order_req e f cid nonce signature =
     \<lparr>rq_marketId = fe_marketId e, rq_side = of_side f, rq_type = of_type f, rq_price = optimisticPrice e f,
      rq_qty = optimisticQty e f, rq_timeInForce = of_tif f, rq_reduceOnly = of_reduceOnly f,
      rq_postOnly = of_postOnly f, rq_clientOrderId = cid, rq_nonce = nonce, rq_signature = signature\<rparr>"

definition ack_copy :: "form \<Rightarrow> string \<Rightarrow> order_ack_status \<Rightarrow> string \<times> string" where
  "ack_copy f sizeLabel st = (case st of
       AckFilled \<Rightarrow> (if of_type f = Market then ''Position opened'' else ''Limit filled at market'',
                     direction (of_side f) @ '' '' @ sizeLabel)
     | AckPartial \<Rightarrow> (''Order partially filled'',
                     direction (of_side f) @ '' '' @ sizeLabel @ '' '' @ dash @ '' remainder rests on the book.'')
     | AckAccepted \<Rightarrow> (''Order placed'',
                     direction (of_side f) @ '' '' @ sizeLabel @ '' '' @ dash @ '' waiting on the book.''))"

text \<open>\<open>onSubmit\<close>: the new store and form, and the request handed to the exchange, if any.\<close>

definition onSubmit :: "form_env \<Rightarrow> submit_env \<Rightarrow> form \<Rightarrow> ui_state \<Rightarrow> ui_state \<times> form \<times> order_request option" where
  "onSubmit e s f u = (case (fe_market e, fe_address e) of
       (Some mk, Some (a # as)) \<Rightarrow>
         (let cid = ''cli_'' @ se_suffix s;
              nonce = nowTsNs (se_now s);
              price = optimisticPrice e f;
              qty = optimisticQty e f;
              u1 = addOptimisticOrder \<lparr>oo_id = ''opt_'' @ cid, oo_marketId = fe_marketId e, oo_side = of_side f,
                     oo_type = of_type f, oo_price = price, oo_qty = qty, oo_remaining = qty, oo_tsNs = nonce,
                     oo_clientOrderId = Some cid\<rparr> u;
              u2 = pushToast (se_ids s 0) Info (direction (of_side f) @ '' '' @ mk_base mk @ '' accepted'')
                     (Some (qty @ '' @ '' @ (if of_type f = Market then ''mkt'' else price))) u1
          in case sign_order s (fe_chainId e) (order_input e f (a # as) nonce) of
               Inl err \<Rightarrow> (pushToast (se_ids s 1) Error ''Order rejected'' (Some (thrown_or ''Wallet signature failed'' err))
                             (removeOptimisticOrder cid u2), f, None)
             | Inr signature \<Rightarrow>
                 (let req = order_req e f cid nonce signature in
                  case se_place s req of
                    Inl err \<Rightarrow> (pushToast (se_ids s 1) Error ''Order rejected'' (Some (thrown_or ''Unknown error'' err))
                                  (removeOptimisticOrder cid u2), f, Some req)
                  | Inr ack \<Rightarrow>
                      (let (title, body) = ack_copy f (qty @ '' '' @ mk_base mk) (ack_status ack);
                           u3 = celebrate (se_ids s 1) title (Some body) (removeOptimisticOrder cid u2);
                           u4 = pushToast (se_ids s 2) Success title (Some body) u3
                       in (u4, if of_type f = Market \<or> ack_status ack = AckFilled then f\<lparr>of_qtyInput := []\<rparr> else f, Some req))))
     | _ \<Rightarrow> (u, f, None))"

section \<open>Closing a position\<close>

definition close_side :: "position \<Rightarrow> side" where
  "close_side p = (if ps_side p = Long then Sell else Buy)"

definition close_input :: "position \<Rightarrow> string \<Rightarrow> string \<Rightarrow> build_order_input" where
  "close_input p owner nonce =
     \<lparr>bo_owner = owner, bo_marketId = ps_marketId p, bo_side = close_side p, bo_type = Market, bo_price = ''0'',
      bo_qty = ps_size p, bo_timeInForce = Ioc, bo_reduceOnly = True, bo_postOnly = False, bo_nonce = nonce,
      bo_expiryTsSec = None\<rparr>"

definition close_req :: "position \<Rightarrow> string \<Rightarrow> string \<Rightarrow> string \<Rightarrow> order_request" where
  "close_req p cid nonce signature =
     \<lparr>rq_marketId = ps_marketId p, rq_side = close_side p, rq_type = Market, rq_price = ''0'', rq_qty = ps_size p,
      rq_timeInForce = Ioc, rq_reduceOnly = True, rq_postOnly = False, rq_clientOrderId = cid, rq_nonce = nonce,
      rq_signature = signature\<rparr>"

definition base_of :: "market_id \<Rightarrow> string" where
  "base_of mid = to_upper (hd (split_at (CHR ''-'') (market_id_str mid)))"

definition thrown_msg :: "thrown \<Rightarrow> string option" where
  "thrown_msg e = (case e of ErrorObj m \<Rightarrow> Some m | NonError \<Rightarrow> None)"

definition closePosition :: "string option \<Rightarrow> int option \<Rightarrow> submit_env \<Rightarrow> position \<Rightarrow> ui_state \<Rightarrow> ui_state \<times> order_request option" where
  "closePosition address chainId s p u = (case address of
       Some (a # as) \<Rightarrow>
         (let cid = ''close_'' @ se_suffix s; nonce = nowTsNs (se_now s) in
          case sign_order s chainId (close_input p (a # as) nonce) of
            Inl err \<Rightarrow> (pushToast (se_ids s 0) Error ''Close cancelled'' (thrown_msg err) u, None)
          | Inr signature \<Rightarrow>
              (let req = close_req p cid nonce signature in
               case se_place s req of
                 Inl err \<Rightarrow> (pushToast (se_ids s 0) Error ''Close failed'' (thrown_msg err) u, Some req)
               | Inr ack \<Rightarrow>
                   (let body = (if ps_side p = Long then ''Long'' else ''Short'') @ '' '' @ ps_size p @ '' '' @
                          base_of (ps_marketId p) @ '' closed''
                    in (pushToast (se_ids s 1) Success ''Position closed'' (Some body)
                          (celebrate (se_ids s 0) ''Position closed'' (Some body) u), Some req))))
     | _ \<Rightarrow> (pushToast (se_ids s 0) Error ''Connect wallet first'' None u, None))"

section \<open>Lemmas\<close>

subsection \<open>The controls\<close>

text \<open>The leverage a form can hold: an integer from one to the maximum of its market.\<close>

definition leverage_ok :: "form_env \<Rightarrow> form \<Rightarrow> bool" where
  "leverage_ok e f \<longleftrightarrow> (\<exists>l. of_leverage f = Fin (of_int l) \<and> 1 \<le> l \<and> num_le (of_leverage f) (max_leverage e))"

lemma quick_size_keeps [simp]:
  "of_leverage (quick_size e pct f) = of_leverage f" "of_postOnly (quick_size e pct f) = of_postOnly f"
  by (simp_all add: quick_size_def Let_def split: option.split)

lemma prefill_keeps [simp]:
  "of_leverage (prefill e f) = of_leverage f" "of_postOnly (prefill e f) = of_postOnly f"
  by (simp_all add: prefill_def Let_def split: option.split)

lemma preset_in_range: "l \<in> set (leverage_presets mk) \<Longrightarrow>
  1 \<le> l \<and> num_le (Fin (of_nat l)) (case mk of None \<Rightarrow> Fin 20 | Some m \<Rightarrow> mk_maxLeverage m)"
  unfolding leverage_presets_def set_filter by (auto simp: LEVERAGE_PRESETS_def)

lemma form_moves_leverage:
  assumes "num_le (max_leverage e) (Fin (2 ^ 53))" "form_moves e f f'" "leverage_ok e f"
  shows "leverage_ok e f'"
  using assms(2,3,1)
proof (induction rule: form_moves.induct)
  case (control f ev)
  show ?case
  proof (cases ev)
    case (SlideLeverage l)
    with control have l: "1 \<le> l" "num_le (Fin (of_int l)) (max_leverage e)" by auto
    then have "(of_int l :: rat) \<le> of_int (2 ^ 53)" using control.prems(2) by (cases "max_leverage e") auto
    then have "l \<le> 2 ^ 53" by (simp only: of_int_le_iff)
    then show ?thesis using l by (auto simp: leverage_ok_def SlideLeverage to_number_int_str)
  next
    case (PickLeverage l)
    with control preset_in_range [of l "fe_market e"] show ?thesis
      by (auto simp: leverage_ok_def max_leverage_def intro: exI [of _ "int l"])
  qed (use control in \<open>auto simp: leverage_ok_def\<close>)
qed (simp add: leverage_ok_def)

text \<open>The range holds along every run of the form in one market.\<close>

interpretation fm: transition_system "form_moves e" "\<lambda>f. num_le (max_leverage e) (Fin (2 ^ 53)) \<and> leverage_ok e f" for e
  by unfold_locales (auto intro: form_moves_leverage)

lemma reachable_leverage:
  assumes "num_le (Fin 2) (max_leverage e)" "num_le (max_leverage e) (Fin (2 ^ 53))" "(form_moves e)\<^sup>*\<^sup>* initial_form f"
  shows "\<exists>l. of_leverage f = Fin (of_int l) \<and> 1 \<le> l \<and> num_le (of_leverage f) (max_leverage e)"
proof -
  have "leverage_ok e initial_form" using assms(1) by (auto simp: leverage_ok_def initial_form_def intro: exI [of _ 2])
  then show ?thesis using fm.run_inv [OF assms(3)] assms(2) by (simp add: leverage_ok_def)
qed

text \<open>
  The post-only choice of a limit order survives the change to a market order: it can no longer be
  taken back, and the request carries it.
\<close>

lemma post_only_survives_market:
  "\<exists>f. (form_moves e)\<^sup>*\<^sup>* initial_form f \<and> of_type f = Market \<and> \<not> form_enabled e f (SetPostOnly False) \<and>
     rq_postOnly (order_req e f cid nonce signature)"
proof (intro exI conjI)
  let ?f1 = "form_step e (PickType Limit) initial_form"
  let ?f2 = "form_step e (SetPostOnly True) ?f1"
  let ?f3 = "form_step e (PickType Market) ?f2"
  have "form_moves e initial_form ?f1" by (rule form_moves.control) simp
  moreover have "form_moves e ?f1 ?f2" by (rule form_moves.control) simp
  moreover have "form_moves e ?f2 ?f3" by (rule form_moves.control) simp
  ultimately show "(form_moves e)\<^sup>*\<^sup>* initial_form ?f3" by (rule rtranclp_trans [OF rtranclp_trans, OF r_into_rtranclp r_into_rtranclp r_into_rtranclp])
  show "of_type ?f3 = Market" "\<not> form_enabled e ?f3 (SetPostOnly False)" by simp_all
  show "rq_postOnly (order_req e ?f3 cid nonce signature)" by (simp add: order_req_def)
qed

subsection \<open>Walking the book\<close>

text \<open>
  The state of the walk: the remainder is an exact number between zero and the order's
  quantity, a level was touched exactly when something was filled, and a limit order touches
  no level beyond its price.
\<close>

definition walk_ok :: "side \<Rightarrow> order_type \<Rightarrow> number \<Rightarrow> rat \<Rightarrow> walk \<Rightarrow> bool" where
  "walk_ok sd ty limitPx q w =
     ((\<exists>r. wk_remaining w = Fin r \<and> representable r \<and> 0 \<le> r \<and> r \<le> q) \<and>
      (case wk_worst w of None \<Rightarrow> wk_filled w = Fin 0 | Some _ \<Rightarrow> num_lt (Fin 0) (wk_filled w)) \<and>
      (wk_crossed w \<longleftrightarrow> ty = Limit \<and> wk_worst w \<noteq> None) \<and>
      (\<forall>x. ty = Limit \<and> wk_worst w = Some x \<longrightarrow> is_finite limitPx \<and>
         (sd = Buy \<longrightarrow> num_le x limitPx) \<and> (sd = Sell \<longrightarrow> num_le limitPx x)))"

lemma filled_grows:
  assumes "f = Fin 0 \<or> num_lt (Fin 0) f" "0 < t" "representable t"
  shows "num_lt (Fin 0) (f + Fin t)"
proof (cases f)
  case (Fin x)
  then have x: "0 \<le> x" using assms(1) by auto
  have "t \<le> rnd64 (x + t)" using x assms(3) by (intro b64.above) (auto simp: rnd64_id)
  then have "0 < rnd64 (x + t)" using assms(2) by linarith
  moreover have "\<not> rnd64 (x + t) \<le> - (2 ^ 1024)"
  proof -
    have "(0::rat) < 2 ^ 1024" by simp
    with \<open>0 < rnd64 (x + t)\<close> show ?thesis by linarith
  qed
  ultimately show ?thesis by (simp add: Fin flo_def Let_def)
qed (use assms(1) in \<open>auto simp: plus_number_def\<close>)

lemma take_step:
  assumes "representable r" "0 \<le> t" "t \<le> r" "r < 2 ^ 1024"
  shows "\<exists>r'. Fin r - Fin t = Fin r' \<and> representable r' \<and> 0 \<le> r' \<and> r' \<le> r"
proof -
  have "flo (r - t) = Fin (rnd64 (r - t))"
    using assms by (intro flo_small [OF _ assms(1,4)]) linarith
  moreover have "rnd64 (r - t) \<le> r" using assms by (intro b64.below) (auto simp: rnd64_id)
  moreover have "0 \<le> rnd64 (r - t)" using assms by (intro rnd64_nonneg) simp
  ultimately show ?thesis by (simp add: rnd64_representable)
qed

lemma walk_levels_ok:
  assumes "q < 2 ^ 1024" "walk_ok sd ty limitPx q w"
  shows "walk_ok sd ty limitPx q (walk_levels sd ty limitPx ls w)"
  using assms(2)
proof (induction ls arbitrary: w)
  case (Cons l ls)
  obtain pxStr qtyStr where l: "l = (pxStr, qtyStr)" by (cases l)
  obtain r where r: "wk_remaining w = Fin r" "representable r" "0 \<le> r" "r \<le> q"
    using Cons.prems by (auto simp: walk_ok_def)
  show ?case
  proof (cases "num_le (wk_remaining w) (Fin 0) \<or> \<not> is_finite (to_number pxStr) \<or> \<not> is_finite (to_number qtyStr)
      \<or> num_le (to_number qtyStr) (Fin 0) \<or> (ty = Limit \<and> (\<not> is_finite limitPx \<or> (sd = Buy \<and> num_lt limitPx (to_number pxStr))
        \<or> (sd = Sell \<and> num_lt (to_number pxStr) limitPx)))")
    case True
    then show ?thesis using Cons.prems Cons.IH [OF Cons.prems] by (auto simp: l Let_def)
  next
    case False
    then obtain px lq where px: "to_number pxStr = Fin px" and lq: "to_number qtyStr = Fin lq"
      by (cases "to_number pxStr"; cases "to_number qtyStr") auto
    have pos: "0 < r" "0 < lq" using False by (auto simp: r lq)
    have rlq: "representable lq" using to_number_b64 [of qtyStr] by (simp add: lq b64_value_def)
    define t where "t = min r lq"
    have t: "0 < t" "t \<le> r" "representable t" "num_min (Fin r) (Fin lq) = Fin t"
      using pos r(2) rlq by (auto simp: t_def num_min_def min_def)
    let ?w = "\<lparr>wk_remaining = wk_remaining w - Fin t, wk_notional = wk_notional w + Fin t * Fin px,
      wk_filled = wk_filled w + Fin t, wk_worst = Some (Fin px), wk_crossed = (wk_crossed w \<or> ty = Limit)\<rparr>"
    have e: "walk_levels sd ty limitPx (l # ls) w = walk_levels sd ty limitPx ls ?w"
      using False by (auto simp: l px lq Let_def r(1) t(4) simp del: fin_ops)
    have "r < 2 ^ 1024" using r assms(1) by linarith
    then obtain r' where r': "wk_remaining w - Fin t = Fin r'" "representable r'" "0 \<le> r'" "r' \<le> r"
      using take_step [OF r(2) less_imp_le [OF t(1)] t(2)] r(1) by auto
    have f: "num_lt (Fin 0) (wk_filled w + Fin t)"
      using Cons.prems t by (intro filled_grows) (auto simp: walk_ok_def split: option.splits)
    have "walk_ok sd ty limitPx q ?w"
      using r' r(4) f False px Cons.prems unfolding walk_ok_def by (cases limitPx) auto
    then show ?thesis unfolding e by (rule Cons.IH)
  qed
qed simp

subsection \<open>Nonces\<close>

lemma to_bigint_digits:
  assumes "0 \<le> n"
  shows "to_bigint (int_str n) = Return n"
proof -
  let ?s = "nat_digits n"
  have d: "list_all is_digit ?s" using assms by (rule nat_digits_all)
  have p: "list_all plain_char ?s" using d by (simp add: list_all_iff plain_char_def)
  have nd: "\<not> is_digit (CHR ''x'')" "\<not> is_digit (CHR ''X'')" "\<not> is_digit (CHR ''o'')" "\<not> is_digit (CHR ''O'')"
    "\<not> is_digit (CHR ''b'')" "\<not> is_digit (CHR ''B'')" "\<not> is_digit (CHR ''-'')" "\<not> is_digit (CHR ''+'')"
    by (simp_all add: is_digit_def Let_def)
  have "prefixed_val ?s = None" using d nd by (cases ?s; cases "tl ?s") (auto simp: prefixed_val_def)
  moreover have "signed_part ?s = (False, ?s)"
    using d nd nat_digits_ne [of n] by (cases ?s) (auto simp: signed_part_def)
  ultimately show ?thesis
    using assms d by (simp add: to_bigint_def int_str_def trim_plain [OF p] digits_val_nat_digits)
qed

section \<open>Properties\<close>

text \<open>
  C9. The fill preview of a positive quantity: what would remain is a number between zero and
  that quantity; a level is touched exactly when something is filled; a limit order is never
  previewed past its price (buys at or below it, sells at or above it) and is flagged as
  crossing exactly when it touches a level.
\<close>

theorem previewFill_sound:
  assumes "0 < q" "b64_value (Fin q)" "v = previewFill sd ty (Fin q) priceInput book mark"
  shows "(\<exists>r. fw_remaining v = Fin r \<and> 0 \<le> r \<and> r \<le> q) \<and>
    (fw_worstPrice v = None \<longleftrightarrow> fw_filledQty v = Fin 0) \<and>
    (fw_wouldCross v \<longleftrightarrow> ty = Limit \<and> fw_worstPrice v \<noteq> None) \<and>
    (\<forall>x. ty = Limit \<and> fw_worstPrice v = Some x \<longrightarrow>
       (if sd = Buy then num_le x (to_number priceInput) else num_le (to_number priceInput) x))"
proof -
  let ?lim = "if ty = Limit then to_number priceInput else NaN"
  let ?w0 = "\<lparr>wk_remaining = Fin q, wk_notional = Fin 0, wk_filled = Fin 0, wk_worst = None, wk_crossed = False\<rparr>"
  have q: "representable q" "q < 2 ^ 1024" using assms(1,2) by (auto simp: b64_value_def)
  have "walk_ok sd ty ?lim q (walk_levels sd ty ?lim ls ?w0)" for ls
    using assms(1) q by (intro walk_levels_ok) (auto simp: walk_ok_def)
  note ok = this [unfolded walk_ok_def]
  show ?thesis
  proof (cases book)
    case None
    then show ?thesis using assms(1) by (simp add: assms(3) previewFill_def Let_def)
  next
    case (Some b)
    let ?ls = "if sd = Buy then ob_asks b else ob_bids b"
    let ?w = "walk_levels sd ty ?lim ?ls ?w0"
    have filled: "wk_worst ?w = None \<longleftrightarrow> wk_filled ?w = Fin 0" "wk_worst ?w \<noteq> None \<Longrightarrow> \<not> num_le (wk_filled ?w) (Fin 0)"
      using ok [of ?ls] by (cases "wk_filled ?w"; auto split: option.splits)+
    show ?thesis using assms(1) ok [of ?ls] filled
      by (cases "wk_worst ?w"; cases sd; cases ty) (auto simp: assms(3) previewFill_def Some Let_def)
  qed
qed

definition demo_book :: orderbook_snapshot where
  "demo_book = \<lparr>ob_marketId = BtcUsd, ob_sequence = 1, ob_bids = [(''99'', ''1'')],
     ob_asks = [(''100'', ''1''), (''101'', ''2'')], ob_tsNs = ''0''\<rparr>"

theorem previewFill_sound_witness:
  "\<exists>r. fw_remaining (previewFill Buy Limit (Fin 5) ''100'' (Some demo_book) None) = Fin r \<and> 0 \<le> r \<and> r \<le> 5"
  using previewFill_sound [of 5 _ Buy Limit "''100''" "Some demo_book" None] representable_of_int [of 5]
  by (simp add: b64_value_def)

lemma num_times_le: "0 < p \<Longrightarrow> b64_value (Fin p) \<Longrightarrow> 0 \<le> x \<Longrightarrow> x \<le> 1 \<Longrightarrow> num_le (Fin p * Fin x) (Fin p)"
proof -
  assume p: "0 < p" "b64_value (Fin p)" and x: "0 \<le> x" "x \<le> 1"
  have "p * x \<le> p" using p x by (simp add: mult_left_le)
  then have "num_le (flo (p * x)) (flo p)" by (rule flo_mono)
  moreover have "flo p = Fin p" using p by (intro flo_exact) (auto simp: b64_value_def)
  ultimately show ?thesis by simp
qed

lemma num_times_ge: "0 < p \<Longrightarrow> b64_value (Fin p) \<Longrightarrow> 1 \<le> x \<Longrightarrow> num_le (Fin p) (Fin p * Fin x)"
proof -
  assume p: "0 < p" "b64_value (Fin p)" and x: "1 \<le> x"
  have "p \<le> p * x" using p x by (simp add: mult_left_le_one_le)
  then have "num_le (flo p) (flo (p * x))" by (rule flo_mono)
  moreover have "flo p = Fin p" using p by (intro flo_exact) (auto simp: b64_value_def)
  ultimately show ?thesis by simp
qed

lemma flo_le2: "\<bar>x\<bar> \<le> 2 \<Longrightarrow> flo x = Fin (rnd64 x)"
proof -
  assume x: "\<bar>x\<bar> \<le> 2"
  have "representable 2" using representable_of_int [of 2] by simp
  moreover have "(2::rat) < 2 ^ 1024" by simp
  ultimately show ?thesis by (rule flo_small [OF x])
qed

text \<open>The two margin factors, with the margin and the inverse leverage on either side of 1/32.\<close>

lemma margin_factors:
  assumes "1/32 \<le> i" "i \<le> 1" "0 \<le> k" "k \<le> 1/32"
  shows "\<exists>x. Fin 1 - Fin i + Fin k = Fin x \<and> 0 \<le> x \<and> x \<le> 1"
    and "\<exists>x. Fin 1 + Fin i - Fin k = Fin x \<and> 1 \<le> x"
proof -
  have c: "rnd64 (31/32) = 31/32" "rnd64 (33/32) = 33/32" by code_simp+
  have d: "0 \<le> rnd64 (1 - i)" using assms by (intro rnd64_nonneg) simp
  have d': "rnd64 (1 - i) \<le> 31/32" by (rule b64.below [OF _ c(1)]) (use assms in simp)
  have "flo (1 - i) = Fin (rnd64 (1 - i))" "flo (rnd64 (1 - i) + k) = Fin (rnd64 (rnd64 (1 - i) + k))"
    using d d' assms by (auto intro!: flo_le2)
  moreover have "0 \<le> rnd64 (rnd64 (1 - i) + k)" "rnd64 (rnd64 (1 - i) + k) \<le> 1"
    using d d' assms by (auto intro!: rnd64_nonneg b64.le_one)
  ultimately show "\<exists>x. Fin 1 - Fin i + Fin k = Fin x \<and> 0 \<le> x \<and> x \<le> 1" by simp
  have u: "33/32 \<le> rnd64 (1 + i)" by (rule b64.above [OF _ c(2)]) (use assms in simp)
  have u': "rnd64 (1 + i) \<le> 2"
    using assms rnd64_id [OF representable_of_int [of 2]] by (intro b64.below) auto
  have "flo (1 + i) = Fin (rnd64 (1 + i))" "flo (rnd64 (1 + i) - k) = Fin (rnd64 (rnd64 (1 + i) - k))"
    using u u' assms by (auto intro!: flo_le2)
  moreover have "1 \<le> rnd64 (rnd64 (1 + i) - k)" using u assms by (intro b64.above) auto
  ultimately show "\<exists>x. Fin 1 + Fin i - Fin k = Fin x \<and> 1 \<le> x" by simp
qed

text \<open>
  C22. With integer leverage from 1 to 32 and a maintenance margin of at most 312 basis points
  (the markets have 20 and 250) the estimated liquidation price of a long lies at or below its
  entry price, and that of a short at or above it.
\<close>

theorem liquidation_on_the_losing_side:
  assumes "1 \<le> L" "L \<le> (32::int)" "mk_mmRatioBps m = Fin bps" "0 \<le> bps" "bps \<le> 312"
    and "0 < p" "b64_value (Fin p)"
  shows "(\<exists>l. sideLiqEstimate Buy (Fin p) (Fin (of_int L)) (Some m) = Some l \<and> num_le l (Fin p)) \<and>
    (\<exists>l. sideLiqEstimate Sell (Fin p) (Fin (of_int L)) (Some m) = Some l \<and> num_le (Fin p) l)"
proof -
  have "(of_int 1 :: rat) \<le> of_int L" "(of_int L :: rat) \<le> of_int 32" using assms(1,2) by (simp_all only: of_int_le_iff)
  then have Lr: "(1::rat) \<le> of_int L" "(of_int L :: rat) \<le> 32" by simp_all
  have c: "rnd64 (1/32) = 1/32" by code_simp
  define i where "i = rnd64 (1 / of_int L)"
  define k where "k = rnd64 (bps / 10000)"
  have i: "1/32 \<le> i" unfolding i_def by (rule b64.above [OF _ c]) (use Lr in \<open>simp add: field_simps\<close>)
  have i': "i \<le> 1" unfolding i_def using Lr by (intro b64.le_one) simp
  have k: "0 \<le> k" unfolding k_def using assms(4) by (intro rnd64_nonneg) simp
  have k': "k \<le> 1/32" unfolding k_def by (rule b64.below [OF _ c]) (use assms(5) in simp)
  have e: "Fin 1 / Fin (of_int L) = Fin i" "mk_mmRatioBps m / Fin 10000 = Fin k"
    unfolding i_def k_def using Lr assms(3-5) by (auto intro!: flo_le2 simp: divide_le_eq)
  have tr: "truthy (Fin p)" "truthy (Fin (of_int L))" using assms(6) Lr by (auto simp: truthy_def)
  show ?thesis
    using margin_factors [OF i i' k k'] num_times_le [OF assms(6,7)] num_times_ge [OF assms(6,7)]
    unfolding sideLiqEstimate_def by (auto simp: tr e Let_def simp del: fin_ops)
qed

definition demo_market :: market where
  "demo_market = \<lparr>mk_id = BtcUsd, mk_base = ''BTC'', mk_quote = ''USD'', mk_active = True, mk_tickSize = ''0.1'',
     mk_lotSize = ''0.0001'', mk_maxLeverage = Fin 20, mk_imRatioBps = Fin 500, mk_mmRatioBps = Fin 250,
     mk_liqBonusBps = Fin 100, mk_takerFeeBps = Fin 5, mk_makerRebateBps = Fin (- 2), mk_fundingIntervalSec = 28800,
     mk_indexPriceX18 = ''7000000000000000000'', mk_volume24hUsdc = None, mk_openInterestUsdc = None,
     mk_fundingRateBps = None, mk_nextFundingTsNs = None\<rparr>"

theorem liquidation_on_the_losing_side_witness:
  "\<exists>l. sideLiqEstimate Buy (Fin 100000) (Fin 20) (Some demo_market) = Some l \<and> num_le l (Fin 100000)"
  using liquidation_on_the_losing_side [of 20 demo_market 250 100000] representable_of_int [of 100000]
  by (simp add: demo_market_def b64_value_def)

subsection \<open>Submitting\<close>

text \<open>
  The wallet of \<open>owner\<close> signed the request on a chain: its signature is one over a typed message in
  which every field of the request appears that the message has, which is all but the client
  order id and the signature itself.
\<close>

definition signed_by :: "submit_env \<Rightarrow> int \<Rightarrow> string \<Rightarrow> order_request \<Rightarrow> bool" where
  "signed_by s c owner req \<longleftrightarrow>
     (\<exists>m. se_sign s (ORDER_DOMAIN c SETTLEMENT_PLACEHOLDER) m = Return (rq_signature req) \<and>
         to_owner m = owner \<and> to_marketId m = se_keccak s (market_id_str (rq_marketId req)) \<and>
         to_side m = SIDE (rq_side req) \<and> to_orderType m = TYPE_CODE (rq_type req) \<and>
         se_parse_units s (rq_price req) 18 = Return (to_price m) \<and>
         se_parse_units s (rq_qty req) 18 = Return (to_qty m) \<and>
         to_timeInForce m = TIF (rq_timeInForce req) \<and> to_reduceOnly m = rq_reduceOnly req \<and>
         to_postOnly m = rq_postOnly req \<and> to_bigint (rq_nonce req) = Return (to_nonce m))"

lemma sign_order_signed:
  assumes "sign_order s (Some c) input = Return sg" "c \<noteq> 0"
    and "rq_marketId req = bo_marketId input" "rq_side req = bo_side input" "rq_type req = bo_type input"
      "rq_price req = bo_price input" "rq_qty req = bo_qty input" "rq_timeInForce req = bo_timeInForce input"
      "rq_reduceOnly req = bo_reduceOnly input" "rq_postOnly req = bo_postOnly input" "rq_nonce req = bo_nonce input"
      "rq_signature req = sg"
  shows "signed_by s c (bo_owner input) req"
  using assms
  by (auto simp: sign_order_def signed_by_def buildOrderTypedMessage_def marketIdHash_def
      split: option.splits if_splits sum.splits)

lemma order_req_signed:
  "sign_order s (Some c) (order_input e f owner n) = Return sg \<Longrightarrow> c \<noteq> 0 \<Longrightarrow> signed_by s c owner (order_req e f cid n sg)"
  using sign_order_signed [of s c "order_input e f owner n" sg "order_req e f cid n sg"]
  by (simp add: order_input_def order_req_def)

lemma close_req_signed:
  "sign_order s (Some c) (close_input p owner n) = Return sg \<Longrightarrow> c \<noteq> 0 \<Longrightarrow> signed_by s c owner (close_req p cid n sg)"
  using sign_order_signed [of s c "close_input p owner n" sg "close_req p cid n sg"]
  by (simp add: close_input_def close_req_def)

text \<open>
  C8. What the ticket sends is what the user signed: on a known chain a request leaves only for a
  connected wallet and a known market, and market, side, type, price, quantity, time in force,
  both flags and nonce of it are those of the message that wallet signed for the chain; the nonce
  is the clock in nanoseconds, the price, quantity and choices are those of the form, and the
  client order id, which is not part of the message, is the one of the optimistic order.
\<close>

theorem submitted_request_is_signed:
  assumes "onSubmit e s f u = (u', f', Some req)" "0 \<le> se_now s" "fe_chainId e = Some c" "c \<noteq> 0"
  shows "\<exists>owner. fe_address e = Some owner \<and> owner \<noteq> [] \<and> fe_market e \<noteq> None \<and> signed_by s c owner req \<and>
    to_bigint (rq_nonce req) = Return (se_now s * 1000000) \<and>
    rq_side req = of_side f \<and> rq_type req = of_type f \<and> rq_reduceOnly req = of_reduceOnly f \<and>
    rq_postOnly req = of_postOnly f \<and> rq_timeInForce req = of_tif f \<and>
    rq_qty req = to_fixed (form_qty f) (lotDec e) \<and> rq_price req = optimisticPrice e f \<and>
    rq_marketId req = fe_marketId e \<and> rq_clientOrderId req = ''cli_'' @ se_suffix s"
proof -
  obtain mk a as sg where *: "fe_market e = Some mk" "fe_address e = Some (a # as)"
    "sign_order s (Some c) (order_input e f (a # as) (nowTsNs (se_now s))) = Return sg"
    "req = order_req e f (''cli_'' @ se_suffix s) (nowTsNs (se_now s)) sg"
    using assms(1,3) by (auto simp: onSubmit_def Let_def split: option.splits list.splits sum.splits prod.splits)
  have "to_bigint (nowTsNs (se_now s)) = Return (se_now s * 1000000)"
    unfolding nowTsNs_def using assms(2) by (intro to_bigint_digits) simp
  then show ?thesis using order_req_signed [OF *(3) assms(4)] by (auto simp: *(1,2,4) order_req_def optimisticQty_def)
qed

definition demo_env :: form_env where
  "demo_env = \<lparr>fe_marketId = BtcUsd, fe_market = Some demo_market, fe_oracle = None, fe_book = None,
     fe_freeCollateral = Some ''50000000'', fe_connected = True, fe_address = Some ''0xA'', fe_chainId = Some 31337,
     fe_pending = False\<rparr>"

definition demo_submit :: submit_env where
  "demo_submit = \<lparr>se_keccak = (\<lambda>x. x), se_parse_units = (\<lambda>x n. Return 1), se_sign = (\<lambda>d m. Return ''0xSIG''),
     se_place = (\<lambda>r. Return \<lparr>ack_orderId = ''o'', ack_status = AckFilled, ack_tsNs = ''0''\<rparr>), se_now = 5,
     se_suffix = ''z'', se_ids = (\<lambda>n. ''i'')\<rparr>"

lemma demo_submits: "\<exists>u' f' req. onSubmit demo_env demo_submit f u = (u', f', Some req)"
proof -
  have "\<exists>n. to_bigint (nowTsNs 5) = Return n" using to_bigint_digits [of 5000000] by (simp add: nowTsNs_def)
  then show ?thesis
    by (auto simp: onSubmit_def demo_env_def demo_submit_def sign_order_def buildOrderTypedMessage_def
        order_input_def ack_copy_def Let_def)
qed

theorem submitted_request_is_signed_witness:
  "\<exists>u' f' req. onSubmit demo_env demo_submit initial_form initial_ui = (u', f', Some req) \<and>
     signed_by demo_submit 31337 ''0xA'' req \<and> to_bigint (rq_nonce req) = Return 5000000"
proof -
  obtain u' f' req where r: "onSubmit demo_env demo_submit initial_form initial_ui = (u', f', Some req)"
    using demo_submits by blast
  show ?thesis using submitted_request_is_signed [OF r] r by (auto simp: demo_submit_def demo_env_def)
qed

text \<open>
  C10. However a submission ends, accepted, refused by the wallet or refused by the exchange, its
  optimistic order is gone again and the other optimistic orders are untouched; the size field
  is only ever cleared, and only after an acceptance.
\<close>

theorem optimistic_order_is_removed:
  assumes "onSubmit e s f u = (u', f', r)" "fe_market e \<noteq> None" "fe_address e = Some owner" "owner \<noteq> []"
  shows "ui_optimisticOrders u' =
      filter (\<lambda>x. oo_clientOrderId x \<noteq> Some (''cli_'' @ se_suffix s)) (ui_optimisticOrders u) \<and>
    (f' = f \<or> f' = f\<lparr>of_qtyInput := []\<rparr> \<and> (\<exists>req ack. r = Some req \<and> se_place s req = Return ack)) \<and>
    length (ui_toasts u') = length (ui_toasts u) + 2"
proof -
  obtain mk a as where *: "fe_market e = Some mk" "fe_address e = Some (a # as)"
    using assms(2-4) by (cases owner) auto
  show ?thesis
    using assms(1) * by (auto simp: onSubmit_def Let_def addOptimisticOrder_def removeOptimisticOrder_def
        pushToast_def celebrate_def split: sum.splits prod.splits if_splits)
qed

theorem optimistic_order_is_removed_witness:
  "ui_optimisticOrders (fst (onSubmit demo_env demo_submit initial_form initial_ui)) = []"
proof -
  obtain u' f' r where r: "onSubmit demo_env demo_submit initial_form initial_ui = (u', f', r)"
    by (metis prod_cases3)
  show ?thesis using optimistic_order_is_removed [OF r, of "''0xA''"] r
    by (simp add: demo_env_def initial_ui_def)
qed

text \<open>
  C20. Closing a position on a known chain sends at most one order: market, immediate-or-cancel,
  reduce-only, not post-only, of exactly the position's size, on the opposite side, all of which is
  in the message the wallet signed for that chain; and without a wallet, or when signing fails,
  nothing is sent and one error toast is shown.
\<close>

theorem close_order_is_opposite_and_reducing:
  assumes "closePosition address (Some c) s p u = (u', r)" "c \<noteq> 0"
  shows "case r of
      None \<Rightarrow> u' = u\<lparr>ui_toasts := ui_toasts u'\<rparr> \<and> ts_kind (last (ui_toasts u')) = Error \<and>
        length (ui_toasts u') = length (ui_toasts u) + 1
    | Some req \<Rightarrow> rq_marketId req = ps_marketId p \<and> rq_qty req = ps_size p \<and> rq_type req = Market \<and>
        rq_timeInForce req = Ioc \<and> rq_reduceOnly req \<and> \<not> rq_postOnly req \<and>
        (rq_side req = Sell \<longleftrightarrow> ps_side p = Long) \<and> (\<exists>owner. address = Some owner \<and> signed_by s c owner req)"
proof -
  have "(rq_side (close_req p k n sg) = Sell) = (ps_side p = Long)" for k n sg
    by (cases "ps_side p") (simp_all add: close_req_def close_side_def)
  then show ?thesis
    using assms close_req_signed [of s c p]
    by (auto simp: closePosition_def Let_def close_req_def pushToast_def celebrate_def
        split: option.splits list.splits sum.splits)
qed

definition demo_position :: position where
  "demo_position = \<lparr>ps_marketId = BtcUsd, ps_size = ''0.1'', ps_side = Long, ps_entryPriceX18 = ''98500.0'',
     ps_markPriceX18 = ''100050.0'', ps_notionalUsdc = ''10005.0'', ps_unrealisedPnlUsdc = ''155.0'',
     ps_realisedPnlUsdc = ''0.0'', ps_leverage = ''2.0'', ps_liquidationPriceX18 = ''94250.0'',
     ps_fundingPaidUsdc = ''-1.25'', ps_lastUpdatedTsNs = ''0''\<rparr>"

theorem close_order_is_opposite_and_reducing_witness:
  "\<exists>req. snd (closePosition (Some ''0xA'') (Some 31337) demo_submit demo_position initial_ui) = Some req \<and>
     rq_side req = Sell \<and> rq_qty req = ''0.1'' \<and> rq_reduceOnly req"
proof -
  obtain u' r where r: "closePosition (Some ''0xA'') (Some 31337) demo_submit demo_position initial_ui = (u', r)" by (metis surj_pair)
  have "to_bigint (nowTsNs 5) = Return 5000000" using to_bigint_digits [of 5000000] by (simp add: nowTsNs_def)
  then have "r \<noteq> None" using r
    by (auto simp: closePosition_def sign_order_def demo_submit_def Let_def buildOrderTypedMessage_def close_input_def)
  then show ?thesis
    using close_order_is_opposite_and_reducing [OF r] unfolding r by (auto simp: demo_position_def)
qed

subsection \<open>Rounding of the size\<close>

lemma flo_between:
  assumes "l \<le> x" "x \<le> u" "rnd64 l = l" "rnd64 u = u" "\<bar>l\<bar> \<le> 1000" "\<bar>u\<bar> \<le> 1000"
  shows "\<exists>y. flo x = Fin y \<and> l \<le> y \<and> y \<le> u"
proof -
  have "bnd 1000 (flo x)" using assms by (intro bnd_flo) auto
  then obtain y where y: "flo x = Fin y" by (auto simp: bnd_def)
  then show ?thesis using assms flo_Fin [OF y] by (auto intro: b64.above b64.below)
qed

definition demo_ticket :: form where
  "demo_ticket = initial_form\<lparr>of_leverage := Fin 1\<rparr>"

lemma demo_values: "to_number ''50000000'' = Fin 50000000" "to_number ''7000000000000000000'' = Fin 7000000000000000000"
proof -
  show "to_number ''50000000'' = Fin 50000000" using flo_of_int [of 50000000] by (simp add: read_literal)
  have "rnd64 7000000000000000000 = 7000000000000000000" by code_simp
  then have "flo 7000000000000000000 = Fin 7000000000000000000" by (simp add: flo_def Let_def)
  then show "to_number ''7000000000000000000'' = Fin 7000000000000000000" by (simp add: read_literal)
qed

lemma demo_price: "markPx demo_env = Some (Fin 7)" "lotDec demo_env = 4"
  using flo_of_int [of 7]
  by (simp_all add: markPx_def demo_env_def demo_market_def demo_values lotDec_def decOf_def index_of_def)

lemma demo_ticket_values:
  "tk_effPrice (ticket_of demo_env (demo_ticket\<lparr>of_qtyInput := q\<rparr>)) = Fin 7"
  "tk_free (ticket_of demo_env (demo_ticket\<lparr>of_qtyInput := q\<rparr>)) = Some (Fin 50)"
  "tk_margin (ticket_of demo_env (demo_ticket\<lparr>of_qtyInput := q\<rparr>)) =
     Fin 7 * form_qty (demo_ticket\<lparr>of_qtyInput := q\<rparr>) / Fin 1"
  using flo_of_int [of 50] demo_price(1)
  by (simp_all add: ticket_of_def Let_def previewFill_def demo_ticket_def initial_form_def demo_values)
    (simp_all add: demo_env_def demo_values)

lemma demo_max: "of_qtyInput (quick_size demo_env (Fin 100) (demo_ticket\<lparr>of_qtyInput := []\<rparr>)) = ''7.1429''"
proof -
  have r: "rnd64 (7489828/1048576) = 7489828/1048576" "rnd64 (7489829/1048576) = 7489829/1048576" by code_simp+
  obtain y where y: "flo (50/7) = Fin y" "7489828/1048576 \<le> y" "y \<le> 7489829/1048576"
    using flo_between [OF _ _ r, of "50/7"] by auto
  have b: "bnd 8 (flo (50/7))" by (rule bnd_flo) simp_all
  then have "flo y = Fin y" using flo_b64 [of "50/7"] by (intro flo_exact) (auto simp: y b64_value_def)
  moreover have "\<lfloor>y * 10000 + 1/2\<rfloor> = 71429" using y by (simp add: floor_eq_iff)
  moreover have "nat_digits 71429 = ''71429''" by code_simp
  ultimately show ?thesis
    using y flo_of_int [of 50] flo_of_int [of 1]
    by (simp add: quick_size_def demo_ticket_values demo_price truthy_def Let_def)
      (simp add: demo_ticket_def initial_form_def fixed_str_def pad_start_def Let_def)
qed

text \<open>
  The MAX button can produce an order the ticket itself refuses: with 50 dollars of free
  collateral, leverage 1 and a price of 7 dollars it rounds the size up to 7.1429, whose margin
  exceeds the collateral.
\<close>

theorem max_button_can_be_refused:
  "of_qtyInput (quick_size demo_env (Fin 100) (demo_ticket\<lparr>of_qtyInput := []\<rparr>)) = ''7.1429'' \<and>
   tk_insufficient (ticket_of demo_env (demo_ticket\<lparr>of_qtyInput := ''7.1429''\<rparr>))"
proof
  show "of_qtyInput (quick_size demo_env (Fin 100) (demo_ticket\<lparr>of_qtyInput := []\<rparr>)) = ''7.1429''" by (rule demo_max)
  have r: "rnd64 (7489873/1048576) = 7489873/1048576" "rnd64 (7489874/1048576) = 7489874/1048576"
    "rnd64 (52429111/1048576) = 52429111/1048576" "rnd64 51 = 51" by code_simp+
  obtain y where y: "flo (71429/10000) = Fin y" "7489873/1048576 \<le> y" "y \<le> 7489874/1048576"
    using flo_between [OF _ _ r(1,2), of "71429/10000"] by auto
  obtain z where z: "flo (7 * y) = Fin z" "52429111/1048576 \<le> z"
    using flo_between [OF _ _ r(3,4), of "7 * y"] y by auto
  have "to_number ''7.1429'' = Fin y" using y by (simp add: read_literal power_divide)
  then have "form_qty (demo_ticket\<lparr>of_qtyInput := ''7.1429''\<rparr>) = Fin y"
    using y by (auto simp: form_qty_def truthy_def Let_def)
  moreover have "flo z = Fin z" using flo_b64 [of "7 * y"] by (intro flo_exact) (auto simp: z b64_value_def)
  ultimately have "tk_margin (ticket_of demo_env (demo_ticket\<lparr>of_qtyInput := ''7.1429''\<rparr>)) = Fin z"
    using z by (simp add: demo_ticket_values)
  moreover have "tk_insufficient t \<longleftrightarrow> num_lt x (tk_margin t)" if "t = ticket_of e f" "tk_free t = Some x" for t e f x
    using that(2) unfolding that(1) ticket_of_def Let_def by simp
  ultimately show "tk_insufficient (ticket_of demo_env (demo_ticket\<lparr>of_qtyInput := ''7.1429''\<rparr>))"
    using z by (simp add: demo_ticket_values)
qed

text \<open>
  A size below half a lot is submitted as zero: for the size 0.00001 of a market with four
  lot decimals the submit button is enabled and the request asks for the quantity 0.0000.
\<close>

theorem dust_is_submitted_as_zero:
  "tk_canSubmit (ticket_of (demo_env\<lparr>fe_freeCollateral := None\<rparr>) (initial_form\<lparr>of_qtyInput := ''0.00001''\<rparr>)) \<and>
   optimisticQty demo_env (initial_form\<lparr>of_qtyInput := ''0.00001''\<rparr>) = ''0.0000''"
proof -
  have r: "rnd64 (1/131072) = 1/131072" "rnd64 (1/65536) = 1/65536" by code_simp+
  obtain y where y: "flo (1/100000) = Fin y" "1/131072 \<le> y" "y \<le> 1/65536"
    using flo_between [OF _ _ r, of "1/100000"] by auto
  have "to_number ''0.00001'' = Fin y" using y by (simp add: read_literal power_divide)
  then have q: "form_qty (initial_form\<lparr>of_qtyInput := ''0.00001''\<rparr>) = Fin y"
    using y by (auto simp: form_qty_def truthy_def Let_def)
  have "\<lfloor>y * 10000 + 1/2\<rfloor> = 0" using y by (simp add: floor_eq_iff)
  moreover have "nat_digits 0 = ''0''" by code_simp
  ultimately have "optimisticQty demo_env (initial_form\<lparr>of_qtyInput := ''0.00001''\<rparr>) = ''0.0000''"
    using y by (simp add: optimisticQty_def q demo_price fixed_str_def pad_start_def Let_def numeral_eq_Suc)
  moreover have "tk_canSubmit (ticket_of (demo_env\<lparr>fe_freeCollateral := None\<rparr>) (initial_form\<lparr>of_qtyInput := ''0.00001''\<rparr>))"
    using y by (simp add: ticket_of_def Let_def q) (simp add: demo_env_def initial_form_def)
  ultimately show ?thesis by blast
qed

end
