(* ===== verification/Sim.thy ===== *)
theory Sim
  imports JsArray
begin

text \<open>
  The replay simulator: \<^verbatim>\<open>scripts/lib/sim/strategy.ts\<close>, \<^verbatim>\<open>scripts/lib/sim/vol.ts\<close>,
  and \<^verbatim>\<open>scripts/lib/sim/counterparty.ts\<close>. The transcendental functions of \<open>Math\<close> are
  approximations chosen by the engine: they are a parameter record. The lemmas show that the
  FIFO loop always ends, that the inventory stays one-sided and when the kill switch trips.
\<close>

record math_fns =
  m_sqrt :: "number \<Rightarrow> number"
  m_log :: "number \<Rightarrow> number"
  m_exp :: "number \<Rightarrow> number"
  m_cos :: "number \<Rightarrow> number"

section \<open>The quoting strategy\<close>

record strategy_params =
  sg_baseSpreadBps :: number
  sg_invPenaltyBpsAtMax :: number
  sg_invMax :: number
  sg_volMultBps :: number
  sg_invSkewBpsAtMax :: number

record quotes =
  qt_bid :: number
  qt_ask :: number
  qt_spreadBps :: number
  qt_skewBps :: number

definition DEFAULT_STRATEGY :: strategy_params where
  "DEFAULT_STRATEGY = \<lparr>sg_baseSpreadBps = Fin 10, sg_invPenaltyBpsAtMax = Fin 20, sg_invMax = Fin 100,
     sg_volMultBps = Fin 1000, sg_invSkewBpsAtMax = Fin 5\<rparr>"

definition clamp :: "number \<Rightarrow> number \<Rightarrow> number \<Rightarrow> number" where
  "clamp x lo hi = (if num_lt x lo then lo else if num_lt hi x then hi else x)"

definition inv_ratio :: "strategy_params \<Rightarrow> number \<Rightarrow> number" where
  "inv_ratio p inventory = (if num_lt (Fin 0) (sg_invMax p)
     then clamp (inventory / sg_invMax p) (Fin (- 1)) (Fin 1) else Fin 0)"

definition quotes_of :: "strategy_params \<Rightarrow> number \<Rightarrow> number \<Rightarrow> number \<Rightarrow> quotes" where
  "quotes_of p mid inventory realisedVol =
     (let invRatioSigned = inv_ratio p inventory;
          invPenBps = num_abs invRatioSigned * sg_invPenaltyBpsAtMax p;
          volPenBps = num_max realisedVol (Fin 0) * sg_volMultBps p;
          spreadBps = sg_baseSpreadBps p + invPenBps + volPenBps;
          skewBps = - invRatioSigned * sg_invSkewBpsAtMax p;
          skewedMid = mid * (Fin 1 + skewBps / Fin 10000);
          halfSpread = spreadBps / Fin 2 / Fin 10000
      in \<lparr>qt_bid = skewedMid * (Fin 1 - halfSpread), qt_ask = skewedMid * (Fin 1 + halfSpread),
          qt_spreadBps = spreadBps, qt_skewBps = skewBps\<rparr>)"

section \<open>The volatility window\<close>

record sample =
  sa_tsMs :: number
  sa_mid :: number

record vol_window =
  vw_samples :: "sample list"
  vw_windowMs :: number

definition new_vol_window :: "number \<Rightarrow> vol_window" where
  "new_vol_window windowMs = \<lparr>vw_samples = [], vw_windowMs = windowMs\<rparr>"

definition record_mid :: "number \<Rightarrow> number \<Rightarrow> vol_window \<Rightarrow> vol_window" where
  "record_mid tsMs mid v = (if num_le mid (Fin 0) then v
     else let cutoff = tsMs - vw_windowMs v in
       v\<lparr>vw_samples := dropWhile (\<lambda>s. num_lt (sa_tsMs s) cutoff)
           (vw_samples v @ [\<lparr>sa_tsMs = tsMs, sa_mid = mid\<rparr>])\<rparr>)"

fun log_returns :: "math_fns \<Rightarrow> number option \<Rightarrow> sample list \<Rightarrow> number list" where
  "log_returns mf prev [] = []"
| "log_returns mf prev (s # ss) =
     (case prev of Some p \<Rightarrow> if num_lt (Fin 0) p \<and> num_lt (Fin 0) (sa_mid s) then [m_log mf (sa_mid s / p)] else []
      | None \<Rightarrow> []) @ log_returns mf (Some (sa_mid s)) ss"

text \<open>\<open>x ** 2\<close> is \<open>x * x\<close>.\<close>

definition realisedVol :: "math_fns \<Rightarrow> vol_window \<Rightarrow> number" where
  "realisedVol mf v = (if length (vw_samples v) < 2 then Fin 0
     else let returns = log_returns mf None (vw_samples v) in
       if returns = [] then Fin 0
       else let n = Fin (of_nat (length returns));
                mean = foldl (+) (Fin 0) returns / n;
                variance = foldl (\<lambda>a r. a + (r - mean) * (r - mean)) (Fin 0) returns / n
            in m_sqrt mf variance)"

section \<open>FIFO matching\<close>

datatype lot_side = LongLot | ShortLot

record lot =
  lt_side :: lot_side
  lt_size :: number
  lt_price :: number

definition lot_pnl :: "lot \<Rightarrow> number \<Rightarrow> number \<Rightarrow> number" where
  "lot_pnl h price clsd = (if lt_side h = LongLot then (price - lt_price h) * clsd else (lt_price h - price) * clsd)"

text \<open>
  The loop of \<open>applyFill\<close>. It would not end on a lot of size \<open>-Infinity\<close>, so it is a partial
  function; no fill creates such a lot (lemma \<open>fill_loop_returns\<close>).
\<close>

partial_function (option) fill_loop ::
    "lot_side \<Rightarrow> number \<Rightarrow> number \<Rightarrow> number \<Rightarrow> lot list \<Rightarrow> (number \<times> number \<times> lot list) option" where
  "fill_loop sd price remaining realised lots =
     (case lots of [] \<Rightarrow> Some (remaining, realised, [])
      | h # rest \<Rightarrow>
          if num_lt (Fin 0) remaining \<and> lt_side h \<noteq> sd
          then fill_loop sd price (remaining - num_min (lt_size h) remaining)
                 (realised + lot_pnl h price (num_min (lt_size h) remaining))
                 (if num_le (lt_size h - num_min (lt_size h) remaining) (lit (1 / 10 ^ 12)) then rest
                  else h\<lparr>lt_size := lt_size h - num_min (lt_size h) remaining\<rparr> # rest)
          else Some (remaining, realised, lots))"

definition applyFill :: "lot list \<Rightarrow> lot_side \<Rightarrow> number \<Rightarrow> number \<Rightarrow> (number \<times> lot list) option" where
  "applyFill lots sd sz price =
     map_option (\<lambda>(remaining, realised, rest).
       (realised, if num_lt (Fin 0) remaining
                  then rest @ [\<lparr>lt_side = sd, lt_size = remaining, lt_price = price\<rparr>] else rest))
       (fill_loop sd price sz (Fin 0) lots)"

text \<open>A lot that a fill leaves behind is not at or below zero.\<close>

definition lot_live :: "lot \<Rightarrow> bool" where
  "lot_live l = (\<not> num_le (lt_size l) (Fin 0))"

lemma head_left_no_remainder:
  assumes "num_lt (Fin 0) r" "\<not> num_le (h - num_min h r) e" "num_le (Fin 0) e" "\<not> num_le h (Fin 0)"
  shows "\<not> num_lt (Fin 0) (r - num_min h r)"
  using assms by (cases h; cases r) (auto simp: num_min_def minus_number_def split: if_splits)

lemma dust_nonneg: "num_le (Fin 0) (lit (1 / 10 ^ 12))"
  unfolding lit_def using flo_mono [of 0 "1 / 10 ^ 12"] by simp

lemma above_dust_live: "\<not> num_le x (lit (1 / 10 ^ 12)) \<Longrightarrow> \<not> num_le x (Fin 0)"
  using dust_nonneg by (cases x; cases "lit (1 / 10 ^ 12)") auto

lemma fill_loop_returns:
  "list_all lot_live lots \<Longrightarrow>
   \<exists>rem rea rest. fill_loop sd price r a lots = Some (rem, rea, rest) \<and> list_all lot_live rest"
proof (induction "length lots + (if num_lt (Fin 0) r then 1 else 0)" arbitrary: r a lots rule: less_induct)
  case less
  show ?case
  proof (cases lots)
    case (Cons h rest)
    let ?c = "num_min (lt_size h) r"
    let ?next = "if num_le (lt_size h - ?c) (lit (1 / 10 ^ 12)) then rest else h\<lparr>lt_size := lt_size h - ?c\<rparr> # rest"
    show ?thesis
    proof (cases "num_lt (Fin 0) r \<and> lt_side h \<noteq> sd")
      case True
      have live: "list_all lot_live ?next"
        using less.prems above_dust_live by (auto simp: Cons lot_live_def)
      have "\<not> num_le (lt_size h - ?c) (lit (1 / 10 ^ 12)) \<Longrightarrow> \<not> num_lt (Fin 0) (r - ?c)"
        using True less.prems dust_nonneg head_left_no_remainder [of r "lt_size h"] by (auto simp: Cons lot_live_def)
      then have "length ?next + (if num_lt (Fin 0) (r - ?c) then 1 else 0) <
          length lots + (if num_lt (Fin 0) r then 1 else 0)" using True by (auto simp: Cons)
      note ih = less.hyps [OF this live]
      have "fill_loop sd price r a lots = fill_loop sd price (r - ?c) (a + lot_pnl h price ?c) ?next"
        unfolding Cons by (subst fill_loop.simps) (use True in simp)
      then show ?thesis using ih by simp
    next
      case False
      have "fill_loop sd price r a lots = Some (r, a, lots)"
        unfolding Cons by (subst fill_loop.simps) (use False in auto)
      then show ?thesis using less.prems by simp
    qed
  qed (simp add: fill_loop.simps)
qed

lemma applyFill_returns:
  "list_all lot_live lots \<Longrightarrow> \<exists>rea lots'. applyFill lots sd sz price = Some (rea, lots') \<and> list_all lot_live lots'"
proof -
  assume "list_all lot_live lots"
  then obtain r a l where "fill_loop sd price sz (Fin 0) lots = Some (r, a, l)" "list_all lot_live l"
    using fill_loop_returns by blast
  moreover have "num_lt (Fin 0) r \<Longrightarrow> \<not> num_le r (Fin 0)" by (cases r) auto
  ultimately show ?thesis by (simp add: applyFill_def lot_live_def)
qed

section \<open>The market simulation\<close>

record bar =
  ba_tsMs :: number
  ba_open :: number
  ba_high :: number
  ba_low :: number
  ba_close :: number

record sim_config =
  cf_strategy :: strategy_params
  cf_quoteSize :: number
  cf_volWindowMs :: number
  cf_killThresholdUsdc :: number

record sim_state =
  si_vol :: vol_window
  si_lots :: "lot list"
  si_inventory :: number
  si_realisedPnl :: number
  si_bidFills :: nat
  si_askFills :: nat
  si_killed :: bool
  si_priorMid :: number

record market_result =
  mr_market :: string
  mr_fills :: nat
  mr_bidFills :: nat
  mr_askFills :: nat
  mr_realisedPnl :: number
  mr_finalInventory :: number
  mr_markToMarketPnl :: number
  mr_killed :: bool

definition bid_fill :: "sim_config \<Rightarrow> quotes \<Rightarrow> bar \<Rightarrow> sim_state \<Rightarrow> sim_state option" where
  "bid_fill cfg q b s = (if num_le (ba_low b) (qt_bid q)
     then map_option (\<lambda>(realised, lots). s\<lparr>si_lots := lots, si_realisedPnl := si_realisedPnl s + realised,
            si_inventory := si_inventory s + cf_quoteSize cfg, si_bidFills := si_bidFills s + 1\<rparr>)
          (applyFill (si_lots s) LongLot (cf_quoteSize cfg) (qt_bid q))
     else Some s)"

definition ask_fill :: "sim_config \<Rightarrow> quotes \<Rightarrow> bar \<Rightarrow> sim_state \<Rightarrow> sim_state option" where
  "ask_fill cfg q b s = (if num_le (qt_ask q) (ba_high b)
     then map_option (\<lambda>(realised, lots). s\<lparr>si_lots := lots, si_realisedPnl := si_realisedPnl s + realised,
            si_inventory := si_inventory s - cf_quoteSize cfg, si_askFills := si_askFills s + 1\<rparr>)
          (applyFill (si_lots s) ShortLot (cf_quoteSize cfg) (qt_ask q))
     else Some s)"

definition sim_quotes :: "math_fns \<Rightarrow> sim_config \<Rightarrow> sim_state \<Rightarrow> quotes" where
  "sim_quotes mf cfg s =
     quotes_of (cf_strategy cfg) (si_priorMid s) (si_inventory s) (realisedVol mf (si_vol s))"

definition trip_kill :: "sim_config \<Rightarrow> sim_state \<Rightarrow> sim_state" where
  "trip_kill cfg s = (if num_lt (si_realisedPnl s) (- cf_killThresholdUsdc cfg) then s\<lparr>si_killed := True\<rparr> else s)"

definition end_bar :: "bar \<Rightarrow> sim_state \<Rightarrow> sim_state" where
  "end_bar b s = s\<lparr>si_vol := record_mid (ba_tsMs b) (ba_close b) (si_vol s), si_priorMid := ba_close b\<rparr>"

definition sim_bar :: "math_fns \<Rightarrow> sim_config \<Rightarrow> sim_state \<Rightarrow> bar \<Rightarrow> sim_state option" where
  "sim_bar mf cfg s b =
     (if si_killed s then Some (end_bar b s)
      else let q = sim_quotes mf cfg s in
        map_option (\<lambda>t. end_bar b (trip_kill cfg t)) (Option.bind (bid_fill cfg q b s) (ask_fill cfg q b)))"

fun sim_bars :: "math_fns \<Rightarrow> sim_config \<Rightarrow> sim_state \<Rightarrow> bar list \<Rightarrow> sim_state option" where
  "sim_bars mf cfg s [] = Some s"
| "sim_bars mf cfg s (b # bs) = Option.bind (sim_bar mf cfg s b) (\<lambda>t. sim_bars mf cfg t bs)"

definition sim_start :: "sim_config \<Rightarrow> bar \<Rightarrow> sim_state" where
  "sim_start cfg b = \<lparr>si_vol = record_mid (ba_tsMs b) (ba_close b) (new_vol_window (cf_volWindowMs cfg)),
     si_lots = [], si_inventory = Fin 0, si_realisedPnl = Fin 0, si_bidFills = 0, si_askFills = 0,
     si_killed = False, si_priorMid = ba_close b\<rparr>"

definition mark_lots :: "number \<Rightarrow> lot list \<Rightarrow> number" where
  "mark_lots finalClose lots = foldl (\<lambda>acc l.
     acc + (if lt_side l = LongLot then Fin 1 else Fin (- 1)) * lt_size l * (finalClose - lt_price l)) (Fin 0) lots"

definition simulateMarket :: "math_fns \<Rightarrow> string \<Rightarrow> bar list \<Rightarrow> sim_config \<Rightarrow> market_result option" where
  "simulateMarket mf market bars cfg = (case bars of
       b0 # b1 # bs \<Rightarrow>
         map_option (\<lambda>s. let m2m = mark_lots (ba_close (last bars)) (si_lots s) in
            \<lparr>mr_market = market, mr_fills = si_bidFills s + si_askFills s, mr_bidFills = si_bidFills s,
             mr_askFills = si_askFills s, mr_realisedPnl = si_realisedPnl s, mr_finalInventory = si_inventory s,
             mr_markToMarketPnl = si_realisedPnl s + m2m, mr_killed = si_killed s\<rparr>)
           (sim_bars mf cfg (sim_start cfg b0) (b1 # bs))
     | _ \<Rightarrow> Some \<lparr>mr_market = market, mr_fills = 0, mr_bidFills = 0, mr_askFills = 0, mr_realisedPnl = Fin 0,
             mr_finalInventory = Fin 0, mr_markToMarketPnl = Fin 0, mr_killed = False\<rparr>)"

section \<open>Lemmas\<close>

subsection \<open>The simulation always ends\<close>

lemma bid_fill_returns:
  "list_all lot_live (si_lots s) \<Longrightarrow> \<exists>t. bid_fill cfg q b s = Some t \<and> list_all lot_live (si_lots t)"
  using applyFill_returns [of "si_lots s" LongLot "cf_quoteSize cfg" "qt_bid q"] by (auto simp: bid_fill_def)

lemma ask_fill_returns:
  "list_all lot_live (si_lots s) \<Longrightarrow> \<exists>t. ask_fill cfg q b s = Some t \<and> list_all lot_live (si_lots t)"
  using applyFill_returns [of "si_lots s" ShortLot "cf_quoteSize cfg" "qt_ask q"] by (auto simp: ask_fill_def)

lemma end_bar_fields [simp]:
  "si_lots (end_bar b s) = si_lots s" "si_bidFills (end_bar b s) = si_bidFills s" "si_askFills (end_bar b s) = si_askFills s"
  "si_realisedPnl (end_bar b s) = si_realisedPnl s" "si_inventory (end_bar b s) = si_inventory s" "si_killed (end_bar b s) = si_killed s"
  by (simp_all add: end_bar_def)

lemma trip_kill_fields [simp]:
  "si_lots (trip_kill cfg s) = si_lots s" "si_bidFills (trip_kill cfg s) = si_bidFills s" "si_askFills (trip_kill cfg s) = si_askFills s"
  "si_realisedPnl (trip_kill cfg s) = si_realisedPnl s" "si_inventory (trip_kill cfg s) = si_inventory s"
  by (simp_all add: trip_kill_def)

lemma sim_bar_returns:
  assumes "list_all lot_live (si_lots s)"
  shows "\<exists>t. sim_bar mf cfg s b = Some t \<and> list_all lot_live (si_lots t)"
proof -
  obtain t where t: "bid_fill cfg (sim_quotes mf cfg s) b s = Some t" "list_all lot_live (si_lots t)"
    using bid_fill_returns [OF assms] by blast
  obtain u where "ask_fill cfg (sim_quotes mf cfg s) b t = Some u" "list_all lot_live (si_lots u)"
    using ask_fill_returns [OF t(2)] by blast
  then show ?thesis using t assms by (simp add: sim_bar_def)
qed

lemma sim_bars_returns:
  "list_all lot_live (si_lots s) \<Longrightarrow> \<exists>t. sim_bars mf cfg s bs = Some t \<and> list_all lot_live (si_lots t)"
proof (induction bs arbitrary: s)
  case (Cons b bs)
  obtain t where t: "sim_bar mf cfg s b = Some t" "list_all lot_live (si_lots t)"
    using sim_bar_returns [OF Cons.prems] by blast
  show ?case using Cons.IH [OF t(2)] t(1) by simp
qed simp

subsection \<open>One-sided inventory\<close>

text \<open>
  With a positive finite quote size all open lots have that size and one side, and their
  number is the surplus of fills on that side.
\<close>

definition uniform :: "rat \<Rightarrow> lot_side \<Rightarrow> nat \<Rightarrow> lot list \<Rightarrow> bool" where
  "uniform z sd n lots = (length lots = n \<and> (\<forall>l\<in>set lots. lt_side l = sd \<and> lt_size l = Fin z))"

definition netted :: "rat \<Rightarrow> int \<Rightarrow> lot list \<Rightarrow> bool" where
  "netted z n lots = (if 0 \<le> n then uniform z LongLot (nat n) lots else uniform z ShortLot (nat (- n)) lots)"

lemma fill_same_side:
  assumes "0 < z" "\<forall>l\<in>set lots. lt_side l = sd"
  shows "applyFill lots sd (Fin z) price = Some (Fin 0, lots @ [\<lparr>lt_side = sd, lt_size = Fin z, lt_price = price\<rparr>])"
proof -
  have "fill_loop sd price (Fin z) (Fin 0) lots = Some (Fin z, Fin 0, lots)"
    by (subst fill_loop.simps) (use assms in \<open>auto split: list.split\<close>)
  then show ?thesis using assms(1) by (simp add: applyFill_def)
qed

lemma fill_opposite_side:
  assumes "0 < z" "lt_side h \<noteq> sd" "lt_size h = Fin z"
  shows "applyFill (h # rest) sd (Fin z) price = Some (Fin 0 + lot_pnl h price (Fin z), rest)"
proof -
  have m: "num_min (Fin z) (Fin z) = Fin z" by (simp add: num_min_def)
  have "fill_loop sd price (Fin z) (Fin 0) (h # rest) =
      fill_loop sd price (Fin 0) (Fin 0 + lot_pnl h price (Fin z)) rest"
    by (subst fill_loop.simps) (use assms m dust_nonneg in simp)
  also have "\<dots> = Some (Fin 0, Fin 0 + lot_pnl h price (Fin z), rest)"
    by (subst fill_loop.simps) (simp split: list.split)
  finally show ?thesis by (simp add: applyFill_def)
qed

lemma netted_long:
  assumes "0 < z" "netted z n lots" "applyFill lots LongLot (Fin z) price = Some (r, lots')"
  shows "netted z (n + 1) lots'"
proof (cases "0 \<le> n")
  case True
  then show ?thesis using assms fill_same_side [of z lots LongLot price]
    by (auto simp: netted_def uniform_def nat_add_distrib)
next
  case False
  then obtain h rest where l: "lots = h # rest" using assms(2) by (cases lots) (auto simp: netted_def uniform_def)
  then have "lots' = rest" using False assms fill_opposite_side [of z h LongLot rest price]
    by (auto simp: netted_def uniform_def)
  then show ?thesis using False assms(2) by (cases "n = - 1") (auto simp: netted_def uniform_def l)
qed

lemma netted_short:
  assumes "0 < z" "netted z n lots" "applyFill lots ShortLot (Fin z) price = Some (r, lots')"
  shows "netted z (n - 1) lots'"
proof (cases "0 < n")
  case False
  then show ?thesis using assms fill_same_side [of z lots ShortLot price]
    by (auto simp: netted_def uniform_def nat_diff_distrib split: if_splits)
next
  case True
  then obtain h rest where l: "lots = h # rest" using assms(2) by (cases lots) (auto simp: netted_def uniform_def)
  then have "lots' = rest" using True assms fill_opposite_side [of z h ShortLot rest price]
    by (auto simp: netted_def uniform_def)
  then show ?thesis using True assms(2) by (auto simp: netted_def uniform_def l)
qed

definition net_fills :: "sim_state \<Rightarrow> int" where
  "net_fills s = int (si_bidFills s) - int (si_askFills s)"

lemma netted_bar:
  assumes z: "0 < z" "cf_quoteSize cfg = Fin z" and inv: "netted z (net_fills s) (si_lots s)"
    and t: "sim_bar mf cfg s b = Some t"
  shows "netted z (net_fills t) (si_lots t)"
proof (cases "si_killed s")
  case True
  then show ?thesis using inv t by (auto simp: sim_bar_def net_fills_def)
next
  case False
  then obtain u v where u: "bid_fill cfg (sim_quotes mf cfg s) b s = Some u"
    and v: "ask_fill cfg (sim_quotes mf cfg s) b u = Some v" and t': "t = end_bar b (trip_kill cfg v)"
    using t by (auto simp: sim_bar_def Let_def bind_eq_Some_conv)
  have "netted z (net_fills u) (si_lots u)"
    using u inv z netted_long [OF z(1) inv] by (auto simp: bid_fill_def net_fills_def algebra_simps split: if_splits)
  then have "netted z (net_fills v) (si_lots v)"
    using v z netted_short [OF z(1), of "net_fills u" "si_lots u"]
    by (auto simp: ask_fill_def net_fills_def algebra_simps split: if_splits)
  then show ?thesis by (simp add: t' net_fills_def)
qed

lemma netted_bars:
  "0 < z \<Longrightarrow> cf_quoteSize cfg = Fin z \<Longrightarrow> netted z (net_fills s) (si_lots s) \<Longrightarrow> sim_bars mf cfg s bs = Some t
   \<Longrightarrow> netted z (net_fills t) (si_lots t)"
  by (induction bs arbitrary: s) (auto simp: bind_eq_Some_conv dest: netted_bar)

subsection \<open>The kill switch\<close>

lemma killed_bars:
  "si_killed s \<Longrightarrow> \<exists>t. sim_bars mf cfg s bs = Some t \<and> si_killed t \<and> si_lots t = si_lots s \<and> si_inventory t = si_inventory s
     \<and> si_realisedPnl t = si_realisedPnl s \<and> si_bidFills t = si_bidFills s \<and> si_askFills t = si_askFills s"
proof (induction bs arbitrary: s)
  case (Cons b bs)
  have "si_killed (end_bar b s)" using Cons.prems by simp
  from Cons.IH [OF this] show ?case using Cons.prems by (auto simp: sim_bar_def)
qed simp

lemma sim_bars_append: "sim_bars mf cfg s (xs @ ys) = Option.bind (sim_bars mf cfg s xs) (\<lambda>t. sim_bars mf cfg t ys)"
  by (induction xs arbitrary: s) simp_all

definition kill_exact :: "sim_config \<Rightarrow> sim_state \<Rightarrow> bool" where
  "kill_exact cfg s = (si_killed s = num_lt (si_realisedPnl s) (- cf_killThresholdUsdc cfg))"

lemma sim_bar_live:
  assumes "sim_bar mf cfg s b = Some t" "\<not> si_killed s"
  obtains u v where "bid_fill cfg (sim_quotes mf cfg s) b s = Some u" "ask_fill cfg (sim_quotes mf cfg s) b u = Some v"
    "t = end_bar b (trip_kill cfg v)"
  using assms by (auto simp: sim_bar_def Let_def bind_eq_Some_conv)

lemma bid_fill_counts:
  "bid_fill cfg q b s = Some t \<Longrightarrow> si_killed t = si_killed s \<and> si_askFills t = si_askFills s \<and> si_bidFills t \<le> si_bidFills s + 1"
  by (cases "num_le (ba_low b) (qt_bid q)") (auto simp: bid_fill_def)

lemma ask_fill_counts:
  "ask_fill cfg q b s = Some t \<Longrightarrow> si_killed t = si_killed s \<and> si_bidFills t = si_bidFills s \<and> si_askFills t \<le> si_askFills s + 1"
  by (cases "num_le (qt_ask q) (ba_high b)") (auto simp: ask_fill_def)

lemma kill_exact_bar:
  assumes "\<not> si_killed s \<or> kill_exact cfg s" "sim_bar mf cfg s b = Some t"
  shows "kill_exact cfg t"
proof (cases "si_killed s")
  case True
  then show ?thesis using assms by (auto simp: sim_bar_def kill_exact_def)
next
  case False
  obtain u v where uv: "bid_fill cfg (sim_quotes mf cfg s) b s = Some u" "ask_fill cfg (sim_quotes mf cfg s) b u = Some v"
    and t: "t = end_bar b (trip_kill cfg v)" by (rule sim_bar_live [OF assms(2) False])
  have "\<not> si_killed v" using False bid_fill_counts [OF uv(1)] ask_fill_counts [OF uv(2)] by simp
  then show ?thesis by (simp add: t kill_exact_def trip_kill_def)
qed

lemma kill_exact_bars:
  "\<not> si_killed s \<or> kill_exact cfg s \<Longrightarrow> sim_bars mf cfg s (b # bs) = Some t \<Longrightarrow> kill_exact cfg t"
proof (induction bs arbitrary: s b)
  case Nil
  then have "sim_bar mf cfg s b = Some t" by (auto simp: bind_eq_Some_conv)
  then show ?case by (rule kill_exact_bar [OF Nil(1)])
next
  case (Cons c bs)
  then obtain u where u: "sim_bar mf cfg s b = Some u" "sim_bars mf cfg u (c # bs) = Some t"
    by (auto simp: bind_eq_Some_conv)
  then show ?case using Cons.IH kill_exact_bar [OF Cons.prems(1) u(1)] by blast
qed

lemma fills_bar:
  assumes "sim_bar mf cfg s b = Some t"
  shows "si_bidFills t + si_askFills t \<le> si_bidFills s + si_askFills s + 2"
proof (cases "si_killed s")
  case False
  obtain u v where uv: "bid_fill cfg (sim_quotes mf cfg s) b s = Some u" "ask_fill cfg (sim_quotes mf cfg s) b u = Some v"
    and t: "t = end_bar b (trip_kill cfg v)" by (rule sim_bar_live [OF assms False])
  show ?thesis using bid_fill_counts [OF uv(1)] ask_fill_counts [OF uv(2)] by (simp add: t)
qed (use assms in \<open>auto simp: sim_bar_def\<close>)

lemma fills_bars:
  "sim_bars mf cfg s bs = Some t \<Longrightarrow> si_bidFills t + si_askFills t \<le> si_bidFills s + si_askFills s + 2 * length bs"
proof (induction bs arbitrary: s)
  case (Cons b bs)
  then obtain u where u: "sim_bar mf cfg s b = Some u" "sim_bars mf cfg u bs = Some t" by (auto simp: bind_eq_Some_conv)
  show ?case using Cons.IH [OF u(2)] fills_bar [OF u(1)] by simp
qed simp

subsection \<open>Quotes\<close>

lemma clamp_unit: "x \<noteq> NaN \<Longrightarrow> \<exists>r. clamp x (Fin (- 1)) (Fin 1) = Fin r \<and> - 1 \<le> r \<and> r \<le> 1"
  by (cases x) (auto simp: clamp_def)

lemma div_not_NaN: "b \<noteq> 0 \<Longrightarrow> a \<noteq> NaN \<Longrightarrow> a / Fin b \<noteq> NaN"
  by (cases a) (auto simp: divide_number_def)

lemma default_strategy_fields:
  "sg_baseSpreadBps DEFAULT_STRATEGY = Fin 10" "sg_invPenaltyBpsAtMax DEFAULT_STRATEGY = Fin 20"
  "sg_volMultBps DEFAULT_STRATEGY = Fin 1000" "sg_invSkewBpsAtMax DEFAULT_STRATEGY = Fin 5"
  by (simp_all add: DEFAULT_STRATEGY_def)

lemma default_spread:
  assumes r: "\<bar>r\<bar> \<le> 1" and v: "v \<le> 2 ^ 20"
  shows "\<exists>sp. Fin 10 + num_abs (Fin r) * Fin 20 + num_max (Fin v) (Fin 0) * Fin 1000 = Fin sp \<and> 10 \<le> sp \<and> bnd (2 ^ 31) (Fin sp)"
proof -
  have "bnd (1 * 20) (num_abs (Fin r) * Fin 20)" using r by (intro bnd_mul) simp_all
  then obtain ip where ip: "num_abs (Fin r) * Fin 20 = Fin ip" "\<bar>ip\<bar> \<le> 20" by (auto simp: bnd_def)
  have ip0: "0 \<le> ip" using ip(1) flo_Fin [of "\<bar>r\<bar> * 20" ip] by (simp add: rnd64_nonneg)
  define w where "w = max v 0"
  have w: "num_max (Fin v) (Fin 0) = Fin w" "0 \<le> w" "w \<le> 2 ^ 20" using v by (auto simp: w_def num_max_def)
  have "bnd (2 ^ 20 * 1000) (Fin w * Fin 1000)" using w by (intro bnd_mul) simp_all
  then obtain vp where vp: "Fin w * Fin 1000 = Fin vp" "\<bar>vp\<bar> \<le> 2 ^ 20 * 1000" by (auto simp: bnd_def)
  have vp0: "0 \<le> vp" using vp(1) w flo_Fin [of "w * 1000" vp] by (simp add: rnd64_nonneg)
  have "bnd (10 + 20) (Fin 10 + Fin ip)" using ip by (intro bnd_add) simp_all
  then obtain x where x: "Fin 10 + Fin ip = Fin x" "\<bar>x\<bar> \<le> 30" by (auto simp: bnd_def)
  have r10: "rnd64 10 = 10" using rnd64_id [OF representable_of_int [of 10]] by simp
  have "10 \<le> rnd64 (10 + ip)" using ip0 r10 by (intro b64.above) auto
  then have x0: "10 \<le> x" using x(1) flo_Fin [of "10 + ip" x] by simp
  have "bnd (30 + 2 ^ 20 * 1000) (Fin x + Fin vp)" using x vp by (intro bnd_add) simp_all
  then have bsp: "bnd (2 ^ 31) (Fin x + Fin vp)" by (rule bnd_mono) simp
  then obtain sp where sp: "Fin x + Fin vp = Fin sp" by (auto simp: bnd_def)
  have "10 \<le> rnd64 (x + vp)" using x0 vp0 r10 by (intro b64.above) auto
  then have "10 \<le> sp" using sp flo_Fin [of "x + vp" sp] by simp
  then show ?thesis using bsp unfolding ip(1) w(1) vp(1) x(1) sp by blast
qed

lemma half_spread:
  assumes "bnd (2 ^ 31) (Fin sp)" "0 \<le> sp"
  shows "\<exists>h. Fin sp / Fin 2 / Fin 10000 = Fin h \<and> bnd (2 ^ 31) (Fin h) \<and> 0 \<le> h"
proof -
  have "bnd (2 ^ 31) (Fin sp / Fin 2)" using assms(1) by (intro bnd_div) simp_all
  then obtain y where y: "Fin sp / Fin 2 = Fin y" by (auto simp: bnd_def)
  then have y0: "0 \<le> y" using assms(2) flo_Fin [of "sp / 2" y] by (simp add: rnd64_nonneg)
  have "bnd (2 ^ 31) (Fin sp / Fin 2 / Fin 10000)" using assms(1) by (intro bnd_div) simp_all
  then obtain h where h: "Fin y / Fin 10000 = Fin h" "bnd (2 ^ 31) (Fin h)" unfolding y by (auto simp: bnd_def)
  have "0 \<le> h" using h(1) y0 flo_Fin [of "y / 10000" h] by (simp add: rnd64_nonneg)
  then show ?thesis using h unfolding y by blast
qed

lemma skewed_mid:
  assumes "\<bar>sk\<bar> \<le> 5" "0 \<le> m" "m \<le> 2 ^ 31"
  shows "\<exists>s. Fin m * (Fin 1 + Fin sk / Fin 10000) = Fin s \<and> bnd (2 ^ 32) (Fin s) \<and> 0 \<le> s"
proof -
  have "bnd 1 (flo (sk / 10000))" using assms by (intro bnd_flo) auto
  then obtain d where d: "Fin sk / Fin 10000 = Fin d" "\<bar>d\<bar> \<le> 1" by (auto simp: bnd_def)
  have "bnd (1 + 1) (Fin 1 + Fin d)" using d by (intro bnd_add) simp_all
  then obtain e where e: "Fin 1 + Fin d = Fin e" "bnd 2 (Fin e)" by (auto simp: bnd_def)
  have e0: "0 \<le> e" using e(1) d(2) flo_Fin [of "1 + d" e] by (simp add: rnd64_nonneg)
  have "bnd (2 ^ 31 * 2) (Fin m * Fin e)" using assms e by (intro bnd_mul) simp_all
  then obtain s where s: "Fin m * Fin e = Fin s" "bnd (2 ^ 32) (Fin s)" by (auto simp: bnd_def)
  have "0 \<le> s" using s(1) assms e0 flo_Fin [of "m * e" s] by (simp add: rnd64_nonneg)
  then show ?thesis using s unfolding d(1) e(1) by blast
qed

lemma quotes_default:
  assumes inv: "inventory \<noteq> NaN" and vol: "vol = Fin v" "v \<le> 2 ^ 20" and mid: "mid = Fin m" "0 \<le> m" "m \<le> 2 ^ 31"
  shows "\<exists>sk sp s h. qt_skewBps (quotes_of DEFAULT_STRATEGY mid inventory vol) = Fin sk \<and> \<bar>sk\<bar> \<le> 5 \<and>
    qt_spreadBps (quotes_of DEFAULT_STRATEGY mid inventory vol) = Fin sp \<and> 10 \<le> sp \<and> 0 \<le> s \<and> 0 \<le> h \<and>
    bnd (2 ^ 32) (Fin s) \<and> bnd (2 ^ 31) (Fin h) \<and>
    qt_bid (quotes_of DEFAULT_STRATEGY mid inventory vol) = Fin s * (Fin 1 - Fin h) \<and>
    qt_ask (quotes_of DEFAULT_STRATEGY mid inventory vol) = Fin s * (Fin 1 + Fin h)"
proof -
  obtain r where r: "inv_ratio DEFAULT_STRATEGY inventory = Fin r" "\<bar>r\<bar> \<le> 1"
    using clamp_unit [OF div_not_NaN [OF _ inv, of 100]] by (auto simp: inv_ratio_def DEFAULT_STRATEGY_def)
  have "bnd (1 * 5) (Fin (- r) * Fin 5)" using r by (intro bnd_mul) simp_all
  then obtain sk where sk: "- Fin r * Fin 5 = Fin sk" "\<bar>sk\<bar> \<le> 5" by (auto simp: bnd_def)
  obtain sp where sp: "Fin 10 + num_abs (Fin r) * Fin 20 + num_max (Fin v) (Fin 0) * Fin 1000 = Fin sp" "10 \<le> sp" "bnd (2 ^ 31) (Fin sp)"
    using default_spread [OF r(2) vol(2)] by blast
  obtain h where h: "Fin sp / Fin 2 / Fin 10000 = Fin h" "bnd (2 ^ 31) (Fin h)" "0 \<le> h"
    using half_spread [OF sp(3)] sp(2) by auto
  obtain s where s: "Fin m * (Fin 1 + Fin sk / Fin 10000) = Fin s" "bnd (2 ^ 32) (Fin s)" "0 \<le> s"
    using skewed_mid [OF sk(2) mid(2,3)] by blast
  let ?q = "quotes_of DEFAULT_STRATEGY mid inventory vol"
  note eqs = quotes_of_def Let_def r(1) vol(1) mid(1) default_strategy_fields sp(1) sk(1) s(1) h(1)
  have "qt_skewBps ?q = Fin sk" by (simp only: eqs quotes.simps)
  moreover have "qt_spreadBps ?q = Fin sp" by (simp only: eqs quotes.simps)
  moreover have "qt_bid ?q = Fin s * (Fin 1 - Fin h)" by (simp only: eqs quotes.simps)
  moreover have "qt_ask ?q = Fin s * (Fin 1 + Fin h)" by (simp only: eqs quotes.simps)
  ultimately show ?thesis using sk(2) sp(2) s(2,3) h(2,3) by blast
qed

section \<open>A concrete run\<close>

text \<open>Constant stand-ins for the functions of \<open>Math\<close>, the configuration of the replay and a flat bar.\<close>

definition flat_math :: math_fns where
  "flat_math = \<lparr>m_sqrt = \<lambda>x. x, m_log = \<lambda>x. Fin 0, m_exp = \<lambda>x. Fin 1, m_cos = \<lambda>x. Fin 1\<rparr>"

definition default_config :: "number \<Rightarrow> sim_config" where
  "default_config z = \<lparr>cf_strategy = DEFAULT_STRATEGY, cf_quoteSize = z, cf_volWindowMs = Fin 900000, cf_killThresholdUsdc = Fin 500\<rparr>"

definition flat_bar :: bar where
  "flat_bar = \<lparr>ba_tsMs = Fin 0, ba_open = Fin 100, ba_high = Fin 100, ba_low = Fin 90, ba_close = Fin 100\<rparr>"

section \<open>Properties\<close>

text \<open>
  C30. \<open>simulateMarket\<close> always returns: the FIFO loop ends on every tape and every configuration
  (numbers that are infinite or \<open>NaN\<close> included). There are at most two fills per bar after the
  first, the total is the sum of both sides, and the market is reported as killed exactly when
  the realised profit ends below the negated threshold.
\<close>

theorem simulation_returns:
  "\<exists>r. simulateMarket mf market bars cfg = Some r \<and> mr_market r = market \<and>
     mr_fills r = mr_bidFills r + mr_askFills r \<and> mr_fills r \<le> 2 * (length bars - 1) \<and>
     mr_killed r = (2 \<le> length bars \<and> num_lt (mr_realisedPnl r) (- cf_killThresholdUsdc cfg))"
proof (cases "\<exists>b0 b1 bs. bars = b0 # b1 # bs")
  case True
  then obtain b0 b1 bs where b: "bars = b0 # b1 # bs" by blast
  obtain t where t: "sim_bars mf cfg (sim_start cfg b0) (b1 # bs) = Some t"
    using sim_bars_returns [of "sim_start cfg b0" mf cfg "b1 # bs"] by (auto simp: sim_start_def)
  have "kill_exact cfg t" using kill_exact_bars [OF _ t] by (simp add: sim_start_def)
  moreover have "si_bidFills t + si_askFills t \<le> 2 * (length bars - 1)"
    using fills_bars [OF t] by (simp add: b sim_start_def)
  ultimately show ?thesis using t by (simp add: simulateMarket_def b Let_def kill_exact_def)
next
  case False
  then show ?thesis by (auto simp: simulateMarket_def split: list.splits)
qed

text \<open>
  C31. With a positive quote size the open lots are one-sided after any tape: there are as many
  as the fills of the two sides differ, all of the full quote size, long when more bids than
  asks were filled and short otherwise. No partial or opposite lot is left over.
\<close>

theorem open_lots_are_the_net_fills:
  assumes "0 < z" "cf_quoteSize cfg = Fin z"
  shows "\<exists>t. sim_bars mf cfg (sim_start cfg b) bars = Some t \<and>
    length (si_lots t) = nat \<bar>int (si_bidFills t) - int (si_askFills t)\<bar> \<and>
    list_all (\<lambda>l. lt_size l = Fin z \<and> lt_side l = (if si_askFills t \<le> si_bidFills t then LongLot else ShortLot)) (si_lots t)"
proof -
  obtain t where t: "sim_bars mf cfg (sim_start cfg b) bars = Some t"
    using sim_bars_returns [of "sim_start cfg b" mf cfg bars] by (auto simp: sim_start_def)
  have "netted z (net_fills (sim_start cfg b)) (si_lots (sim_start cfg b))"
    by (simp add: sim_start_def net_fills_def netted_def uniform_def)
  from netted_bars [OF assms this t] have "netted z (net_fills t) (si_lots t)" .
  then show ?thesis using t by (auto simp: netted_def uniform_def net_fills_def list_all_iff split: if_splits)
qed

theorem open_lots_are_the_net_fills_witness:
  "(0::rat) < 1 \<and> cf_quoteSize (default_config (Fin 1)) = Fin 1 \<and>
   (\<exists>t. sim_bars flat_math (default_config (Fin 1)) (sim_start (default_config (Fin 1)) flat_bar) [flat_bar, flat_bar] = Some t \<and>
    length (si_lots t) = nat \<bar>int (si_bidFills t) - int (si_askFills t)\<bar> \<and>
    list_all (\<lambda>l. lt_size l = Fin 1 \<and> lt_side l = (if si_askFills t \<le> si_bidFills t then LongLot else ShortLot)) (si_lots t))"
proof -
  have "(0::rat) < 1" "cf_quoteSize (default_config (Fin 1)) = Fin 1" by (simp_all add: default_config_def)
  from open_lots_are_the_net_fills [OF this, of flat_math flat_bar "[flat_bar, flat_bar]"] this show ?thesis by simp
qed

text \<open>
  C32. At the default parameters, for a price up to \<open>2 ^ 31\<close> and a volatility up to \<open>2 ^ 20\<close>, the
  quoted spread is at least the base spread of 10 basis points, the skew is at most 5 basis
  points either way whatever the inventory, and the bid never exceeds the ask after all
  roundings.
\<close>

theorem default_quotes_are_ordered:
  assumes "inventory \<noteq> NaN" "vol = Fin v" "v \<le> 2 ^ 20" "mid = Fin m" "0 \<le> m" "m \<le> 2 ^ 31"
  shows "num_le (qt_bid (quotes_of DEFAULT_STRATEGY mid inventory vol)) (qt_ask (quotes_of DEFAULT_STRATEGY mid inventory vol)) \<and>
    num_le (Fin 10) (qt_spreadBps (quotes_of DEFAULT_STRATEGY mid inventory vol)) \<and>
    num_le (num_abs (qt_skewBps (quotes_of DEFAULT_STRATEGY mid inventory vol))) (Fin 5)"
proof -
  obtain sk sp s h where q: "qt_skewBps (quotes_of DEFAULT_STRATEGY mid inventory vol) = Fin sk" "\<bar>sk\<bar> \<le> 5"
    "qt_spreadBps (quotes_of DEFAULT_STRATEGY mid inventory vol) = Fin sp" "10 \<le> sp" "0 \<le> s" "0 \<le> h"
    "bnd (2 ^ 32) (Fin s)" "bnd (2 ^ 31) (Fin h)"
    "qt_bid (quotes_of DEFAULT_STRATEGY mid inventory vol) = Fin s * (Fin 1 - Fin h)"
    "qt_ask (quotes_of DEFAULT_STRATEGY mid inventory vol) = Fin s * (Fin 1 + Fin h)"
    using quotes_default [OF assms] by blast
  have "bnd (1 + 2 ^ 31) (Fin 1 - Fin h)" "bnd (1 + 2 ^ 31) (Fin 1 + Fin h)"
    using q(8) by (intro bnd_diff bnd_add; simp)+
  then obtain x y where xy: "Fin 1 - Fin h = Fin x" "Fin 1 + Fin h = Fin y" by (auto simp: bnd_def)
  have "num_le (Fin x) (Fin y)" using flo_mono [of "1 - h" "1 + h"] q(6) by (simp add: xy [symmetric])
  then have "num_le (Fin s * Fin x) (Fin s * Fin y)" using flo_mono [of "s * x" "s * y"] q(5) by (simp add: mult_left_mono)
  then show ?thesis using q(1-4) by (simp add: q(9,10) xy del: fin_ops)
qed

theorem default_quotes_are_ordered_witness:
  "num_le (qt_bid (quotes_of DEFAULT_STRATEGY (Fin 100000) (Fin 250) (Fin (1/8)))) (qt_ask (quotes_of DEFAULT_STRATEGY (Fin 100000) (Fin 250) (Fin (1/8)))) \<and>
    num_le (Fin 10) (qt_spreadBps (quotes_of DEFAULT_STRATEGY (Fin 100000) (Fin 250) (Fin (1/8)))) \<and>
    num_le (num_abs (qt_skewBps (quotes_of DEFAULT_STRATEGY (Fin 100000) (Fin 250) (Fin (1/8))))) (Fin 5)"
  by (rule default_quotes_are_ordered [where v = "1/8" and m = 100000]) simp_all

end
