(* ===== verification/Replay.thy ===== *)
theory Replay
  imports Sim "HOL-Library.Word"
begin

text \<open>
  The replay harness: the tape generators of \<^verbatim>\<open>scripts/lib/sim/tape.ts\<close> and the command
  \<^verbatim>\<open>scripts/replay-binance.ts\<close>. The hash and the pseudo-random generator work modulo
  \<open>2 ^ 32\<close>, on words: \<open>Math.imul\<close>, \<open>^\<close>, \<open>|\<close> and \<open>>>>\<close> only depend on their operands
  modulo \<open>2 ^ 32\<close>, and so does the sum that is fed to \<open>^=\<close>. The exchange API is a parameter:
  the answer to the \<open>k\<close>-th request, a function of its number and its URL.
\<close>

unbundle bit_operations_syntax

section \<open>The tape\<close>

record tape_spec =
  ts_market :: string
  ts_binanceSymbol :: string
  ts_startPrice :: number
  ts_annualVol :: number

definition DEFAULT_MARKETS :: "tape_spec list" where
  "DEFAULT_MARKETS =
     [\<lparr>ts_market = ''btc-usd'', ts_binanceSymbol = ''BTCUSDT'', ts_startPrice = Fin 100000, ts_annualVol = lit (55/100)\<rparr>,
      \<lparr>ts_market = ''eth-usd'', ts_binanceSymbol = ''ETHUSDT'', ts_startPrice = Fin 3500, ts_annualVol = lit (70/100)\<rparr>,
      \<lparr>ts_market = ''sol-usd'', ts_binanceSymbol = ''SOLUSDT'', ts_startPrice = Fin 200, ts_annualVol = lit (90/100)\<rparr>]"

definition ONE_MIN_MS :: number where "ONE_MIN_MS = Fin 60000"

definition ONE_DAY_MS :: number where "ONE_DAY_MS = Fin 24 * Fin 60 * Fin 60000"

definition MIN_PER_YEAR :: number where "MIN_PER_YEAR = Fin 525600"

definition hashString :: "string \<Rightarrow> 32 word" where
  "hashString s = foldl (\<lambda>h c. (h XOR of_nat (of_char c)) * 0x01000193) 0x811c9dc5 s"

text \<open>One call of the generator: the new state and the draw.\<close>

definition mix32 :: "32 word \<Rightarrow> 32 word" where
  "mix32 a =
     (let t1 = (a XOR drop_bit 15 a) * (a OR 1);
          t2 = t1 XOR (t1 + (t1 XOR drop_bit 7 t1) * (t1 OR 61))
      in t2 XOR drop_bit 14 t2)"

definition mulberry32 :: "32 word \<Rightarrow> 32 word \<times> number" where
  "mulberry32 a0 = (let a = a0 + 0x6d2b79f5 in (a, Fin (of_int (uint (mix32 a))) / Fin 4294967296))"

definition math_PI :: number where "math_PI = Fin (884279719003555 / 2 ^ 48)"

definition gauss :: "math_fns \<Rightarrow> 32 word \<Rightarrow> 32 word \<times> number" where
  "gauss mf a = (let (b, d1) = mulberry32 a; u1 = num_max d1 (lit (1 / 10 ^ 12)); (c, u2) = mulberry32 b
     in (c, m_sqrt mf (Fin (- 2) * m_log mf u1) * m_cos mf (Fin 2 * math_PI * u2)))"

definition next_tick :: "math_fns \<Rightarrow> number \<Rightarrow> 32 word \<Rightarrow> number \<Rightarrow> 32 word \<times> number" where
  "next_tick mf sigmaPerMin a from = (let (b, g) = gauss mf a in (b, from * m_exp mf (sigmaPerMin * g * Fin (1/2))))"

fun tape_loop :: "math_fns \<Rightarrow> number \<Rightarrow> number \<Rightarrow> nat \<Rightarrow> nat \<Rightarrow> 32 word \<Rightarrow> number \<Rightarrow> bar list" where
  "tape_loop mf sigmaPerMin startMs i 0 a close = []"
| "tape_loop mf sigmaPerMin startMs i (Suc n) a opn =
     (let (b, tick1) = next_tick mf sigmaPerMin a opn;
          (c, tick2) = next_tick mf sigmaPerMin b tick1;
          (d, tick3) = next_tick mf sigmaPerMin c tick2
      in \<lparr>ba_tsMs = startMs + Fin (of_nat i) * ONE_MIN_MS, ba_open = opn,
          ba_high = num_max (num_max (num_max opn tick1) tick2) tick3,
          ba_low = num_min (num_min (num_min opn tick1) tick2) tick3, ba_close = tick3\<rparr>
         # tape_loop mf sigmaPerMin startMs (Suc i) n d tick3)"

text \<open>\<open>new Array(n)\<close> raises unless \<open>n\<close> is a whole number below \<open>2 ^ 32\<close>.\<close>

definition array_length :: "number \<Rightarrow> nat option" where
  "array_length n = (case n of
       Fin x \<Rightarrow> if 0 \<le> x \<and> x < 2 ^ 32 \<and> of_int \<lfloor>x\<rfloor> = x then Some (nat \<lfloor>x\<rfloor>) else None
     | _ \<Rightarrow> None)"

definition minutes_of :: "number \<Rightarrow> number" where
  "minutes_of days = days * Fin 24 * Fin 60"

definition sigma_per_min :: "math_fns \<Rightarrow> tape_spec \<Rightarrow> number" where
  "sigma_per_min mf spec = ts_annualVol spec * m_sqrt mf (Fin 1 / MIN_PER_YEAR)"

definition tape_seed :: "tape_spec \<Rightarrow> number \<Rightarrow> 32 word" where
  "tape_seed spec startMs = hashString (ts_market spec @ '':'' @ num_str startMs)"

definition generateSyntheticTape :: "math_fns \<Rightarrow> tape_spec \<Rightarrow> number \<Rightarrow> number \<Rightarrow> (js_error, bar list) result" where
  "generateSyntheticTape mf spec days startMs = (case array_length (minutes_of days) of
       None \<Rightarrow> Throw (RangeError ''Invalid array length'')
     | Some n \<Rightarrow> Return (tape_loop mf (sigma_per_min mf spec) startMs 0 n (tape_seed spec startMs) (ts_startPrice spec)))"

text \<open>
  A row of the klines endpoint: the open time and four decimal strings, as documented. A
  request fails, is answered with an error status, or with rows.
\<close>

record kline =
  kl_openTime :: number
  kl_open :: string
  kl_high :: string
  kl_low :: string
  kl_close :: string

datatype kline_reply = FetchRejects string | Status nat | JsonRejects string | Rows "kline list"

definition kline_bar :: "kline \<Rightarrow> bar" where
  "kline_bar row = \<lparr>ba_tsMs = kl_openTime row, ba_open = to_number (kl_open row), ba_high = to_number (kl_high row),
     ba_low = to_number (kl_low row), ba_close = to_number (kl_close row)\<rparr>"

definition kline_url :: "string \<Rightarrow> number \<Rightarrow> string" where
  "kline_url symbol cursor = ''https://api.binance.com/api/v3/klines?symbol='' @ symbol @
     ''&interval=1m&startTime='' @ num_str cursor @ ''&limit='' @ num_str (Fin 1000)"

type_synonym exchange = "nat \<Rightarrow> string \<Rightarrow> kline_reply"

text \<open>The paging loop; \<open>k\<close> counts the requests, each of which the exchange answers or
  rejects. The loop may never end when \<open>minutes\<close> is infinite, also by overflow.\<close>

partial_function (option) fetch_loop ::
    "exchange \<Rightarrow> string \<Rightarrow> number \<Rightarrow> nat \<Rightarrow> number \<Rightarrow> bar list \<Rightarrow> (nat \<times> (js_error, bar list) result) option" where
  "fetch_loop api symbol minutes k cursor bars =
     (if num_lt (Fin (of_nat (length bars))) minutes
      then case api k (kline_url symbol cursor) of
          FetchRejects m \<Rightarrow> Some (Suc k, Throw (TypeError m))
        | Status st \<Rightarrow> Some (Suc k, Throw (ErrorMsg (''binance fetch '' @ symbol @ '': '' @ int_str (int st))))
        | JsonRejects m \<Rightarrow> Some (Suc k, Throw (SyntaxError m))
        | Rows rows \<Rightarrow>
            if rows = [] then Some (Suc k, Return bars)
            else fetch_loop api symbol minutes (Suc k) (kl_openTime (last rows) + ONE_MIN_MS) (bars @ map kline_bar rows)
      else Some (k, Return bars))"

definition fetchBinanceTape ::
    "exchange \<Rightarrow> nat \<Rightarrow> tape_spec \<Rightarrow> number \<Rightarrow> number \<Rightarrow> (nat \<times> (js_error, bar list) result) option" where
  "fetchBinanceTape api k spec days endMs =
     map_option (\<lambda>(k', r). (k', map_sum id (\<lambda>bars. slice_to bars (minutes_of days)) r))
       (fetch_loop api (ts_binanceSymbol spec) (minutes_of days) k (endMs - days * ONE_DAY_MS) [])"

section \<open>The command\<close>

text \<open>The parameter \<open>now\<close> is the reading of \<open>Date.now()\<close> when the tape of a market is loaded.\<close>

record cli_args =
  ca_source :: string
  ca_days :: number
  ca_quoteSize :: number
  ca_killUsdc :: number
  ca_startMs :: number

definition default_args :: cli_args where
  "default_args = \<lparr>ca_source = ''synthetic'', ca_days = Fin 30, ca_quoteSize = lit (5/100), ca_killUsdc = Fin 500,
     ca_startMs = Fin 1745539200000\<rparr>"

text \<open>\<open>Number(argv[++i])\<close>: a missing operand is \<open>undefined\<close>, that is \<open>NaN\<close>.\<close>

definition arg_number :: "string list \<Rightarrow> number" where
  "arg_number rest = (case rest of [] \<Rightarrow> NaN | v # _ \<Rightarrow> to_number v)"

function parse_flags :: "string list \<Rightarrow> cli_args \<Rightarrow> (js_error, cli_args) result" where
  "parse_flags [] out = Return out"
| "parse_flags (flag # rest) out =
     (if flag = ''--source''
      then (let v = (case rest of [] \<Rightarrow> ''undefined'' | v # _ \<Rightarrow> v) in
        if rest \<noteq> [] \<and> (v = ''synthetic'' \<or> v = ''binance'') then parse_flags (tl rest) (out\<lparr>ca_source := v\<rparr>)
        else Throw (ErrorMsg (''--source must be synthetic|binance (got '' @ v @ '')'')))
      else if flag = ''--days'' then parse_flags (tl rest) (out\<lparr>ca_days := arg_number rest\<rparr>)
      else if flag = ''--quote-size'' then parse_flags (tl rest) (out\<lparr>ca_quoteSize := arg_number rest\<rparr>)
      else if flag = ''--kill-usdc'' then parse_flags (tl rest) (out\<lparr>ca_killUsdc := arg_number rest\<rparr>)
      else if flag = ''--start-ms'' then parse_flags (tl rest) (out\<lparr>ca_startMs := arg_number rest\<rparr>)
      else Throw (ErrorMsg (''unknown flag: '' @ flag)))"
  by pat_completeness auto
termination
  by (relation "measure (\<lambda>(argv, _). length argv)") auto

definition parseArgs :: "string list \<Rightarrow> (js_error, cli_args) result" where
  "parseArgs argv = parse_flags argv default_args"

definition loadTape ::
    "math_fns \<Rightarrow> exchange \<Rightarrow> (string \<Rightarrow> number) \<Rightarrow> nat \<Rightarrow> tape_spec \<Rightarrow> cli_args \<Rightarrow> (nat \<times> (js_error, bar list) result) option" where
  "loadTape mf api now k spec args =
     (if ca_source args = ''binance'' then fetchBinanceTape api k spec (ca_days args) (now (ts_market spec))
      else Some (k, generateSyntheticTape mf spec (ca_days args) (ca_startMs args)))"

definition fmt :: "number \<Rightarrow> nat \<Rightarrow> string" where
  "fmt n digits = (if num_le (Fin 0) n then ''+'' else []) @ to_fixed n digits"

definition pad_end :: "nat \<Rightarrow> string \<Rightarrow> string" where
  "pad_end n s = s @ replicate (n - length s) (CHR '' '')"

definition count5 :: "nat \<Rightarrow> string" where
  "count5 n = pad_start 5 (CHR '' '') (int_str (int n))"

definition result_line :: "tape_spec \<Rightarrow> market_result \<Rightarrow> string" where
  "result_line spec r = ''  '' @ pad_end 8 (ts_market spec) @ '' fills='' @ count5 (mr_fills r) @ '' bid='' @ count5 (mr_bidFills r) @
     '' ask='' @ count5 (mr_askFills r) @ '' realised='' @ fmt (mr_realisedPnl r) 2 @ '' inv='' @ fmt (mr_finalInventory r) 4 @
     '' m2m='' @ fmt (mr_markToMarketPnl r) 2 @ (if mr_killed r then '' KILLED'' else [])"

datatype console = Stdout string | Stderr string

fun run_markets ::
    "math_fns \<Rightarrow> exchange \<Rightarrow> (string \<Rightarrow> number) \<Rightarrow> cli_args \<Rightarrow> sim_config \<Rightarrow> nat \<Rightarrow> tape_spec list \<Rightarrow>
     (console list \<times> (js_error, market_result list) result) option" where
  "run_markets mf api now args cfg k [] = Some ([], Return [])"
| "run_markets mf api now args cfg k (spec # specs) = Option.bind (loadTape mf api now k spec args) (\<lambda>(k', tape).
     case tape of Inl e \<Rightarrow> Some ([], Throw e)
     | Inr bars \<Rightarrow> Option.bind (simulateMarket mf (ts_market spec) bars cfg) (\<lambda>r.
         map_option (\<lambda>(out, rs). (Stdout (result_line spec r) # out, map_sum id (Cons r) rs))
           (run_markets mf api now args cfg k' specs)))"

definition replay_config :: "cli_args \<Rightarrow> sim_config" where
  "replay_config args = \<lparr>cf_strategy = DEFAULT_STRATEGY, cf_quoteSize = ca_quoteSize args,
     cf_volWindowMs = Fin 15 * Fin 60 * Fin 1000, cf_killThresholdUsdc = ca_killUsdc args\<rparr>"

definition net_pnl :: "market_result list \<Rightarrow> number" where
  "net_pnl rs = foldl (\<lambda>a r. a + mr_markToMarketPnl r) (Fin 0) rs"

definition loss_lines :: "market_result list \<Rightarrow> console list" where
  "loss_lines rs = map (\<lambda>r. Stderr (''  '' @ mr_market r @ '': '' @ fmt (mr_markToMarketPnl r) 2 @ '' USDC''))
     (filter (\<lambda>r. num_lt (mr_markToMarketPnl r) (Fin 0)) rs)"

definition header_line :: "cli_args \<Rightarrow> string" where
  "header_line args = ''replay-sim source='' @ ca_source args @ '' days='' @ num_str (ca_days args) @
     '' quote_size='' @ num_str (ca_quoteSize args) @ '' kill_usdc='' @ num_str (ca_killUsdc args)"

definition error_text :: "js_error \<Rightarrow> string" where
  "error_text e = (case e of SyntaxError m \<Rightarrow> ''SyntaxError: '' @ m | RangeError m \<Rightarrow> ''RangeError: '' @ m
     | TypeError m \<Rightarrow> ''TypeError: '' @ m | ErrorMsg m \<Rightarrow> ''Error: '' @ m)"

text \<open>The exit code and the console output of \<open>main().catch(...)\<close>; \<open>None\<close> when it never ends.\<close>

definition replay_main ::
    "math_fns \<Rightarrow> exchange \<Rightarrow> (string \<Rightarrow> number) \<Rightarrow> string list \<Rightarrow> (nat \<times> console list) option" where
  "replay_main mf api now argv = (case parseArgs argv of
       Inl e \<Rightarrow> Some (1, [Stderr (error_text e)])
     | Inr args \<Rightarrow> map_option (\<lambda>(out, res). case res of
           Inl e \<Rightarrow> (1, Stdout (header_line args) # out @ [Stderr (error_text e)])
         | Inr rs \<Rightarrow>
             (let net = net_pnl rs; shown = Stdout (header_line args) # out @ [Stdout (''net counterparty PnL = '' @ fmt net 2 @ '' USDC'')] in
              if num_lt net (Fin 0)
              then (1, shown @ [Stderr ([char_of (10::nat)] @ ''FAIL: net counterparty PnL is negative at default params.''), Stderr ''Loss attribution:'']
                      @ loss_lines rs)
              else (0, shown @ [Stdout ''PASS: net counterparty PnL >= 0 at default params.''])))
         (run_markets mf api now args (replay_config args) 0 DEFAULT_MARKETS))"

section \<open>Lemmas\<close>

lemma unit_fraction:
  assumes k: "0 \<le> k" "k < 2 ^ 32"
  shows "flo (of_int k / 2 ^ 32) = Fin (of_int k / 2 ^ 32)"
proof (rule flo_exact)
  have "representable (of_int k * 2 powi (- 32))" unfolding representable_def
    using k by (intro exI [of _ k] exI [of _ "- 32"]) simp
  moreover have "(2::rat) powi (- 32) = 1 / 2 ^ 32" by (simp add: power_int_def power_divide)
  ultimately show "representable (of_int k / 2 ^ 32)" by (simp only: times_divide_eq_right mult_1_right)
  have "(of_int k :: rat) < of_int (2 ^ 32)" using k by (simp only: of_int_less_iff)
  then have "(of_int k :: rat) / 2 ^ 32 < 1" by simp
  moreover have "(1::rat) < 2 ^ 1024" by simp
  moreover have "(0::rat) \<le> of_int k / 2 ^ 32" using k by simp
  ultimately show "\<bar>of_int k / 2 ^ 32\<bar> < (2::rat) ^ 1024" by linarith
qed

lemma tiny_literal: "\<exists>e. lit (1 / 10 ^ 12) = Fin e \<and> 0 < e \<and> e < 1"
proof -
  have r: "representable (2 powi (- 50))" "representable (2 powi (- 1))"
    unfolding representable_def by (intro exI [of _ 1] exI [of _ "- 50"] exI [of _ "- 1"]; simp)+
  have p: "(2::rat) powi (- 50) = 1 / 2 ^ 50" "(2::rat) powi (- 1) = 1 / 2" by (simp_all add: power_int_def power_divide)
  have "2 powi (- 50) \<le> rnd64 (1 / 10 ^ 12)" by (rule b64.above [OF _ rnd64_id [OF r(1)]]) (simp add: p)
  moreover have "rnd64 (1 / 10 ^ 12) \<le> 2 powi (- 1)" by (rule b64.below [OF _ rnd64_id [OF r(2)]]) (simp add: p)
  ultimately have "1 / 2 ^ 50 \<le> rnd64 (1 / 10 ^ 12)" "rnd64 (1 / 10 ^ 12) \<le> 1 / 2" unfolding p by auto
  then have "lit (1 / 10 ^ 12) = Fin (rnd64 (1 / 10 ^ 12))" "0 < rnd64 (1 / 10 ^ 12)" "rnd64 (1 / 10 ^ 12) < 1"
    by (auto simp: lit_def flo_def Let_def)
  then show ?thesis by blast
qed

lemma mulberry_draw: "\<exists>k. snd (mulberry32 a) = Fin (of_int k / 2 ^ 32) \<and> 0 \<le> k \<and> k < 2 ^ 32"
proof -
  define k where "k = uint (mix32 (a + 0x6d2b79f5))"
  have "0 \<le> k" "k < 2 ^ 32" unfolding k_def using uint_bounded [of "mix32 (a + 0x6d2b79f5)"] by simp_all
  moreover have "snd (mulberry32 a) = Fin (of_int k) / Fin (2 ^ 32)" by (simp add: mulberry32_def Let_def k_def)
  ultimately show ?thesis using unit_fraction [of k] by auto
qed

lemma tape_loop_length: "length (tape_loop mf sg st i n a c) = n"
  by (induction mf sg st i n a c rule: tape_loop.induct) (simp_all add: Let_def split: prod.split)

lemma tape_loop_ts:
  "j < n \<Longrightarrow> ba_tsMs (tape_loop mf sg st i n a c ! j) = st + Fin (of_nat (i + j)) * ONE_MIN_MS"
  by (induction mf sg st i n a c arbitrary: j rule: tape_loop.induct)
    (auto simp: Let_def nth_Cons algebra_simps split: prod.split nat.split)

lemma tape_loop_head: "0 < n \<Longrightarrow> ba_open (tape_loop mf sg st i n a c ! 0) = c"
  by (cases n) (simp_all add: Let_def split: prod.split)

lemma tape_loop_chain:
  "Suc j < n \<Longrightarrow> ba_open (tape_loop mf sg st i n a c ! Suc j) = ba_close (tape_loop mf sg st i n a c ! j)"
proof (induction mf sg st i n a c arbitrary: j rule: tape_loop.induct)
  case (2 mf sg st i n a c)
  then show ?case
    by (cases j) (auto simp: Let_def tape_loop_head split: prod.split)
qed simp

lemma num_max_ge: "num_max a b \<noteq> NaN \<Longrightarrow> num_le a (num_max a b) \<and> num_le b (num_max a b)"
  by (cases a; cases b) (auto simp: num_max_def)

lemma num_min_le: "num_min a b \<noteq> NaN \<Longrightarrow> num_le (num_min a b) a \<and> num_le (num_min a b) b"
  by (cases a; cases b) (auto simp: num_min_def)

lemma num_le_trans: "num_le a b \<Longrightarrow> num_le b c \<Longrightarrow> num_le a c"
  by (cases a; cases b; cases c) auto

lemma num_max_NaN: "num_max a b \<noteq> NaN \<Longrightarrow> a \<noteq> NaN \<and> b \<noteq> NaN"
  by (auto simp: num_max_def)

text \<open>The range of a bar contains its open and its close, unless a tick is not a number.\<close>

lemma tick_range:
  assumes "num_max (num_max (num_max p q) r) s \<noteq> NaN"
  defines "hi \<equiv> num_max (num_max (num_max p q) r) s" and "lo \<equiv> num_min (num_min (num_min p q) r) s"
  shows "num_le lo p \<and> num_le p hi \<and> num_le lo s \<and> num_le s hi"
proof -
  have n: "num_max (num_max p q) r \<noteq> NaN" "num_max p q \<noteq> NaN" "p \<noteq> NaN" "q \<noteq> NaN" "r \<noteq> NaN" "s \<noteq> NaN"
    using assms(1) num_max_NaN by blast+
  then have m: "num_min p q \<noteq> NaN" "num_min (num_min p q) r \<noteq> NaN" "num_min (num_min (num_min p q) r) s \<noteq> NaN"
    by (simp_all add: num_min_def)
  have "num_le p (num_max p q)" "num_le (num_max p q) (num_max (num_max p q) r)" "num_le (num_max (num_max p q) r) hi" "num_le s hi"
    using num_max_ge n assms(1) unfolding hi_def by blast+
  moreover have "num_le (num_min p q) p" "num_le (num_min (num_min p q) r) (num_min p q)" "num_le lo (num_min (num_min p q) r)" "num_le lo s"
    using num_min_le m unfolding lo_def by blast+
  ultimately show ?thesis using num_le_trans by blast
qed

lemma tape_loop_range:
  "b \<in> set (tape_loop mf sg st i n a c) \<Longrightarrow> ba_high b \<noteq> NaN \<Longrightarrow>
   num_le (ba_low b) (ba_open b) \<and> num_le (ba_open b) (ba_high b) \<and> num_le (ba_low b) (ba_close b) \<and> num_le (ba_close b) (ba_high b)"
proof (induction mf sg st i n a c rule: tape_loop.induct)
  case (2 mf sg st i n a c)
  then show ?case using tick_range by (auto simp: Let_def split: prod.splits)
qed simp

text \<open>Each request adds a row, ends the loop or fails, so a finite tape needs finitely many.\<close>

lemma fetch_loop_returns:
  "num_le minutes (Fin (of_nat N)) \<or> minutes = NaN \<Longrightarrow> \<exists>r. fetch_loop api symb minutes k cur bars = Some r"
proof (induction "N - length bars" arbitrary: k cur bars rule: less_induct)
  case less
  show ?case
  proof (cases "num_lt (Fin (of_nat (length bars))) minutes")
    case True
    then have N: "length bars < N" using less.prems by (cases minutes) auto
    show ?thesis
    proof (cases "api k (kline_url symb cur)")
      case (Rows rows)
      have "rows \<noteq> [] \<Longrightarrow> N - length (bars @ map kline_bar rows) < N - length bars" using N by (cases rows) simp_all
      note ih = less.hyps [OF this less.prems]
      show ?thesis by (subst fetch_loop.simps) (use True Rows ih in auto)
    qed (subst fetch_loop.simps, use True in simp)+
  next
    case False
    then show ?thesis by (subst fetch_loop.simps) simp
  qed
qed

lemma minutes_whole:
  assumes "d < 2982616"
  shows "minutes_of (Fin (of_nat d)) = Fin (of_nat (d * 1440))" "array_length (Fin (of_nat (d * 1440))) = Some (d * 1440)"
proof -
  have "flo (of_int (int d * 24)) = Fin (of_int (int d * 24))" using assms by (intro flo_of_int) simp
  moreover have "flo (of_int (int d * 24 * 60)) = Fin (of_int (int d * 24 * 60))" using assms by (intro flo_of_int) simp
  ultimately show "minutes_of (Fin (of_nat d)) = Fin (of_nat (d * 1440))" by (simp add: minutes_of_def mult.assoc)
  have "d * 1440 < 2 ^ 32" using assms by simp
  then have "(of_nat (d * 1440) :: rat) < of_nat (2 ^ 32)" by (simp only: of_nat_less_iff)
  then show "array_length (Fin (of_nat (d * 1440))) = Some (d * 1440)" by (simp add: array_length_def del: of_nat_mult)
qed

lemma minute_stamp:
  assumes "\<bar>st\<bar> \<le> 2 ^ 51" "i < 2 ^ 32"
  shows "Fin (of_int st) + Fin (of_nat i) * ONE_MIN_MS = Fin (of_int (st + int i * 60000))"
proof -
  have "flo (of_int (int i * 60000)) = Fin (of_int (int i * 60000))" using assms by (intro flo_of_int) simp
  moreover have "flo (of_int (st + int i * 60000)) = Fin (of_int (st + int i * 60000))" using assms by (intro flo_of_int) simp
  ultimately show ?thesis by (simp add: ONE_MIN_MS_def)
qed

subsection \<open>A quote size that is not a number\<close>

lemma nan_arith [simp]: "NaN + a = NaN" "a + NaN = NaN" "NaN - a = NaN" "a - NaN = NaN"
  by (cases a; simp add: plus_number_def minus_number_def)+

lemma fill_nan: "applyFill [] sd NaN price = Some (Fin 0, [])"
  by (simp add: applyFill_def fill_loop.simps)

lemma bar_nan:
  assumes "cf_quoteSize cfg = NaN" "si_lots s = []" "si_realisedPnl s = Fin 0"
  shows "\<exists>t. sim_bar mf cfg s b = Some t \<and> si_lots t = [] \<and> si_realisedPnl t = Fin 0"
proof -
  have "\<exists>t. bid_fill cfg q b s = Some t \<and> si_lots t = [] \<and> si_realisedPnl t = Fin 0" for q
    using assms by (simp add: bid_fill_def fill_nan)
  moreover have "si_lots u = [] \<Longrightarrow> si_realisedPnl u = Fin 0 \<Longrightarrow>
      \<exists>t. ask_fill cfg q b u = Some t \<and> si_lots t = [] \<and> si_realisedPnl t = Fin 0" for q u
    using assms by (simp add: ask_fill_def fill_nan)
  ultimately show ?thesis using assms unfolding sim_bar_def Let_def
    by (metis (no_types, lifting) bind.bind_lunit end_bar_fields(1,4) option.simps(9) trip_kill_fields(1,4))
qed

lemma bars_nan:
  "cf_quoteSize cfg = NaN \<Longrightarrow> si_lots s = [] \<Longrightarrow> si_realisedPnl s = Fin 0 \<Longrightarrow>
   \<exists>t. sim_bars mf cfg s bs = Some t \<and> si_lots t = [] \<and> si_realisedPnl t = Fin 0"
proof (induction bs arbitrary: s)
  case (Cons b bs)
  obtain t where t: "sim_bar mf cfg s b = Some t" "si_lots t = []" "si_realisedPnl t = Fin 0"
    using bar_nan [OF Cons.prems] by blast
  then show ?case using Cons.IH [OF Cons.prems(1) t(2,3)] by simp
qed simp

lemma market_nan:
  assumes "cf_quoteSize cfg = NaN"
  shows "\<exists>r. simulateMarket mf m bars cfg = Some r \<and> mr_markToMarketPnl r = Fin 0"
proof (cases "\<exists>b0 b1 bs. bars = b0 # b1 # bs")
  case True
  then obtain b0 b1 bs where b: "bars = b0 # b1 # bs" by blast
  obtain t where "sim_bars mf cfg (sim_start cfg b0) (b1 # bs) = Some t" "si_lots t = []" "si_realisedPnl t = Fin 0"
    using bars_nan [OF assms, of "sim_start cfg b0" mf "b1 # bs"] by (auto simp: sim_start_def)
  then show ?thesis by (simp add: simulateMarket_def b Let_def mark_lots_def)
qed (auto simp: simulateMarket_def split: list.splits)

lemma markets_nan:
  assumes "cf_quoteSize cfg = NaN" "\<And>spec. loadTape mf api now k spec args = Some (k, Return (tape spec))"
  shows "\<exists>out rs. run_markets mf api now args cfg k specs = Some (out, Return rs) \<and> (\<forall>r\<in>set rs. mr_markToMarketPnl r = Fin 0)"
proof (induction specs)
  case (Cons spec specs)
  obtain r where "simulateMarket mf (ts_market spec) (tape spec) cfg = Some r" "mr_markToMarketPnl r = Fin 0"
    using market_nan [OF assms(1)] by blast
  then show ?case using Cons.IH assms(2) by auto
qed simp

lemma net_pnl_zero: "\<forall>r\<in>set rs. mr_markToMarketPnl r = Fin 0 \<Longrightarrow> net_pnl rs = Fin 0"
  unfolding net_pnl_def by (induction rs) simp_all

subsection \<open>The command ends\<close>

lemma fetch_returns:
  assumes "minutes_of days \<noteq> PInf"
  shows "\<exists>r. fetchBinanceTape api k spec days endMs = Some r"
proof -
  have "\<exists>N. num_le (minutes_of days) (Fin (of_nat N)) \<or> minutes_of days = NaN"
  proof (cases "minutes_of days")
    case (Fin x)
    obtain N where "x < of_nat N" using reals_Archimedean2 by blast
    then show ?thesis using Fin by (intro exI [of _ N]) simp
  qed (use assms in auto)
  then obtain N where "num_le (minutes_of days) (Fin (of_nat N)) \<or> minutes_of days = NaN" by blast
  from fetch_loop_returns [OF this] show ?thesis by (auto simp: fetchBinanceTape_def)
qed

lemma load_returns:
  "ca_source args \<noteq> ''binance'' \<or> minutes_of (ca_days args) \<noteq> PInf \<Longrightarrow> \<exists>r. loadTape mf api now k spec args = Some r"
  using fetch_returns by (auto simp: loadTape_def)

lemma market_returns: "\<exists>r. simulateMarket mf m bars cfg = Some r"
proof (cases "\<exists>b0 b1 bs. bars = b0 # b1 # bs")
  case True
  then obtain b0 b1 bs where b: "bars = b0 # b1 # bs" by blast
  have "list_all lot_live (si_lots (sim_start cfg b0))" by (simp add: sim_start_def)
  from sim_bars_returns [OF this, of mf cfg "b1 # bs"] show ?thesis by (auto simp: simulateMarket_def b)
qed (auto simp: simulateMarket_def split: list.splits)

lemma markets_return:
  assumes "ca_source args \<noteq> ''binance'' \<or> minutes_of (ca_days args) \<noteq> PInf"
  shows "\<exists>r. run_markets mf api now args cfg k specs = Some r"
proof (induction specs arbitrary: k)
  case (Cons spec specs)
  obtain k' tape where load: "loadTape mf api now k spec args = Some (k', tape)" using load_returns [OF assms] by fastforce
  show ?case
  proof (cases tape)
    case (Inr bars)
    obtain r where "simulateMarket mf (ts_market spec) bars cfg = Some r" using market_returns by blast
    then show ?thesis using Cons.IH [of k'] load Inr by auto
  qed (simp add: load)
qed simp

lemma rnd64_within:
  assumes "\<bar>x\<bar> \<le> b" "representable b"
  shows "\<bar>rnd64 x\<bar> \<le> b"
proof -
  have "rnd64 x \<le> b" "rnd64 (- x) \<le> b" using assms by (auto intro!: b64.below simp: rnd64_id)
  then show ?thesis by (simp add: rnd64_minus abs_le_iff)
qed

lemma flo_scaled:
  assumes "\<bar>x\<bar> \<le> 2 ^ n" "0 \<le> c" "c \<le> 2 ^ j" "n + j < 1024"
  shows "flo (x * c) = Fin (rnd64 (x * c))" and "\<bar>rnd64 (x * c)\<bar> \<le> 2 ^ (n + j)"
proof -
  have r: "representable (2 ^ (n + j))" using representable_powi [of "int (n + j)"] by (simp add: power_int_def del: of_nat_add)
  have le: "\<bar>x * c\<bar> \<le> 2 ^ (n + j)" unfolding abs_mult power_add using assms by (intro mult_mono) auto
  have "(2 :: rat) ^ (n + j) < 2 ^ 1024" by (rule power_strict_increasing [OF assms(4)]) simp
  from flo_small [OF le r this] show "flo (x * c) = Fin (rnd64 (x * c))" .
  from rnd64_within [OF le r] show "\<bar>rnd64 (x * c)\<bar> \<le> 2 ^ (n + j)" .
qed

lemma minutes_finite:
  assumes "\<bar>d\<bar> \<le> 2 ^ 1000"
  shows "minutes_of (Fin d) \<noteq> PInf"
proof -
  have c: "(24 :: rat) \<le> 2 ^ 5" "(60 :: rat) \<le> 2 ^ 6" by simp_all
  have x: "flo (d * 24) = Fin (rnd64 (d * 24))" using assms _ c(1) by (rule flo_scaled) simp_all
  have "\<bar>rnd64 (d * 24)\<bar> \<le> 2 ^ (1000 + 5)" using assms _ c(1) by (rule flo_scaled) simp_all
  then have "flo (rnd64 (d * 24) * 60) = Fin (rnd64 (rnd64 (d * 24) * 60))" using _ c(2) by (rule flo_scaled) simp_all
  then show ?thesis by (simp add: minutes_of_def x)
qed

lemma simulated_market: "simulateMarket mf m bars cfg = Some r \<Longrightarrow> mr_market r = m"
  by (auto simp: simulateMarket_def Let_def split: list.splits)

lemma run_markets_names:
  "run_markets mf api now args cfg k specs = Some (out, Return rs) \<Longrightarrow> map mr_market rs = map ts_market specs"
proof (induction specs arbitrary: k out rs)
  case (Cons spec specs)
  obtain k' tape where l: "loadTape mf api now k spec args = Some (k', tape)"
    using Cons.prems by (cases "loadTape mf api now k spec args") auto
  obtain bars where b: "tape = Return bars" using Cons.prems l by (cases tape) auto
  obtain r where r: "simulateMarket mf (ts_market spec) bars cfg = Some r" using market_returns by blast
  obtain out' res where t: "run_markets mf api now args cfg k' specs = Some (out', res)"
    using Cons.prems l b r by (cases "run_markets mf api now args cfg k' specs") auto
  obtain rs' where "res = Return rs'" "rs = r # rs'" using Cons.prems l b r t by (cases res) auto
  then show ?case using Cons.IH [of k' out' rs'] t simulated_market [OF r] by simp
qed simp

section \<open>Properties\<close>

text \<open>
  C33. The synthetic tape of \<open>d\<close> days has exactly \<open>1440 * d\<close> bars; bar \<open>i\<close> carries the exact time
  of its minute; the first bar opens at the market's start price and every other bar opens
  where the previous one closed; and where the ticks are numbers, the range of a bar contains
  its open and its close.
\<close>

theorem synthetic_tape_shape:
  assumes "d < 2982616" "\<bar>st\<bar> \<le> 2 ^ 51"
  shows "\<exists>bars. generateSyntheticTape mf spec (Fin (of_nat d)) (Fin (of_int st)) = Return bars \<and> length bars = d * 1440 \<and>
    (\<forall>i < d * 1440. ba_tsMs (bars ! i) = Fin (of_int (st + int i * 60000)) \<and>
       ba_open (bars ! i) = (case i of 0 \<Rightarrow> ts_startPrice spec | Suc j \<Rightarrow> ba_close (bars ! j)) \<and>
       (ba_high (bars ! i) = NaN \<or>
        num_le (ba_low (bars ! i)) (ba_open (bars ! i)) \<and> num_le (ba_open (bars ! i)) (ba_high (bars ! i)) \<and>
        num_le (ba_low (bars ! i)) (ba_close (bars ! i)) \<and> num_le (ba_close (bars ! i)) (ba_high (bars ! i))))"
proof (intro exI conjI allI impI)
  let ?bars = "tape_loop mf (sigma_per_min mf spec) (Fin (of_int st)) 0 (d * 1440) (tape_seed spec (Fin (of_int st))) (ts_startPrice spec)"
  show "generateSyntheticTape mf spec (Fin (of_nat d)) (Fin (of_int st)) = Return ?bars"
    using minutes_whole [OF assms(1)] by (simp add: generateSyntheticTape_def del: of_nat_mult)
  show "length ?bars = d * 1440" by (rule tape_loop_length)
  fix i assume i: "i < d * 1440"
  then have "i < 2 ^ 32" using assms(1) by simp
  then show "ba_tsMs (?bars ! i) = Fin (of_int (st + int i * 60000))"
    using tape_loop_ts [OF i] minute_stamp [OF assms(2)] by simp
  show "ba_open (?bars ! i) = (case i of 0 \<Rightarrow> ts_startPrice spec | Suc j \<Rightarrow> ba_close (?bars ! j))"
    using i by (cases i) (simp_all add: tape_loop_head tape_loop_chain)
  have "?bars ! i \<in> set ?bars" using i by (simp add: tape_loop_length)
  from tape_loop_range [OF this] show "ba_high (?bars ! i) = NaN \<or>
        num_le (ba_low (?bars ! i)) (ba_open (?bars ! i)) \<and> num_le (ba_open (?bars ! i)) (ba_high (?bars ! i)) \<and>
        num_le (ba_low (?bars ! i)) (ba_close (?bars ! i)) \<and> num_le (ba_close (?bars ! i)) (ba_high (?bars ! i))"
    by blast
qed

theorem synthetic_tape_shape_witness:
  "\<exists>bars. generateSyntheticTape flat_math (hd DEFAULT_MARKETS) (Fin (of_nat 1)) (Fin (of_int 1745539200000)) = Return bars \<and>
    length bars = 1 * 1440 \<and>
    (\<forall>i < 1 * 1440. ba_tsMs (bars ! i) = Fin (of_int (1745539200000 + int i * 60000)) \<and>
       ba_open (bars ! i) = (case i of 0 \<Rightarrow> ts_startPrice (hd DEFAULT_MARKETS) | Suc j \<Rightarrow> ba_close (bars ! j)) \<and>
       (ba_high (bars ! i) = NaN \<or>
        num_le (ba_low (bars ! i)) (ba_open (bars ! i)) \<and> num_le (ba_open (bars ! i)) (ba_high (bars ! i)) \<and>
        num_le (ba_low (bars ! i)) (ba_close (bars ! i)) \<and> num_le (ba_close (bars ! i)) (ba_high (bars ! i))))"
  by (rule synthetic_tape_shape) simp_all

text \<open>
  The two uniform draws behind every Gaussian sample are exact fractions with denominator
  \<open>2 ^ 32\<close> in the half-open unit interval, and what is handed to the logarithm is at least
  \<open>1e-12\<close> (its nearest double) and below 1: never zero, whatever the seed.
\<close>

theorem gauss_draws_in_range:
  "\<exists>x k. num_max (snd (mulberry32 a)) (lit (1 / 10 ^ 12)) = Fin x \<and>
     snd (mulberry32 (fst (mulberry32 a))) = Fin (of_int k / 2 ^ 32) \<and>
     gauss mf a = (fst (mulberry32 (fst (mulberry32 a))),
       m_sqrt mf (Fin (- 2) * m_log mf (Fin x)) * m_cos mf (Fin 2 * math_PI * Fin (of_int k / 2 ^ 32))) \<and>
     num_le (lit (1 / 10 ^ 12)) (Fin x) \<and> 0 < x \<and> x < 1 \<and> 0 \<le> k \<and> k < 2 ^ 32"
proof -
  obtain j where j: "snd (mulberry32 a) = Fin (of_int j / 2 ^ 32)" "0 \<le> j" "j < 2 ^ 32" using mulberry_draw by blast
  obtain k where k: "snd (mulberry32 (fst (mulberry32 a))) = Fin (of_int k / 2 ^ 32)" "0 \<le> k" "k < 2 ^ 32"
    using mulberry_draw by blast
  obtain e where e: "lit (1 / 10 ^ 12) = Fin e" "0 < e" "e < 1" using tiny_literal by blast
  define x where "x = max (of_int j / 2 ^ 32) e"
  have "(of_int j :: rat) < of_int (2 ^ 32)" using j by (simp only: of_int_less_iff)
  then have x: "num_max (snd (mulberry32 a)) (lit (1 / 10 ^ 12)) = Fin x" "e \<le> x" "0 < x" "x < 1"
    using e by (auto simp: x_def num_max_def j(1))
  show ?thesis by (rule exI [of _ x], rule exI [of _ k]) (use x k e in \<open>simp add: gauss_def Let_def split_beta\<close>)
qed

text \<open>
  C34. The replay always ends, and with the code its usage promises: with the synthetic source for
  any arguments, and with the Binance source for any number of days up to \<open>2 ^ 1000\<close> and an exchange
  that answers or rejects every request, however it answers, the command exits. It exits with 1 on
  arguments that do not parse and on a tape that cannot be loaded; otherwise the three
  markets were simulated, it exits with 1 when their net profit is negative, after printing the loss
  of every losing market, and with 0 when it is at least zero.
\<close>

theorem replay_always_exits:
  assumes "case parseArgs argv of Inl e \<Rightarrow> True
    | Inr args \<Rightarrow> ca_source args \<noteq> ''binance'' \<or> (\<exists>d. ca_days args = Fin d \<and> \<bar>d\<bar> \<le> 2 ^ 1000)"
  shows "\<exists>code out. replay_main mf api now argv = Some (code, out) \<and>
    (case parseArgs argv of Inl e \<Rightarrow> code = 1
     | Inr args \<Rightarrow> (case run_markets mf api now args (replay_config args) 0 DEFAULT_MARKETS of
           None \<Rightarrow> False
         | Some (lines, Inl e) \<Rightarrow> code = 1
         | Some (lines, Inr rs) \<Rightarrow> (let net = foldl (+) (Fin 0) (map mr_markToMarketPnl rs) in
             map mr_market rs = [''btc-usd'', ''eth-usd'', ''sol-usd''] \<and>
             (num_lt net (Fin 0) \<longrightarrow> code = 1 \<and> (\<forall>r\<in>set rs. num_lt (mr_markToMarketPnl r) (Fin 0) \<longrightarrow>
                Stderr (''  '' @ mr_market r @ '': '' @ fmt (mr_markToMarketPnl r) 2 @ '' USDC'') \<in> set out)) \<and>
             (num_le (Fin 0) net \<longrightarrow> code = 0))))"
proof (cases "parseArgs argv")
  case (Inl e)
  then show ?thesis by (simp add: replay_main_def)
next
  case (Inr args)
  have "ca_source args \<noteq> ''binance'' \<or> minutes_of (ca_days args) \<noteq> PInf"
    using assms minutes_finite by (auto simp: Inr)
  from markets_return [OF this] obtain lines res
    where m: "run_markets mf api now args (replay_config args) 0 DEFAULT_MARKETS = Some (lines, res)" by fastforce
  show ?thesis
  proof (cases res)
    case err: (Inl e)
    then show ?thesis by (simp add: replay_main_def Inr m)
  next
    case ok: (Inr rs)
    have net: "net_pnl rs = foldl (+) (Fin 0) (map mr_markToMarketPnl rs)" by (simp add: net_pnl_def foldl_map)
    have names: "map mr_market rs = [''btc-usd'', ''eth-usd'', ''sol-usd'']"
      using run_markets_names [of mf api now args _ 0 DEFAULT_MARKETS lines rs] m ok by (simp add: DEFAULT_MARKETS_def)
    have "num_le (Fin 0) x \<Longrightarrow> \<not> num_lt x (Fin 0)" for x by (cases x) auto
    then show ?thesis using names
      by (auto simp: replay_main_def Inr m ok net [symmetric] Let_def loss_lines_def)
  qed
qed

theorem replay_always_exits_witness:
  "parseArgs [''--source'', ''binance'', ''--days'', ''1''] = Return (default_args\<lparr>ca_source := ''binance'', ca_days := Fin 1\<rparr>) \<and>
   (\<exists>code out. replay_main flat_math (\<lambda>k url. Status 500) (\<lambda>m. Fin 0) [''--source'', ''binance'', ''--days'', ''1''] = Some (code, out))"
proof -
  have "to_number ''1'' = Fin 1" using flo_of_int [of 1] by (simp add: read_literal)
  then have p: "parseArgs [''--source'', ''binance'', ''--days'', ''1''] = Return (default_args\<lparr>ca_source := ''binance'', ca_days := Fin 1\<rparr>)"
    by (simp add: parseArgs_def arg_number_def)
  have "\<bar>1 :: rat\<bar> \<le> 2 ^ 1000" by simp
  then show ?thesis
    using p replay_always_exits [of "[''--source'', ''binance'', ''--days'', ''1'']" flat_math "\<lambda>k url. Status 500" "\<lambda>m. Fin 0"] by auto
qed

text \<open>
  A quote size that is not a number opens the gate: \<open>--quote-size abc\<close> (any operand that
  does not read as a number, or none) makes every market report a profit of zero, and the
  command prints PASS and exits with 0 whatever the tape contains.
\<close>

theorem unreadable_quote_size_passes:
  assumes "to_number v = NaN"
  shows "\<exists>out. replay_main mf api now [''--quote-size'', v] = Some (0, out)"
proof -
  define args where "args = default_args\<lparr>ca_quoteSize := NaN\<rparr>"
  have parse: "parseArgs [''--quote-size'', v] = Return args"
    using assms by (simp add: parseArgs_def arg_number_def args_def)
  have "minutes_of (ca_days args) = Fin (of_nat (30 * 1440))" "array_length (Fin (of_nat (30 * 1440))) = Some (30 * 1440)"
    using minutes_whole [of 30] by (simp_all add: args_def default_args_def)
  then have load: "loadTape mf api now 0 spec args = Some (0, Return (tape_loop mf (sigma_per_min mf spec) (ca_startMs args) 0 (30 * 1440)
      (tape_seed spec (ca_startMs args)) (ts_startPrice spec)))" for spec
    by (simp add: loadTape_def generateSyntheticTape_def args_def default_args_def)
  have q: "cf_quoteSize (replay_config args) = NaN" by (simp add: replay_config_def args_def)
  obtain out rs where "run_markets mf api now args (replay_config args) 0 DEFAULT_MARKETS = Some (out, Return rs)"
    and "\<forall>r\<in>set rs. mr_markToMarketPnl r = Fin 0"
    using markets_nan [OF q load, of DEFAULT_MARKETS] by blast
  then show ?thesis by (simp add: replay_main_def parse net_pnl_zero Let_def)
qed

theorem unreadable_quote_size_passes_witness:
  "to_number ''x'' = NaN \<and> (\<exists>out. replay_main flat_math (\<lambda>k url. Status 500) (\<lambda>m. Fin 0) [''--quote-size'', ''x''] = Some (0, out))"
proof -
  have "to_number ''x'' = NaN"
    by (simp add: to_number_def trim_def is_space_def prefixed_val_def signed_part_def decimal_val_def is_digit_def exponent_val_def)
  from unreadable_quote_size_passes [OF this] this show ?thesis by blast
qed

end
