(* ===== verification/MarketPanels.thy ===== *)
theory MarketPanels
  imports LiveBook Format
begin

text \<open>
  What the trading screen computes from the streams: the grouped ladder of
  \<^verbatim>\<open>components/trade/Orderbook.tsx\<close>, the header figures of \<^verbatim>\<open>MarketHeader.tsx\<close>, the trade
  tape of \<^verbatim>\<open>TradeTape.tsx\<close> and the candles of \<^verbatim>\<open>components/chart/PriceChart.tsx\<close>. The
  markup is left out; the values it shows are definitions. Random draws and clock readings
  are arguments.
\<close>

section \<open>The ladder\<close>

definition ROWS :: nat where "ROWS = 14"

datatype book_side = BidSide | AskSide

type_synonym ladder_row = "string \<times> number \<times> number"

text \<open>The running total of \<open>map\<close>: each row carries the sum so far.\<close>

fun with_cum :: "number \<Rightarrow> (string \<times> number) list \<Rightarrow> ladder_row list" where
  "with_cum cum [] = []"
| "with_cum cum ((px, q) # rest) = (px, q, cum + q) # with_cum (cum + q) rest"

text \<open>
  The slices \<open>levels.slice(i, i + groupMultiplier)\<close> of the loop. The step is one of the
  options of the selector, 1, 5, 10 or 50; with a step of zero the loop would not advance.
\<close>

function buckets :: "nat \<Rightarrow> 'a list \<Rightarrow> 'a list list" where
  "buckets m xs = (if m = 0 \<or> xs = [] then [] else take m xs # buckets m (drop m xs))"
  by pat_completeness auto
termination
  by (relation "measure (\<lambda>(m, xs). length xs)") auto

declare buckets.simps [simp del]

definition bucket_row :: "book_side \<Rightarrow> orderbook_level list \<Rightarrow> string \<times> number" where
  "bucket_row sd bucket = (case sd of BidSide \<Rightarrow> fst (hd bucket) | AskSide \<Rightarrow> fst (hd bucket),
     foldl (\<lambda>s l. s + to_number (snd l)) (Fin 0) bucket)"

definition groupLevels :: "orderbook_level list \<Rightarrow> nat \<Rightarrow> book_side \<Rightarrow> ladder_row list" where
  "groupLevels levels groupMultiplier sd =
     (if levels = [] then []
      else if groupMultiplier = 1 then with_cum (Fin 0) (map (\<lambda>(px, qty). (px, to_number qty)) levels)
      else with_cum (Fin 0) (map (bucket_row sd) (buckets groupMultiplier levels)))"

definition totalOf :: "ladder_row list \<Rightarrow> number" where
  "totalOf rows = (if rows = [] then Fin 0 else snd (snd (last rows)))"

datatype book_layout = SplitLayout | BidsLayout | AsksLayout

record book_view =
  bv_groupedBids :: "ladder_row list"
  bv_groupedAsks :: "ladder_row list"
  bv_maxTotal :: number
  bv_mid :: "number option"
  bv_spread :: "number option"
  bv_spreadBps :: "number option"
  bv_tickStep :: number
  bv_tickDec :: nat
  bv_qtyDec :: nat

definition best_price :: "orderbook_level list \<Rightarrow> string option" where
  "best_price levels = (case levels of [] \<Rightarrow> None | l # _ \<Rightarrow> if fst l = [] then None else Some (fst l))"

definition book_view_of :: "live_orderbook option \<Rightarrow> market option \<Rightarrow> nat \<Rightarrow> book_view" where
  "book_view_of ob mk grouping =
     (let bids = (case ob of None \<Rightarrow> [] | Some b \<Rightarrow> groupLevels (lo_bids b) grouping BidSide);
          asks = (case ob of None \<Rightarrow> [] | Some b \<Rightarrow> groupLevels (lo_asks b) grouping AskSide);
          best = (case ob of None \<Rightarrow> None | Some b \<Rightarrow> (case (best_price (lo_bids b), best_price (lo_asks b)) of
                    (Some x, Some y) \<Rightarrow> Some (to_number x, to_number y) | _ \<Rightarrow> None));
          mid = map_option (\<lambda>(bid, ask). (bid + ask) / Fin 2) best;
          spread = map_option (\<lambda>(bid, ask). ask - bid) best
      in \<lparr>bv_groupedBids = bids, bv_groupedAsks = asks,
          bv_maxTotal = num_max (num_max (totalOf bids) (totalOf asks)) (Fin 1),
          bv_mid = mid, bv_spread = spread,
          bv_spreadBps = (case (spread, mid) of
              (Some s, Some m) \<Rightarrow> if truthy s \<and> truthy m then Some (s / m * Fin 10000) else None | _ \<Rightarrow> None),
          bv_tickStep = (case mk of None \<Rightarrow> Fin 1 | Some m \<Rightarrow> to_number (mk_tickSize m)),
          bv_tickDec = (case mk of None \<Rightarrow> 2 | Some m \<Rightarrow> tickPrecisionOf (mk_tickSize m)),
          bv_qtyDec = (case mk of None \<Rightarrow> 4 | Some m \<Rightarrow> tickPrecisionOf (mk_lotSize m))\<rparr>)"

definition shown_asks :: "book_layout \<Rightarrow> book_view \<Rightarrow> ladder_row list" where
  "shown_asks layout v = (if layout = SplitLayout \<or> layout = AsksLayout then take ROWS (bv_groupedAsks v) else [])"

definition shown_bids :: "book_layout \<Rightarrow> book_view \<Rightarrow> ladder_row list" where
  "shown_bids layout v = (if layout = SplitLayout \<or> layout = BidsLayout then take ROWS (bv_groupedBids v) else [])"

text \<open>A row: the width of its depth bar in percent and the three printed figures.\<close>

record row_view =
  rv_fillPct :: number
  rv_barClass :: string
  rv_textClass :: string
  rv_price :: string
  rv_qty :: string
  rv_cum :: string

definition row_of :: "book_side \<Rightarrow> book_view \<Rightarrow> ladder_row \<Rightarrow> row_view" where
  "row_of side v r = (case r of (px, qty, cum) \<Rightarrow>
     \<lparr>rv_fillPct = num_min (Fin 100) (cum / bv_maxTotal v * Fin 100),
      rv_barClass = (if side = BidSide then ''bg-long-soft'' else ''bg-short-soft''),
      rv_textClass = (if side = BidSide then ''text-long'' else ''text-short''), rv_price = to_fixed (to_number px) (bv_tickDec v),
      rv_qty = to_fixed qty (bv_qtyDec v), rv_cum = to_fixed cum (bv_qtyDec v)\<rparr>)"

definition midSpread :: "book_view \<Rightarrow> string \<times> string \<times> string" where
  "midSpread v = (case bv_mid v of None \<Rightarrow> dash | Some m \<Rightarrow> to_fixed m (bv_tickDec v),
     case bv_spread v of None \<Rightarrow> dash | Some s \<Rightarrow> to_fixed s (bv_tickDec v),
     (case bv_spreadBps v of None \<Rightarrow> dash | Some b \<Rightarrow> to_fixed b 2) @ '' bps'')"

definition group_options :: "book_view \<Rightarrow> (nat \<times> string) list" where
  "group_options v = map (\<lambda>k. (k, to_fixed (bv_tickStep v * Fin (of_nat k)) (bv_tickDec v))) [1, 5, 10, 50]"

section \<open>The header\<close>

text \<open>\<open>x | 0\<close>: truncation to a signed 32-bit integer.\<close>

definition to_int32 :: "number \<Rightarrow> int" where
  "to_int32 n = (case n of
       Fin x \<Rightarrow> (let k = (if x < 0 then - \<lfloor>- x\<rfloor> else \<lfloor>x\<rfloor>) mod 2 ^ 32 in if k \<ge> 2 ^ 31 then k - 2 ^ 32 else k)
     | _ \<Rightarrow> 0)"

definition header_cur :: "ws_oracle option \<Rightarrow> market option \<Rightarrow> number" where
  "header_cur oracle mk =
     (let oraclePx = (case oracle of None \<Rightarrow> NaN | Some o' \<Rightarrow> x18ToDollars (NStr (wo_priceX18 o')));
          indexPx = (case mk of None \<Rightarrow> NaN | Some m \<Rightarrow> x18ToDollars (NStr (mk_indexPriceX18 m)))
      in if is_finite oraclePx then oraclePx else indexPx)"

definition open_price :: "number \<Rightarrow> number" where
  "open_price cur = (let seed = num_rem (Fin (of_int (to_int32 (cur * Fin 100)))) (Fin 40)
     in cur * (lit (98/100) + seed / Fin 40 * lit (4/100)))"

text \<open>The first finite price fixes the open price, during the render.\<close>

definition header_open :: "number \<Rightarrow> number option \<Rightarrow> number option" where
  "header_open cur openPrice = (if is_finite cur \<and> openPrice = None then Some (open_price cur) else openPrice)"

record header_view =
  hv_cur :: number
  hv_live :: bool
  hv_change :: number
  hv_changeAbs :: number
  hv_fundingBps :: number
  hv_fundingClass :: string
  hv_nextFundingTsNs :: string
  hv_volume24h :: number
  hv_openInterest :: number

definition usdc_or_zero :: "string option \<Rightarrow> number" where
  "usdc_or_zero s = (case s of Some (c # cs) \<Rightarrow> usdc6ToDollars (NStr (c # cs)) | _ \<Rightarrow> Fin 0)"

definition header_of :: "ws_oracle option \<Rightarrow> ws_funding option \<Rightarrow> market option \<Rightarrow> number option \<Rightarrow> header_view" where
  "header_of oracle funding mk openPrice =
     (let cur = header_cur oracle mk;
          anchored = (case openPrice of Some p \<Rightarrow> truthy p \<and> is_finite cur | None \<Rightarrow> False);
          open0 = (case openPrice of Some p \<Rightarrow> p | None \<Rightarrow> NaN);
          fundingBps = (case funding of Some f \<Rightarrow> wf_currentRateBps f
                        | None \<Rightarrow> (case Option.bind mk mk_fundingRateBps of Some r \<Rightarrow> r | None \<Rightarrow> Fin 0))
      in \<lparr>hv_cur = cur, hv_live = (oracle \<noteq> None),
          hv_change = (if anchored then (cur - open0) / open0 * Fin 100 else Fin 0),
          hv_changeAbs = (if anchored then cur - open0 else Fin 0),
          hv_fundingBps = fundingBps, hv_fundingClass = (if num_le (Fin 0) fundingBps then ''text-long'' else ''text-short''),
          hv_nextFundingTsNs = (case funding of Some f \<Rightarrow> wf_nextSettlementTsNs f
                        | None \<Rightarrow> (case Option.bind mk mk_nextFundingTsNs of Some t \<Rightarrow> t | None \<Rightarrow> ''0'')),
          hv_volume24h = usdc_or_zero (Option.bind mk mk_volume24hUsdc),
          hv_openInterest = usdc_or_zero (Option.bind mk mk_openInterestUsdc)\<rparr>)"

definition source_pill :: "bool \<Rightarrow> string \<times> string" where
  "source_pill live = (if live then (''Pyth'', ''Live Pyth Hermes price '' @ dash @ '' updates every ~500ms'')
     else (''static'', ''Static seed price '' @ dash @ '' oracle relayer not running''))"

definition funding_text :: "header_view \<Rightarrow> string" where
  "funding_text v = to_fixed (hv_fundingBps v / Fin 100) 4 @ ''%''"

text \<open>The strip of figures, in its order; the countdown parses its target with \<open>BigInt\<close> and may throw.\<close>

definition header_stats :: "header_view \<Rightarrow> market option \<Rightarrow> number \<Rightarrow> (string \<times> (js_error, string list) result) list" where
  "header_stats v mk nowMs =
     [(''Oracle'', Return [NumberDisplay ''$'' [] (NNum (hv_cur v)) (priceDecimals mk) False, fst (source_pill (hv_live v))]),
      (''24h change'', Return [NumberDisplay [] ''%'' (NNum (hv_change v)) 2 True, NumberDisplay [] [] (NNum (hv_changeAbs v)) (priceDecimals mk) True]),
      (''24h volume'', Return [NumberDisplay ''$'' [] (NNum (hv_volume24h v)) 2 False]),
      (''Open interest'', Return [NumberDisplay ''$'' [] (NNum (hv_openInterest v)) 2 False]),
      (''Funding (8h)'', Return [funding_text v]),
      (''Next funding'', map_sum id (\<lambda>t. [t]) (formatCountdown (hv_nextFundingTsNs v) nowMs)),
      (''Max leverage'', Return [(case mk of None \<Rightarrow> dash | Some m \<Rightarrow> num_str (mk_maxLeverage m)) @ ''x''])]"

section \<open>The trade tape\<close>

definition tape_tickDec :: "market option \<Rightarrow> nat" where
  "tape_tickDec mk = (case mk of None \<Rightarrow> 2 | Some m \<Rightarrow> max 2 (tickPrecOf (mk_tickSize m)))"

definition tape_qtyDec :: "market option \<Rightarrow> nat" where
  "tape_qtyDec mk = (case mk of None \<Rightarrow> 4 | Some m \<Rightarrow> tickPrecOf (mk_lotSize m))"

text \<open>The effect that flashes the newest row once: the new \<open>lastIdRef\<close> and the class added.\<close>

definition tape_flash :: "ws_trade list \<Rightarrow> string option \<Rightarrow> string option \<times> (string \<times> string) option" where
  "tape_flash trades lastId = (case trades of [] \<Rightarrow> (lastId, None)
     | t # _ \<Rightarrow> if Some (wt_id t) = lastId then (lastId, None)
         else (Some (wt_id t), Some (wt_id t, if wt_side t = Buy then ''flash-long'' else ''flash-short'')))"

definition tape_rows :: "(rat \<Rightarrow> int) \<Rightarrow> market option \<Rightarrow> ws_trade list \<Rightarrow> (string \<times> string \<times> string \<times> string \<times> (js_error, string) result) list" where
  "tape_rows tz mk trades = map (\<lambda>t. (wt_id t, if wt_side t = Buy then ''text-long'' else ''text-short'',
     to_fixed (to_number (wt_price t)) (tape_tickDec mk), to_fixed (to_number (wt_qty t)) (tape_qtyDec mk),
     formatTimeOfDay tz (wt_tsNs t))) trades"

section \<open>The chart\<close>

record candle =
  cd_time :: number
  cd_open :: number
  cd_high :: number
  cd_low :: number
  cd_close :: number

record volume_bar =
  vb_time :: number
  vb_value :: number
  vb_color :: string

definition TF_SECONDS :: number where "TF_SECONDS = Fin 60"

definition up_color :: string where "up_color = ''rgba(15, 165, 106, 0.45)''"

definition down_color :: string where "down_color = ''rgba(214, 48, 68, 0.45)''"

text \<open>One pass of the seeding loop; \<open>d 0\<close> to \<open>d 3\<close> are its random draws, in order.\<close>

definition seed_candle :: "number \<Rightarrow> number \<Rightarrow> number \<Rightarrow> (nat \<Rightarrow> number) \<Rightarrow> candle \<times> volume_bar" where
  "seed_candle anchor t opn d =
     (let drift = (d 0 - Fin (1/2)) * anchor * lit (25 / 10000);
          cls = num_max (lit (1 / 10000)) (opn + drift);
          high = num_max opn cls + d 1 * anchor * lit (15 / 10000);
          low = num_min opn cls - d 2 * anchor * lit (15 / 10000)
      in (\<lparr>cd_time = t, cd_open = opn, cd_high = high, cd_low = low, cd_close = cls\<rparr>,
          \<lparr>vb_time = t, vb_value = d 3 * anchor * Fin (1/2) + anchor * lit (1/10),
           vb_color = (if num_le opn cls then up_color else down_color)\<rparr>))"

fun seed_loop :: "number \<Rightarrow> number \<Rightarrow> (nat \<Rightarrow> nat \<Rightarrow> number) \<Rightarrow> nat \<Rightarrow> nat \<Rightarrow> number \<Rightarrow> (candle \<times> volume_bar) list" where
  "seed_loop anchor start rnd i 0 price = []"
| "seed_loop anchor start rnd i (Suc n) price =
     (let cv = seed_candle anchor (start + Fin (of_nat i) * TF_SECONDS) price (rnd i)
      in cv # seed_loop anchor start rnd (Suc i) n (cd_close (fst cv)))"

definition seedCandles :: "number \<Rightarrow> number \<Rightarrow> (nat \<Rightarrow> nat \<Rightarrow> number) \<Rightarrow> nat \<Rightarrow> candle list \<times> volume_bar list" where
  "seedCandles anchor nowMs rnd cnt =
     (let start = num_floor (nowMs / Fin 1000) - Fin (of_nat cnt) * TF_SECONDS;
          cvs = seed_loop anchor start rnd 0 cnt anchor
      in (map fst cvs, map snd cvs))"

definition chart_precision :: "number \<Rightarrow> nat" where
  "chart_precision anchor = (if num_le (Fin 1000) anchor then 1 else if num_le (Fin 100) anchor then 2 else 4)"

text \<open>The current candle after the chart is created, and after an oracle frame.\<close>

definition chart_start :: "number \<Rightarrow> number \<Rightarrow> (nat \<Rightarrow> nat \<Rightarrow> number) \<Rightarrow> candle option" where
  "chart_start anchor nowMs rnd = (case fst (seedCandles anchor nowMs rnd 240) of [] \<Rightarrow> None | cs \<Rightarrow> Some (last cs))"

definition bucket_start :: "number \<Rightarrow> number" where
  "bucket_start nowMs = num_floor (num_floor (nowMs / Fin 1000) / TF_SECONDS) * TF_SECONDS"

text \<open>The result is the current candle and what is sent to the two series, if anything.\<close>

definition chart_tick :: "ws_oracle \<Rightarrow> number \<Rightarrow> number \<Rightarrow> candle option \<Rightarrow> candle option \<times> (candle \<times> volume_bar option) option" where
  "chart_tick oracle nowMs rnd current =
     (let px = x18ToDollars (NStr (wo_priceX18 oracle)); start = bucket_start nowMs in
      if \<not> is_finite px \<or> num_le px (Fin 0) then (current, None)
      else case current of
          Some c \<Rightarrow>
            if num_eq (cd_time c) start
            then (let c' = c\<lparr>cd_high := num_max (cd_high c) px, cd_low := num_min (cd_low c) px, cd_close := px\<rparr>
                  in (Some c', Some (c', None)))
            else (let c' = \<lparr>cd_time = start, cd_open = cd_close c, cd_high = px, cd_low = px, cd_close = px\<rparr>
                  in (Some c', Some (c', Some \<lparr>vb_time = start, vb_value = rnd * Fin 200,
                        vb_color = (if num_le (cd_close c) px then up_color else down_color)\<rparr>)))
        | None \<Rightarrow> (let c' = \<lparr>cd_time = start, cd_open = px, cd_high = px, cd_low = px, cd_close = px\<rparr>
                  in (Some c', Some (c', Some \<lparr>vb_time = start, vb_value = rnd * Fin 200, vb_color = up_color\<rparr>))))"

section \<open>Lemmas\<close>

subsection \<open>Grouping\<close>

lemma buckets_Nil [simp]: "buckets m [] = []"
  by (simp add: buckets.simps)

lemma buckets_concat: "0 < m \<Longrightarrow> concat (buckets m xs) = xs"
proof (induction m xs rule: buckets.induct)
  case (1 m xs)
  then show ?case by (cases "xs = []") (simp_all add: buckets.simps [of m xs])
qed

lemma buckets_nonempty: "b \<in> set (buckets m xs) \<Longrightarrow> b \<noteq> []"
proof (induction m xs rule: buckets.induct)
  case (1 m xs)
  then show ?case by (cases "m = 0 \<or> xs = []") (auto simp: buckets.simps [of m xs])
qed

lemma buckets_length: "0 < m \<Longrightarrow> length (buckets m xs) = (length xs + m - 1) div m"
proof (induction m xs rule: buckets.induct)
  case (1 m xs)
  show ?case
  proof (cases "xs = []")
    case False
    then have ih: "length (buckets m (drop m xs)) = (length (drop m xs) + m - 1) div m" using 1 by simp
    have "(length xs + m - 1) div m = Suc ((length xs - m + m - 1) div m)"
    proof (cases "m \<le> length xs")
      case True
      then have "length xs + m - 1 = (length xs - m + m - 1) + m" using \<open>0 < m\<close> by simp
      then show ?thesis using \<open>0 < m\<close> by (metis div_add_self2 Suc_eq_plus1 less_not_refl)
    next
      case less: False
      have "length xs + m - 1 = (length xs - 1) + m" using False by (cases xs) simp_all
      moreover have "length xs - 1 < m" "length xs - m + m - 1 < m" using less 1(2) by simp_all
      ultimately show ?thesis using div_add_self2 [of m "length xs - 1"] \<open>0 < m\<close> by (metis Suc_eq_plus1 div_less less_not_refl)
    qed
    then show ?thesis using False ih 1(2) by (simp add: buckets.simps [of m xs])
  qed (use 1(2) in \<open>simp add: buckets.simps\<close>)
qed

lemma buckets_nth: "i < length (buckets m xs) \<Longrightarrow> buckets m xs ! i = take m (drop (i * m) xs)"
proof (induction m xs arbitrary: i rule: buckets.induct)
  case (1 m xs)
  then show ?case by (cases i) (auto simp: buckets.simps [of m xs] add.commute split: if_splits)
qed

lemma bucket_head: "0 < m \<Longrightarrow> i < length (buckets m xs) \<Longrightarrow> hd (buckets m xs ! i) = xs ! (i * m)"
proof -
  assume m: "0 < m" and i: "i < length (buckets m xs)"
  have ne: "buckets m xs ! i \<noteq> []" using buckets_nonempty i nth_mem by blast
  then have "i * m < length xs" using buckets_nth [OF i] by (metis drop_all linorder_not_less take_Nil)
  then show ?thesis using m buckets_nth [OF i] ne by (simp add: hd_conv_nth)
qed

subsection \<open>Running totals\<close>

lemma add_nonneg_le: "b64_value a \<Longrightarrow> num_le (Fin 0) a \<Longrightarrow> num_le (Fin 0) q \<Longrightarrow> num_le a (a + q) \<and> num_le (Fin 0) (a + q)"
proof (cases "(a, q)" rule: num_add.cases)
  case (1 x y)
  assume b: "b64_value a" and nn: "num_le (Fin 0) a" "num_le (Fin 0) q"
  have r: "representable x" "x < 2 ^ 1024" using b 1 by (auto simp: b64_value_def)
  have "x \<le> rnd64 (x + y)" using nn 1 r by (intro b64.above) (auto simp: rnd64_id)
  then show ?thesis using nn 1 by (auto simp: flo_def Let_def)
qed (auto simp: plus_number_def)

lemma with_cum_fst: "map (\<lambda>r. (fst r, fst (snd r))) (with_cum c rows) = rows"
  by (induction c rows rule: with_cum.induct) simp_all

lemma with_cum_length [simp]: "length (with_cum c rows) = length rows"
  by (induction c rows rule: with_cum.induct) simp_all

lemma with_cum_mono:
  assumes "b64_value c" "num_le (Fin 0) c" "\<forall>r\<in>set rows. num_le (Fin 0) (snd r)"
  shows "sorted_wrt (\<lambda>r r'. num_le (snd (snd r)) (snd (snd r'))) (with_cum c rows) \<and>
    (\<forall>r\<in>set (with_cum c rows). num_le c (snd (snd r)))"
  using assms
proof (induction c rows rule: with_cum.induct)
  case (2 cum px q rest)
  have q: "num_le cum (cum + q) \<and> num_le (Fin 0) (cum + q)" using 2 by (intro add_nonneg_le) auto
  have "sorted_wrt (\<lambda>r r'. num_le (snd (snd r)) (snd (snd r'))) (with_cum (cum + q) rest)"
    "\<forall>r\<in>set (with_cum (cum + q) rest). num_le (cum + q) (snd (snd r))"
    using 2 q by simp_all
  moreover have "num_le a b \<Longrightarrow> num_le b c \<Longrightarrow> num_le a c" for a b c by (cases a; cases b; cases c) auto
  ultimately show ?case using q by auto
qed simp

lemma sum_nonneg:
  "\<forall>l\<in>set ls. num_le (Fin 0) (to_number (snd l)) \<Longrightarrow> b64_value c \<Longrightarrow> num_le (Fin 0) c \<Longrightarrow>
   num_le (Fin 0) (foldl (\<lambda>s l. s + to_number (snd l)) c ls)"
proof (induction ls arbitrary: c)
  case (Cons l ls)
  then show ?case using add_nonneg_le [of c "to_number (snd l)"] by simp
qed simp

lemma zero_b64 [simp]: "b64_value (Fin 0)"
  using flo_b64 [of 0] by simp

lemma total_is_max:
  assumes "sorted_wrt (\<lambda>r r'. num_le (snd (snd r)) (snd (snd r'))) rows" "r \<in> set rows" "snd (snd r) \<noteq> NaN"
  shows "num_le (snd (snd r)) (totalOf rows)"
proof -
  have refl: "num_le (snd (snd r)) (snd (snd r))" using assms(3) by (cases "snd (snd r)") auto
  obtain xs x where "rows = xs @ [x]" using assms(2) by (metis append_butlast_last_id list.set_cases list.distinct(1))
  then show ?thesis using assms refl by (auto simp: totalOf_def sorted_wrt_append)
qed

text \<open>The size of a row: the sizes of its levels added in their order.\<close>

definition level_sum :: "orderbook_level list \<Rightarrow> number" where
  "level_sum ls = foldl (+) (Fin 0) (map (to_number \<circ> snd) ls)"

lemma level_sum_fold: "level_sum ls = foldl (\<lambda>s l. s + to_number (snd l)) (Fin 0) ls"
  by (simp add: level_sum_def foldl_map)

lemma zero_plus: "b64_value x \<Longrightarrow> Fin 0 + x = x"
  by (cases x) (auto simp: b64_value_def plus_number_def intro: flo_exact)

lemma with_cum_nth:
  "i < length rows \<Longrightarrow> with_cum c rows ! i = (fst (rows ! i), snd (rows ! i), foldl (+) c (map snd (take (Suc i) rows)))"
proof (induction c rows arbitrary: i rule: with_cum.induct)
  case (2 cum px q rest)
  then show ?case by (cases i) simp_all
qed simp

lemma group_rows:
  assumes "0 < m" "\<forall>l\<in>set levels. num_le (Fin 0) (to_number (snd l))"
  shows "\<exists>rows. groupLevels levels m sd = with_cum (Fin 0) rows \<and> length rows = (length levels + m - 1) div m \<and>
    (\<forall>i < length rows. rows ! i = (fst (levels ! (i * m)), level_sum (take m (drop (i * m) levels)))) \<and> (\<forall>r\<in>set rows. num_le (Fin 0) (snd r))"
proof -
  consider "levels = []" | "levels \<noteq> []" "m = 1" | "levels \<noteq> []" "m \<noteq> 1" by blast
  then show ?thesis
  proof cases
    case 1
    then show ?thesis using assms(1) by (intro exI [of _ "[]"]) (simp add: groupLevels_def)
  next
    case 2
    have "level_sum (take 1 (drop i levels)) = to_number (snd (levels ! i))" if "i < length levels" for i
      using that zero_plus [OF to_number_b64] by (simp add: level_sum_def take_Suc_conv_app_nth)
    then show ?thesis using assms(2) 2
      by (intro exI [of _ "map (\<lambda>(px, qty). (px, to_number qty)) levels"]) (auto simp: groupLevels_def split_beta)
  next
    case 3
    let ?rows = "map (bucket_row sd) (buckets m levels)"
    have "\<forall>b\<in>set (buckets m levels). \<forall>l\<in>set b. num_le (Fin 0) (to_number (snd l))"
      using assms buckets_concat [OF assms(1), of levels] by (metis UN_I set_concat)
    then have "\<forall>r\<in>set ?rows. num_le (Fin 0) (snd r)" by (auto simp: bucket_row_def intro!: sum_nonneg)
    moreover have "?rows ! i = (fst (levels ! (i * m)), level_sum (take m (drop (i * m) levels)))" if "i < length ?rows" for i
      using that bucket_head [OF assms(1), of i levels] buckets_nth [of i m levels]
      by (cases sd) (simp_all add: bucket_row_def level_sum_fold)
    ultimately show ?thesis using 3 buckets_length [OF assms(1), of levels]
      by (intro exI [of _ ?rows]) (simp add: groupLevels_def)
  qed
qed

subsection \<open>Candles\<close>

definition candle_ok :: "candle \<Rightarrow> bool" where
  "candle_ok c = (num_le (cd_low c) (cd_open c) \<and> num_le (cd_open c) (cd_high c) \<and>
     num_le (cd_low c) (cd_close c) \<and> num_le (cd_close c) (cd_high c))"

definition unit_draw :: "number \<Rightarrow> bool" where
  "unit_draw d = (\<exists>x. d = Fin x \<and> 0 \<le> x \<and> x < 1)"

text \<open>A price the chart can hold: a double that is not negative.\<close>

definition price_like :: "number \<Rightarrow> bool" where
  "price_like p = (b64_value p \<and> num_le (Fin 0) p)"

lemma sub_nonneg_le: "b64_value a \<Longrightarrow> num_le (Fin 0) a \<Longrightarrow> is_finite q \<Longrightarrow> num_le (Fin 0) q \<Longrightarrow> num_le (a - q) a"
proof (cases a)
  case (Fin x)
  assume b: "b64_value a" and nn: "num_le (Fin 0) a" "is_finite q" "num_le (Fin 0) q"
  then obtain y where y: "q = Fin y" "0 \<le> y" by (cases q) auto
  have r: "representable x" "x < 2 ^ 1024" using b Fin by (auto simp: b64_value_def)
  have "rnd64 (x - y) \<le> x" using y r by (intro b64.below) (auto simp: rnd64_id)
  then show ?thesis using Fin y r by (auto simp: flo_def Let_def)
qed (auto simp: minus_number_def elim: is_finite.elims)

lemma wick: "unit_draw d \<Longrightarrow> bnd (2 ^ 31) anchor \<Longrightarrow> num_le (Fin 0) anchor \<Longrightarrow>
  is_finite (d * anchor * lit (15 / 10000)) \<and> num_le (Fin 0) (d * anchor * lit (15 / 10000))"
proof -
  assume "unit_draw d" and a: "bnd (2 ^ 31) anchor" and a0: "num_le (Fin 0) anchor"
  then obtain x where x: "d = Fin x" "0 \<le> x" "x < 1" by (auto simp: unit_draw_def)
  obtain y where y: "anchor = Fin y" "0 \<le> y" using a a0 by (auto simp: bnd_def)
  have "bnd (1 * 2 ^ 31) (d * anchor)" using x a by (intro bnd_mul) simp_all
  then have bd: "bnd (2 ^ 31) (d * anchor)" by simp
  then obtain u where u: "d * anchor = Fin u" by (auto simp: bnd_def)
  have u0: "0 \<le> u" using u x y flo_Fin [of "x * y" u] by (simp add: rnd64_nonneg)
  have bl: "bnd 1 (lit (15 / 10000))" by (rule bnd_lit) simp_all
  then obtain l where l: "lit (15 / 10000) = Fin l" by (auto simp: bnd_def)
  have l0: "0 \<le> l" using l flo_Fin [of "15 / 10000" l] by (simp add: lit_def rnd64_nonneg)
  have "bnd (2 ^ 31 * 1) (d * anchor * lit (15 / 10000))" using bd bl by (intro bnd_mul) simp_all
  then have f: "is_finite (d * anchor * lit (15 / 10000))" by (rule bnd_finite)
  moreover have "num_le (Fin 0) (Fin u * Fin l)" using flo_mono [of 0 "u * l"] u0 l0 by simp
  ultimately show ?thesis unfolding u l by simp
qed

lemma num_max_cases: "a \<noteq> NaN \<Longrightarrow> b \<noteq> NaN \<Longrightarrow>
  num_le a (num_max a b) \<and> num_le b (num_max a b) \<and> (num_max a b = a \<or> num_max a b = b)"
  by (cases a; cases b) (auto simp: num_max_def)

lemma num_min_cases: "a \<noteq> NaN \<Longrightarrow> b \<noteq> NaN \<Longrightarrow>
  num_le (num_min a b) a \<and> num_le (num_min a b) b \<and> (num_min a b = a \<or> num_min a b = b)"
  by (cases a; cases b) (auto simp: num_min_def)

lemma le_trans_num: "num_le a b \<Longrightarrow> num_le b c \<Longrightarrow> num_le a c"
  by (cases a; cases b; cases c) auto

lemma price_not_NaN: "price_like p \<Longrightarrow> p \<noteq> NaN"
  by (auto simp: price_like_def)

lemma seed_close_price:
  assumes "price_like opn" "unit_draw d" "bnd (2 ^ 31) anchor"
  shows "price_like (num_max (lit (1 / 10000)) (opn + (d - Fin (1/2)) * anchor * lit (25 / 10000)))"
proof -
  obtain x where x: "d = Fin x" "0 \<le> x" "x < 1" using assms(2) by (auto simp: unit_draw_def)
  have "bnd (1 + 1) (d - Fin (1/2))" using x by (intro bnd_diff) simp_all
  then have "bnd (2 * 2 ^ 31) ((d - Fin (1/2)) * anchor)" using assms(3) by (intro bnd_mul) simp_all
  moreover have "bnd 1 (lit (25 / 10000))" by (rule bnd_lit) simp_all
  ultimately have "bnd (2 * 2 ^ 31 * 1) ((d - Fin (1/2)) * anchor * lit (25 / 10000))" by (rule bnd_mul) simp
  then obtain y where y: "(d - Fin (1/2)) * anchor * lit (25 / 10000) = Fin y" by (auto simp: bnd_def)
  have n: "opn + Fin y \<noteq> NaN" using price_not_NaN [OF assms(1)] assms(1) by (cases opn) (auto simp: plus_number_def price_like_def)
  have l: "b64_value (lit (1 / 10000))" "num_le (Fin 0) (lit (1 / 10000))" "lit (1 / 10000) \<noteq> NaN"
    using flo_mono [of 0 "1 / 10000"] by (simp_all add: lit_def)
  from num_max_cases [OF l(3) n] l have "num_le (Fin 0) (num_max (lit (1 / 10000)) (opn + Fin y))"
    by (auto intro: le_trans_num)
  moreover have "b64_value (num_max (lit (1 / 10000)) (opn + Fin y))"
    using num_max_cases [OF l(3) n] l(1) num_add_b64 [of opn "Fin y"] by auto
  ultimately show ?thesis unfolding y price_like_def by blast
qed

lemma seed_candle_ok:
  assumes "price_like opn" "\<forall>j. unit_draw (d j)" "bnd (2 ^ 31) anchor" "num_le (Fin 0) anchor"
  shows "candle_ok (fst (seed_candle anchor t opn d)) \<and> price_like (cd_close (fst (seed_candle anchor t opn d)))"
proof -
  define cls where "cls = num_max (lit (1 / 10000)) (opn + (d 0 - Fin (1/2)) * anchor * lit (25 / 10000))"
  have c: "price_like cls" unfolding cls_def using assms by (intro seed_close_price) auto
  note nn = price_not_NaN [OF assms(1)] price_not_NaN [OF c]
  have hi: "price_like (num_max opn cls)" and lo: "price_like (num_min opn cls)"
    using num_max_cases [OF nn] num_min_cases [OF nn] assms(1) c by metis+
  have "num_le (num_max opn cls) (num_max opn cls + d 1 * anchor * lit (15 / 10000))"
    using hi wick [of "d 1"] assms add_nonneg_le unfolding price_like_def by blast
  moreover have "num_le (num_min opn cls - d 2 * anchor * lit (15 / 10000)) (num_min opn cls)"
    using lo wick [of "d 2"] assms sub_nonneg_le unfolding price_like_def by blast
  moreover have "candle_ok (fst (seed_candle anchor t opn d)) =
      (num_le (num_min opn cls - d 2 * anchor * lit (15 / 10000)) opn \<and> num_le opn (num_max opn cls + d 1 * anchor * lit (15 / 10000)) \<and>
       num_le (num_min opn cls - d 2 * anchor * lit (15 / 10000)) cls \<and> num_le cls (num_max opn cls + d 1 * anchor * lit (15 / 10000)))"
    by (simp add: seed_candle_def Let_def candle_ok_def cls_def)
  moreover have "cd_close (fst (seed_candle anchor t opn d)) = cls" by (simp add: seed_candle_def Let_def cls_def)
  moreover have "num_le opn (num_max opn cls)" "num_le cls (num_max opn cls)" "num_le (num_min opn cls) opn" "num_le (num_min opn cls) cls"
    using num_max_cases [OF nn] num_min_cases [OF nn] by blast+
  ultimately show ?thesis using c by (auto intro: le_trans_num)
qed

lemma seed_loop_ok:
  assumes "\<forall>i j. unit_draw (rnd i j)" "bnd (2 ^ 31) anchor" "num_le (Fin 0) anchor"
  shows "price_like price \<Longrightarrow> \<forall>cv\<in>set (seed_loop anchor start rnd i n price). candle_ok (fst cv)"
proof (induction n arbitrary: i price)
  case (Suc n)
  have d: "\<forall>j. unit_draw (rnd i j)" using assms(1) by blast
  have "price_like (cd_close (fst (seed_candle anchor (start + Fin (of_nat i) * TF_SECONDS) price (rnd i))))"
    "candle_ok (fst (seed_candle anchor (start + Fin (of_nat i) * TF_SECONDS) price (rnd i)))"
    using seed_candle_ok [OF Suc.prems d assms(2,3)] by blast+
  then show ?case using Suc.IH by (simp add: Let_def)
qed simp

lemma seed_loop_length: "length (seed_loop anchor start rnd i n price) = n"
  by (induction n arbitrary: i price) (simp_all add: Let_def)

lemma seed_candle_open: "cd_open (fst (seed_candle anchor t opn d)) = opn"
  by (simp add: seed_candle_def Let_def)

lemma seed_loop_head: "0 < n \<Longrightarrow> cd_open (fst (seed_loop anchor start rnd i n price ! 0)) = price"
  by (cases n) (simp_all add: Let_def seed_candle_open)

lemma seed_loop_chain:
  "Suc j < n \<Longrightarrow> cd_open (fst (seed_loop anchor start rnd i n price ! Suc j)) = cd_close (fst (seed_loop anchor start rnd i n price ! j))"
proof (induction n arbitrary: i j price)
  case (Suc n)
  then show ?case by (cases j) (simp_all add: Let_def seed_loop_head)
qed simp

section \<open>Properties\<close>

text \<open>
  C35. The grouped ladder shows every level exactly once: grouping \<open>n\<close> levels by \<open>m\<close> gives
  \<open>n / m\<close> rows rounded up; row \<open>i\<close> has the price of level \<open>i * m\<close>, the sum of the sizes of the levels
  from there up to the next row, and as its total the sum of the sizes of the rows so far. With sizes
  that are not negative the totals never decrease down the ladder, after rounding, and the last
  one, by which the depth bars are scaled, bounds them all.
\<close>

theorem ladder_shows_every_level:
  assumes "0 < m" "\<forall>l\<in>set levels. num_le (Fin 0) (to_number (snd l))"
  shows "length (groupLevels levels m sd) = (length levels + m - 1) div m \<and>
    (\<forall>i < length (groupLevels levels m sd). groupLevels levels m sd ! i =
       (fst (levels ! (i * m)), level_sum (take m (drop (i * m) levels)),
        foldl (+) (Fin 0) (map (\<lambda>k. level_sum (take m (drop (k * m) levels))) [0..<Suc i]))) \<and>
    sorted_wrt (\<lambda>r r'. num_le (snd (snd r)) (snd (snd r'))) (groupLevels levels m sd) \<and>
    (\<forall>r\<in>set (groupLevels levels m sd). num_le (Fin 0) (snd (snd r)) \<and> num_le (snd (snd r)) (totalOf (groupLevels levels m sd)))"
proof -
  obtain rows where g: "groupLevels levels m sd = with_cum (Fin 0) rows"
    and len: "length rows = (length levels + m - 1) div m"
    and row: "\<forall>i < length rows. rows ! i = (fst (levels ! (i * m)), level_sum (take m (drop (i * m) levels)))"
    and nn: "\<forall>r\<in>set rows. num_le (Fin 0) (snd r)"
    using group_rows [OF assms] by blast
  have "map snd (take (Suc i) rows) = map (\<lambda>k. level_sum (take m (drop (k * m) levels))) [0..<Suc i]" if "i < length rows" for i
    using that row by (intro nth_equalityI) (auto simp del: upt_Suc)
  then have "with_cum (Fin 0) rows ! i = (fst (levels ! (i * m)), level_sum (take m (drop (i * m) levels)),
      foldl (+) (Fin 0) (map (\<lambda>k. level_sum (take m (drop (k * m) levels))) [0..<Suc i]))" if "i < length rows" for i
    using that row by (simp add: with_cum_nth del: upt_Suc)
  moreover have c: "sorted_wrt (\<lambda>r r'. num_le (snd (snd r)) (snd (snd r'))) (with_cum (Fin 0) rows)"
    "\<forall>r\<in>set (with_cum (Fin 0) rows). num_le (Fin 0) (snd (snd r))"
    using with_cum_mono [of "Fin 0" rows] nn by auto
  moreover have "num_le (snd (snd r)) (totalOf (with_cum (Fin 0) rows))" if "r \<in> set (with_cum (Fin 0) rows)" for r
    using total_is_max [OF c(1) that] c(2) that by fastforce
  ultimately show ?thesis using len unfolding g by (simp del: upt_Suc)
qed

theorem ladder_shows_every_level_witness:
  "groupLevels [(''100'', ''1''), (''101'', ''2''), (''102'', ''4'')] 2 AskSide = [(''100'', Fin 3, Fin 3), (''102'', Fin 4, Fin 7)]"
proof -
  let ?ls = "[(''100'', ''1''), (''101'', ''2''), (''102'', ''4'')]"
  have n: "to_number ''1'' = Fin 1" "to_number ''2'' = Fin 2" "to_number ''4'' = Fin 4"
      "flo 1 = Fin 1" "flo 3 = Fin 3" "flo 4 = Fin 4" "flo 7 = Fin 7"
    using flo_of_int [of 1] flo_of_int [of 2] flo_of_int [of 3] flo_of_int [of 4] flo_of_int [of 7] by (simp_all add: read_literal)
  then have "\<forall>l\<in>set ?ls. num_le (Fin 0) (to_number (snd l))" by simp
  note l = ladder_shows_every_level [OF _ this, of 2 AskSide, simplified]
  have len: "length (groupLevels ?ls 2 AskSide) = 2" using l by simp
  show ?thesis
  proof (rule nth_equalityI)
    fix i assume "i < length (groupLevels ?ls 2 AskSide)"
    then show "groupLevels ?ls 2 AskSide ! i = [(''100'', Fin 3, Fin 3), (''102'', Fin 4, Fin 7)] ! i"
      using l by (cases i; cases "i - 1") (auto simp: level_sum_def n less_Suc_eq)
  qed (simp add: len)
qed

text \<open>
  C36. The seeded chart is well formed: for a price up to \<open>2 ^ 31\<close> and draws in the unit
  interval, every candle has its open and its close within its range, the first opens at the
  anchor and every other opens where the previous one closed.
\<close>

theorem seeded_candles_are_well_formed:
  assumes "anchor = Fin a" "representable a" "0 \<le> a" "a \<le> 2 ^ 31" "\<forall>i j. unit_draw (rnd i j)"
    and "candles = fst (seedCandles anchor nowMs rnd cnt)"
  shows "length candles = cnt \<and>
    (\<forall>i < cnt. cd_open (candles ! i) = (case i of 0 \<Rightarrow> anchor | Suc j \<Rightarrow> cd_close (candles ! j)) \<and>
       num_le (cd_low (candles ! i)) (cd_open (candles ! i)) \<and> num_le (cd_open (candles ! i)) (cd_high (candles ! i)) \<and>
       num_le (cd_low (candles ! i)) (cd_close (candles ! i)) \<and> num_le (cd_close (candles ! i)) (cd_high (candles ! i)))"
proof -
  let ?start = "num_floor (nowMs / Fin 1000) - Fin (of_nat cnt) * TF_SECONDS"
  let ?cs = "map fst (seed_loop anchor ?start rnd 0 cnt anchor)"
  have c: "candles = ?cs" by (simp add: assms(6) seedCandles_def Let_def)
  have "b64_value anchor" "num_le (Fin 0) anchor" "bnd (2 ^ 31) anchor"
    using assms(1-4) by (auto simp: b64_value_def intro: le_less_trans [of _ "2 ^ 31"])
  then have "\<forall>cv\<in>set (seed_loop anchor ?start rnd 0 cnt anchor). candle_ok (fst cv)"
    using assms(5) by (intro seed_loop_ok) (simp_all add: price_like_def)
  then have "\<forall>cd\<in>set ?cs. candle_ok cd" by simp
  moreover have "length ?cs = cnt" by (simp add: seed_loop_length)
  ultimately have ok: "\<forall>i < cnt. candle_ok (?cs ! i)" by (metis nth_mem)
  show ?thesis
    using ok unfolding c candle_ok_def by (auto simp: seed_loop_length seed_loop_head seed_loop_chain split: nat.split)
qed

theorem seeded_candles_are_well_formed_witness:
  "\<exists>candles. candles = fst (seedCandles (Fin 100) (Fin 0) (\<lambda>i j. Fin (1/2)) 240) \<and> length candles = 240 \<and>
    (\<forall>i < 240. cd_open (candles ! i) = (case i of 0 \<Rightarrow> Fin 100 | Suc j \<Rightarrow> cd_close (candles ! j)) \<and>
       num_le (cd_low (candles ! i)) (cd_open (candles ! i)) \<and> num_le (cd_open (candles ! i)) (cd_high (candles ! i)) \<and>
       num_le (cd_low (candles ! i)) (cd_close (candles ! i)) \<and> num_le (cd_close (candles ! i)) (cd_high (candles ! i)))"
proof -
  have "representable 100" using representable_of_int [of 100] by simp
  moreover have "\<forall>i j. unit_draw ((\<lambda>(i::nat) (j::nat). Fin (1/2)) i j)" unfolding unit_draw_def by (intro allI exI [of _ "1/2"]) simp
  ultimately show ?thesis
    using seeded_candles_are_well_formed [OF refl _ _ _ _ refl, of 100 "\<lambda>i j. Fin (1/2)" "Fin 0" 240] by auto
qed

text \<open>The candles that a sequence of oracle frames sends to the chart.\<close>

fun chart_ticks :: "candle option \<Rightarrow> (ws_oracle \<times> int \<times> number) list \<Rightarrow> candle list" where
  "chart_ticks current [] = []"
| "chart_ticks current ((oracle, now, rnd) # ts) =
     (case chart_tick oracle (Fin (of_int now)) rnd current of (current', sent) \<Rightarrow>
        (case sent of None \<Rightarrow> [] | Some (c, v) \<Rightarrow> [c]) @ chart_ticks current' ts)"

lemma fin_floor_div:
  "0 \<le> r \<Longrightarrow> r < 2 ^ 40 * d \<Longrightarrow> 0 < d \<Longrightarrow> d \<le> 2 ^ 13 \<Longrightarrow> num_floor (Fin (of_int r) / Fin (of_int d)) = Fin (of_int (r div d))"
proof -
  assume r: "0 \<le> r" "r < 2 ^ 40 * d" and d: "0 < d" "d \<le> 2 ^ 13"
  have "(of_int r :: rat) < of_int (2 ^ 40 * d)" using r by (simp only: of_int_less_iff)
  then have "\<bar>of_int r / of_int d :: rat\<bar> \<le> of_int (2 ^ 40)" using r(1) d(1) by (simp add: pos_divide_le_eq)
  moreover have "representable (of_int (2 ^ 40))" by (rule representable_of_int) simp
  ultimately have "flo (of_int r / of_int d) = Fin (rnd64 (of_int r / of_int d))" by (rule flo_small) simp
  then show ?thesis using floor_rnd64_div [OF r d] d by simp
qed

lemma bucket_start_int:
  assumes "0 \<le> t" "t < 2 ^ 49"
  shows "bucket_start (Fin (of_int t)) = Fin (of_int (t div 60000 * 60))"
proof -
  have "num_floor (Fin (of_int t) / Fin (of_int 1000)) = Fin (of_int (t div 1000))"
    using assms by (intro fin_floor_div) auto
  moreover have s: "0 \<le> t div 1000" "t div 1000 < 2 ^ 40 * 60" using assms by auto
  then have "num_floor (Fin (of_int (t div 1000)) / Fin (of_int 60)) = Fin (of_int (t div 1000 div 60))"
    by (intro fin_floor_div) auto
  moreover have "t div 1000 div 60 = t div 60000" using zdiv_zmult2_eq [of 60 t 1000] by simp
  moreover have "flo (of_int (t div 60000 * 60)) = Fin (of_int (t div 60000 * 60))"
    using assms by (intro flo_of_int) auto
  ultimately show ?thesis by (simp add: bucket_start_def TF_SECONDS_def)
qed

lemma seed_loop_time:
  "k < n \<Longrightarrow> cd_time (fst (seed_loop anchor start rnd i n price ! k)) = start + Fin (of_nat (i + k)) * TF_SECONDS"
proof (induction n arbitrary: i k price)
  case (Suc n)
  then show ?case by (cases k) (simp_all add: Let_def seed_candle_def add.assoc)
qed simp

lemma seeded_length: "length (fst (seedCandles anchor nowMs rnd cnt)) = cnt"
  by (simp add: seedCandles_def Let_def seed_loop_length)

lemma seeded_times:
  assumes "0 \<le> t" "t < 2 ^ 49" "k < 240"
  shows "cd_time (fst (seedCandles anchor (Fin (of_int t)) rnd 240) ! k) = Fin (of_int (t div 1000 - 14400 + 60 * int k))"
proof -
  have "num_floor (Fin (of_int t) / Fin (of_int 1000)) = Fin (of_int (t div 1000))"
    using assms by (intro fin_floor_div) auto
  moreover have "flo (of_int 14400) = Fin (of_int 14400)" "flo (of_int (60 * int k)) = Fin (of_int (60 * int k))"
    "flo (of_int (t div 1000 - 14400)) = Fin (of_int (t div 1000 - 14400))"
    "flo (of_int (t div 1000 - 14400 + 60 * int k)) = Fin (of_int (t div 1000 - 14400 + 60 * int k))"
    using assms by (intro flo_of_int; auto simp: abs_le_iff)+
  ultimately have "num_floor (Fin (of_int t) / Fin 1000) - Fin 240 * TF_SECONDS + Fin (of_nat k) * TF_SECONDS =
      Fin (of_int (t div 1000 - 14400 + 60 * int k))"
    by (simp add: TF_SECONDS_def mult.commute)
  then show ?thesis
    using assms(3) seed_loop_time [of k 240 anchor _ rnd 0 anchor] by (simp add: seedCandles_def Let_def seed_loop_length)
qed

lemma chart_start_last: "chart_start anchor nowMs rnd = Some (fst (seedCandles anchor nowMs rnd 240) ! 239)"
proof -
  have n: "length (fst (seedCandles anchor nowMs rnd 240)) = 240" by (rule seeded_length)
  then have ne: "fst (seedCandles anchor nowMs rnd 240) \<noteq> []" by auto
  then have "chart_start anchor nowMs rnd = Some (last (fst (seedCandles anchor nowMs rnd 240)))"
    by (cases "fst (seedCandles anchor nowMs rnd 240)") (simp_all add: chart_start_def)
  then show ?thesis using n last_conv_nth [OF ne] by simp
qed

text \<open>One tick: the current candle's time never moves back and stays behind the clock.\<close>

lemma chart_tick_time:
  assumes "cd_time c = Fin (of_int \<tau>)" "\<tau> \<le> t div 60000 * 60" "0 \<le> t" "t < 2 ^ 49"
    and "chart_tick oracle (Fin (of_int t)) rnd (Some c) = (cur, sent)"
  shows "\<exists>c' \<tau>'. cur = Some c' \<and> cd_time c' = Fin (of_int \<tau>') \<and> \<tau> \<le> \<tau>' \<and> \<tau>' \<le> t div 60000 * 60 \<and>
    (case sent of None \<Rightarrow> True | Some (d, v) \<Rightarrow> d = c')"
proof -
  define b where "b = t div 60000 * 60"
  have start: "bucket_start (Fin (of_int t)) = Fin (of_int b)" unfolding b_def by (rule bucket_start_int [OF assms(3,4)])
  show ?thesis using assms(1,2,5) unfolding b_def [symmetric]
    by (auto simp: chart_tick_def start Let_def split: if_splits)
qed

lemma chart_ticks_times:
  assumes "cd_time c = Fin (of_int \<tau>)" "\<tau> \<le> t0 div 60000 * 60" "0 \<le> t0"
    and "sorted (t0 # map (fst \<circ> snd) ts)" "\<forall>x\<in>set ts. fst (snd x) < 2 ^ 49"
  shows "sorted_wrt (\<lambda>a b. num_le (cd_time a) (cd_time b)) (c # chart_ticks (Some c) ts)"
  using assms
proof (induction ts arbitrary: c \<tau> t0)
  case (Cons x ts)
  obtain orc t rnd where x: "x = (orc, t, rnd)" by (metis prod_cases3)
  have t: "t0 \<le> t" "t < 2 ^ 49" "sorted (t # map (fst \<circ> snd) ts)" "\<forall>x\<in>set ts. fst (snd x) < 2 ^ 49"
    using Cons.prems by (auto simp: x comp_def)
  then have "t0 div 60000 * 60 \<le> t div 60000 * 60" by (intro mult_right_mono zdiv_mono1) auto
  then have le: "\<tau> \<le> t div 60000 * 60" using Cons.prems(2) by linarith
  obtain cur sent where ct: "chart_tick orc (Fin (of_int t)) rnd (Some c) = (cur, sent)" by (metis surj_pair)
  obtain c' \<tau>' where c': "cur = Some c'" "cd_time c' = Fin (of_int \<tau>')" "\<tau> \<le> \<tau>'" "\<tau>' \<le> t div 60000 * 60"
      and sent: "case sent of None \<Rightarrow> True | Some (d, v) \<Rightarrow> d = c'"
    using chart_tick_time [OF Cons.prems(1) le _ t(2) ct] Cons.prems(3) t(1) by auto
  have ih: "sorted_wrt (\<lambda>a b. num_le (cd_time a) (cd_time b)) (c' # chart_ticks (Some c') ts)"
    using Cons.IH [OF c'(2,4) _ t(3,4)] Cons.prems(3) t(1) by simp
  have cc: "num_le (cd_time c) (cd_time c')" using Cons.prems(1) c'(2,3) by simp
  have "num_le (cd_time c) (cd_time d)" if "d \<in> set (chart_ticks (Some c') ts)" for d
    using ih that cc c'(2) Cons.prems(1) by (cases "cd_time d") auto
  then show ?case using ih cc sent by (auto simp: x ct c'(1) split: option.splits)
qed simp

text \<open>
  C37. The chart is never sent a candle that lies before one it already has: the 240 candles that
  are seeded at a clock reading and the candles that oracle frames send at later and later
  readings, in this order, have times that never decrease, whatever prices arrive.
\<close>

theorem chart_times_never_decrease:
  assumes "0 \<le> t0" "sorted (t0 # map (fst \<circ> snd) ticks)" "\<forall>x\<in>set ticks. fst (snd x) < 2 ^ 49" "t0 < 2 ^ 49"
  shows "length (fst (seedCandles anchor (Fin (of_int t0)) rnd 240)) = 240 \<and>
    sorted_wrt (\<lambda>a b. num_le (cd_time a) (cd_time b))
      (fst (seedCandles anchor (Fin (of_int t0)) rnd 240) @ chart_ticks (chart_start anchor (Fin (of_int t0)) rnd) ticks)"
proof -
  let ?cs = "fst (seedCandles anchor (Fin (of_int t0)) rnd 240)"
  note len = seeded_length [of anchor "Fin (of_int t0)" rnd 240] and times = seeded_times [OF assms(1,4)]
  have last: "cd_time (?cs ! 239) = Fin (of_int (t0 div 1000 - 60))" using times [of 239] by simp
  have "t0 div 60000 = t0 div 1000 div 60" using zdiv_zmult2_eq [of 60 t0 1000] by simp
  then have "t0 div 1000 - 60 \<le> t0 div 60000 * 60" by simp
  from chart_ticks_times [OF last this assms(1,2,3)]
  have ticks: "sorted_wrt (\<lambda>a b. num_le (cd_time a) (cd_time b)) (?cs ! 239 # chart_ticks (Some (?cs ! 239)) ticks)" .
  have "sorted_wrt (\<lambda>a b. num_le (cd_time a) (cd_time b)) ?cs"
    unfolding sorted_wrt_iff_nth_less using len times by auto
  moreover have "num_le (cd_time a) (cd_time b)" if "a \<in> set ?cs" "b \<in> set (chart_ticks (Some (?cs ! 239)) ticks)" for a b
  proof -
    obtain k where k: "k < 240" "a = ?cs ! k" using \<open>a \<in> set ?cs\<close> len by (metis in_set_conv_nth)
    then have "num_le (cd_time a) (cd_time (?cs ! 239))" using times [OF k(1)] last by simp
    moreover have "num_le (cd_time (?cs ! 239)) (cd_time b)" using ticks that(2) by simp
    ultimately show ?thesis using last times [OF k(1)] k(2) by (cases "cd_time b") auto
  qed
  ultimately show ?thesis using len ticks by (simp add: sorted_wrt_append chart_start_last)
qed

theorem chart_times_never_decrease_witness:
  "sorted_wrt (\<lambda>a b. num_le (cd_time a) (cd_time b)) (fst (seedCandles (Fin 100) (Fin 61000) (\<lambda>i j. Fin (1/2)) 240) @
     chart_ticks (chart_start (Fin 100) (Fin 61000) (\<lambda>i j. Fin (1/2)))
      [(\<lparr>wo_channel = ''oracle.btc-usd'', wo_priceX18 = ''90000000000000000000'', wo_confidenceX18 = ''0'',
         wo_sourceTsNs = ''0'', wo_tsNs = ''0''\<rparr>, 125000, Fin 0)])"
  using chart_times_never_decrease [of 61000
    "[(\<lparr>wo_channel = ''oracle.btc-usd'', wo_priceX18 = ''90000000000000000000'', wo_confidenceX18 = ''0'',
         wo_sourceTsNs = ''0'', wo_tsNs = ''0''\<rparr>, 125000, Fin 0)]" "Fin 100" "\<lambda>i j. Fin (1/2)"]
  by (simp del: chart_ticks.simps)

text \<open>
  The first tick of a new minute breaks that shape: the fresh candle opens at the previous
  close but takes its range from the tick alone, so unless the price is unchanged its open lies
  outside its own range.
\<close>

theorem fresh_candle_opens_outside_its_range:
  assumes "x18ToDollars (NStr (wo_priceX18 oracle)) = Fin p" "0 < p" "cd_close c = Fin q" "q \<noteq> p"
    and "\<not> num_eq (cd_time c) (bucket_start nowMs)"
  shows "\<exists>c' v. chart_tick oracle nowMs rnd (Some c) = (Some c', Some (c', Some v)) \<and> cd_open c' = Fin q \<and>
    \<not> (num_le (cd_low c') (cd_open c') \<and> num_le (cd_open c') (cd_high c'))"
  using assms by (auto simp: chart_tick_def Let_def)

theorem fresh_candle_opens_outside_its_range_witness:
  "\<exists>c' v. chart_tick \<lparr>wo_channel = ''oracle.btc-usd'', wo_priceX18 = ''90000000000000000000'', wo_confidenceX18 = ''0'', wo_sourceTsNs = ''0'', wo_tsNs = ''0''\<rparr>
       (Fin 60000) (Fin 0) (Some \<lparr>cd_time = Fin 0, cd_open = Fin 100, cd_high = Fin 100, cd_low = Fin 100, cd_close = Fin 100\<rparr>)
     = (Some c', Some (c', Some v)) \<and> cd_open c' = Fin 100 \<and>
    \<not> (num_le (cd_low c') (cd_open c') \<and> num_le (cd_open c') (cd_high c'))"
proof (rule fresh_candle_opens_outside_its_range)
  have "representable (of_int 171661376953125 * 2 powi 19)"
    by (rule representable_scaled) simp_all
  moreover have "of_int 171661376953125 * (2::rat) powi 19 = 90000000000000000000" by (simp add: power_int_def)
  ultimately have "representable 90000000000000000000" by simp
  then have "flo 90000000000000000000 = Fin 90000000000000000000" by (rule flo_exact) simp
  then have "to_number ''90000000000000000000'' = Fin 90000000000000000000" by (simp add: read_literal)
  then show "x18ToDollars (NStr (wo_priceX18 \<lparr>wo_channel = ''oracle.btc-usd'', wo_priceX18 = ''90000000000000000000'',
      wo_confidenceX18 = ''0'', wo_sourceTsNs = ''0'', wo_tsNs = ''0''\<rparr>)) = Fin 90"
    using flo_of_int [of 90] by simp
  show "\<not> num_eq (cd_time \<lparr>cd_time = Fin 0, cd_open = Fin 100, cd_high = Fin 100, cd_low = Fin 100, cd_close = Fin 100\<rparr>) (bucket_start (Fin 60000))"
    using flo_of_int [of 60] flo_of_int [of 1] by (simp add: bucket_start_def TF_SECONDS_def num_eq_def)
qed simp_all

end
