(* ===== verification/Portfolio.thy ===== *)
theory Portfolio
  imports Ticket JsArray
begin

text \<open>
  The account side of the screen: \<^verbatim>\<open>components/trade/PositionPanel.tsx\<close> with its grouping of
  fills by order, the wallet, portfolio and history pages under \<^verbatim>\<open>app/(app)\<close>, and the toast and
  celebration timers of \<^verbatim>\<open>components/common\<close>. Markup is left out; a table row is the record of
  the texts it shows. A time column can throw, since it parses the stamp with \<open>BigInt\<close>.
\<close>

section \<open>Tables\<close>

text \<open>What a table component renders: its empty state, its placeholder rows while loading, or its columns and rows.\<close>

datatype 'r table =
    EmptyState string string
  | LoadingRows nat
  | Rows "string list" "'r list"

definition ellipsis :: string where
  "ellipsis = [CHR 0xE2, CHR 0x80, CHR 0xA6]"

section \<open>The panel\<close>

datatype panel_tab = PositionsTab | OrdersTab | FillsTab

datatype panel_scope = CurrentScope | AllScope

record panel =
  pn_tab :: panel_tab
  pn_scope :: panel_scope

definition initial_panel :: panel where
  "initial_panel = \<lparr>pn_tab = PositionsTab, pn_scope = CurrentScope\<rparr>"

definition in_scope :: "panel_scope \<Rightarrow> market_id option \<Rightarrow> market_id \<Rightarrow> bool" where
  "in_scope scope mid m = (scope = AllScope \<or> mid = None \<or> Some m = mid)"

definition fills_query :: "panel_scope \<Rightarrow> market_id option \<Rightarrow> market_id option" where
  "fills_query scope mid = (if scope = CurrentScope then mid else None)"

record panel_view =
  pv_positions :: "position list"
  pv_orders :: "open_order list"
  pv_optimistic :: "open_order list"
  pv_positionsCount :: nat
  pv_ordersCount :: nat
  pv_fillsCount :: nat

definition panel_view_of ::
    "panel_scope \<Rightarrow> market_id option \<Rightarrow> positions_response option \<Rightarrow> open_order list option \<Rightarrow> fills_response option \<Rightarrow> ui_state \<Rightarrow> panel_view" where
  "panel_view_of scope mid positions openOrders fillsResp u =
     (let ps = filter (\<lambda>p. in_scope scope mid (ps_marketId p)) (case positions of None \<Rightarrow> [] | Some r \<Rightarrow> pr_positions r);
          os = filter (\<lambda>o'. in_scope scope mid (oo_marketId o')) (case openOrders of None \<Rightarrow> [] | Some l \<Rightarrow> l);
          opt = filter (\<lambda>o'. in_scope scope mid (oo_marketId o')) (ui_optimisticOrders u)
      in \<lparr>pv_positions = ps, pv_orders = os, pv_optimistic = opt, pv_positionsCount = length ps,
          pv_ordersCount = length os + length opt,
          pv_fillsCount = (case fillsResp of None \<Rightarrow> 0 | Some r \<Rightarrow> length (fls_fills r))\<rparr>)"

text \<open>Cancelling: the outcome of the request decides the toast.\<close>

definition onCancel :: "string \<Rightarrow> (thrown, 'a) result \<Rightarrow> ui_state \<Rightarrow> ui_state" where
  "onCancel suffix outcome u = (case outcome of
       Inr _ \<Rightarrow> pushToast suffix Success ''Order cancelled'' None u
     | Inl e \<Rightarrow> pushToast suffix Error ''Cancel failed'' (thrown_msg e) u)"

text \<open>The close button: \<open>closingId\<close> is set for the duration of the call, whatever its outcome.\<close>

definition close_click :: "(position \<Rightarrow> ui_state \<Rightarrow> ui_state \<times> order_request option) \<Rightarrow> position \<Rightarrow> ui_state \<Rightarrow>
    (market_id option \<times> market_id option) \<times> ui_state \<times> order_request option" where
  "close_click close p u = ((Some (ps_marketId p), None), close p u)"

definition close_disabled :: "market_id option \<Rightarrow> position \<Rightarrow> bool" where
  "close_disabled closingId p = (closingId = Some (ps_marketId p))"

fun replace_dash :: "string \<Rightarrow> string" where
  "replace_dash [] = []"
| "replace_dash (c # cs) = (if c = CHR ''-'' then CHR ''/'' # cs else c # replace_dash cs)"

record position_row =
  pw_market :: string
  pw_side :: string
  pw_size :: string
  pw_entry :: string
  pw_mark :: string
  pw_notional :: string
  pw_pnl :: string
  pw_leverage :: string
  pw_liq :: string
  pw_funding :: string
  pw_closeDisabled :: bool
  pw_closeLabel :: string

definition position_row_of :: "market_id option \<Rightarrow> position \<Rightarrow> position_row" where
  "position_row_of closingId p =
     \<lparr>pw_market = to_upper (replace_dash (market_id_str (ps_marketId p))),
      pw_side = (if ps_side p = Long then ''LONG'' else ''SHORT''),
      pw_size = displayText (NStr (ps_size p)) 4 False,
      pw_entry = NumberDisplay ''$'' [] (NNum (x18ToDollars (NStr (ps_entryPriceX18 p)))) 2 False,
      pw_mark = NumberDisplay ''$'' [] (NNum (x18ToDollars (NStr (ps_markPriceX18 p)))) 2 False,
      pw_notional = NumberDisplay ''$'' [] (NNum (usdc6ToDollars (NStr (ps_notionalUsdc p)))) 2 False,
      pw_pnl = NumberDisplay ''$'' [] (NNum (usdc6ToDollars (NStr (ps_unrealisedPnlUsdc p)))) 2 True,
      pw_leverage = to_fixed (to_number (ps_leverage p)) 1 @ ''x'',
      pw_liq = NumberDisplay ''$'' [] (NNum (x18ToDollars (NStr (ps_liquidationPriceX18 p)))) 2 False,
      pw_funding = NumberDisplay ''$'' [] (NNum (usdc6ToDollars (NStr (ps_fundingPaidUsdc p)))) 2 True,
      pw_closeDisabled = close_disabled closingId p,
      pw_closeLabel = (if close_disabled closingId p then ''Closing'' @ ellipsis else ''Close'')\<rparr>"

definition PositionsTable :: "market_id option \<Rightarrow> position list \<Rightarrow> position_row table" where
  "PositionsTable closingId positions =
     (if positions = [] then EmptyState ''No open positions'' ''Place an order to open a long or short position.''
      else Rows [''Market'', ''Side'', ''Size'', ''Entry'', ''Mark'', ''Notional'', ''PnL'', ''Leverage'', ''Liq. price'', ''Funding'', []]
             (map (position_row_of closingId) positions))"

record order_row =
  ow_time :: "(js_error, string) result"
  ow_market :: string
  ow_side :: string
  ow_type :: string
  ow_price :: string
  ow_filled :: string
  ow_size :: string
  ow_total :: string
  ow_syncing :: bool

definition order_row_of :: "(rat \<Rightarrow> int) \<Rightarrow> bool \<Rightarrow> open_order \<Rightarrow> order_row" where
  "order_row_of tz syncing o' =
     \<lparr>ow_time = formatTimeOfDay tz (oo_tsNs o'), ow_market = to_upper (market_id_str (oo_marketId o')),
      ow_side = (if oo_side o' = Buy then ''Long'' else ''Short''), ow_type = order_type_str (oo_type o'),
      ow_price = displayText (NStr (oo_price o')) 2 False,
      ow_filled = displayText (NNum (to_number (oo_qty o') - to_number (oo_remaining o'))) 4 False,
      ow_size = displayText (NStr (oo_qty o')) 4 False,
      ow_total = NumberDisplay ''$'' [] (NNum (to_number (oo_price o') * to_number (oo_qty o'))) 2 False, ow_syncing = syncing\<rparr>"

text \<open>Optimistic rows come first and have no cancel button.\<close>

definition order_rows :: "(rat \<Rightarrow> int) \<Rightarrow> panel_view \<Rightarrow> order_row list" where
  "order_rows tz v = map (order_row_of tz True) (pv_optimistic v) @ map (order_row_of tz False) (pv_orders v)"

definition OrdersTable :: "(rat \<Rightarrow> int) \<Rightarrow> panel_view \<Rightarrow> order_row table" where
  "OrdersTable tz v =
     (if length (pv_orders v) + length (pv_optimistic v) = 0
      then EmptyState ''No open orders'' ''Place a limit order to see it here.''
      else Rows [''Time'', ''Market'', ''Side'', ''Type'', ''Price'', ''Filled / Size'', ''Total'', []] (order_rows tz v))"

section \<open>Fills grouped by order\<close>

record fill_group =
  fg_id :: string
  fg_orderId :: string
  fg_marketId :: market_id
  fg_side :: side
  fg_role :: fill_role
  fg_qty :: number
  fg_notional :: number
  fg_fee :: number
  fg_tsNs :: string
  fg_legs :: nat

definition first_leg :: "fill \<Rightarrow> fill_group" where
  "first_leg f = \<lparr>fg_id = fl_id f, fg_orderId = fl_orderId f, fg_marketId = fl_marketId f, fg_side = fl_side f,
     fg_role = fl_role f, fg_qty = to_number (fl_qty f), fg_notional = to_number (fl_qty f) * to_number (fl_price f),
     fg_fee = to_number (fl_feeUsdc f), fg_tsNs = fl_tsNs f, fg_legs = 1\<rparr>"

text \<open>\<open>BigInt(a) < BigInt(b)\<close>; a string that is no integer throws.\<close>

definition ts_less :: "string \<Rightarrow> string \<Rightarrow> (js_error, bool) result" where
  "ts_less a b = (case to_bigint a of Inl e \<Rightarrow> Throw e
     | Inr x \<Rightarrow> (case to_bigint b of Inl e \<Rightarrow> Throw e | Inr y \<Rightarrow> Return (x < y)))"

definition add_leg :: "fill_group \<Rightarrow> fill \<Rightarrow> (js_error, fill_group) result" where
  "add_leg g f = (case ts_less (fl_tsNs f) (fg_tsNs g) of Inl e \<Rightarrow> Throw e
     | Inr earlier \<Rightarrow> Return (g\<lparr>fg_qty := fg_qty g + to_number (fl_qty f),
         fg_notional := fg_notional g + to_number (fl_qty f) * to_number (fl_price f),
         fg_fee := fg_fee g + to_number (fl_feeUsdc f),
         fg_tsNs := (if earlier then fl_tsNs f else fg_tsNs g), fg_legs := fg_legs g + 1\<rparr>))"

fun group_fills :: "(string, fill_group) jmap \<Rightarrow> fill list \<Rightarrow> (js_error, (string, fill_group) jmap) result" where
  "group_fills m [] = Return m"
| "group_fills m (f # fs) = (case mget m (fl_orderId f) of
       None \<Rightarrow> group_fills (mset_key m (fl_orderId f) (first_leg f)) fs
     | Some g \<Rightarrow> (case add_leg g f of Inl e \<Rightarrow> Throw e
         | Inr g' \<Rightarrow> group_fills (mset_key m (fl_orderId f) g') fs))"

text \<open>
  The comparator answers \<open>-1\<close> for equal stamps in both directions, so the order of ties is
  left to the engine; the statements below hold for every such order. With two rows or more
  every stamp is parsed by some comparison.
\<close>

definition ts_val :: "string \<Rightarrow> int" where
  "ts_val s = (case to_bigint s of Inr n \<Rightarrow> n | Inl _ \<Rightarrow> 0)"

definition ts_readable :: "string \<Rightarrow> bool" where
  "ts_readable s = (case to_bigint s of Inr n \<Rightarrow> True | Inl _ \<Rightarrow> False)"

definition newer_first :: "fill_group \<Rightarrow> fill_group \<Rightarrow> number" where
  "newer_first a b = (if ts_val (fg_tsNs a) < ts_val (fg_tsNs b) then Fin 1 else Fin (- 1))"

definition aggregateFills :: "fill list \<Rightarrow> (js_error, fill_group list) result" where
  "aggregateFills fills = (case group_fills [] fills of Inl e \<Rightarrow> Throw e
     | Inr m \<Rightarrow> (let rows = mvalues m in
         if 2 \<le> length rows \<and> \<not> list_all (\<lambda>g. ts_readable (fg_tsNs g)) rows
         then Throw (SyntaxError ''Cannot convert to a BigInt'')
         else Return (sort_by newer_first rows)))"

record fill_row =
  fx_time :: "(js_error, string) result"
  fx_market :: string
  fx_side :: string
  fx_avgPx :: string
  fx_size :: string
  fx_legs :: "nat option"
  fx_total :: string
  fx_fee :: string
  fx_role :: string

definition avg_px :: "fill_group \<Rightarrow> number" where
  "avg_px g = (if num_lt (Fin 0) (fg_qty g) then fg_notional g / fg_qty g else Fin 0)"

definition fill_row_of :: "(number \<Rightarrow> string) \<Rightarrow> fill_group \<Rightarrow> fill_row" where
  "fill_row_of locale g =
     \<lparr>fx_time = formatDateTime locale (fg_tsNs g), fx_market = to_upper (market_id_str (fg_marketId g)),
      fx_side = (if fg_side g = Buy then ''Buy'' else ''Sell''), fx_avgPx = displayText (NNum (avg_px g)) 2 False,
      fx_size = displayText (NNum (fg_qty g)) 4 False, fx_legs = (if 1 < fg_legs g then Some (fg_legs g) else None),
      fx_total = NumberDisplay ''$'' [] (NNum (fg_notional g)) 2 False,
      fx_fee = NumberDisplay ''$'' [] (NNum (usdc6ToDollars (NNum (fg_fee g)))) 2 False, fx_role = fill_role_str (fg_role g)\<rparr>"

definition FillsTable :: "(number \<Rightarrow> string) \<Rightarrow> fill list \<Rightarrow> (js_error, fill_row table) result" where
  "FillsTable locale fills =
     (if fills = [] then Return (EmptyState ''No fills yet'' ''Recent trades will appear here once you trade.'')
      else case aggregateFills fills of Inl e \<Rightarrow> Throw e
        | Inr rows \<Rightarrow> Return (Rows [''Time'', ''Market'', ''Side'', ''Avg price'', ''Size'', ''Total'', ''Fee'', ''Role'']
            (map (fill_row_of locale) rows)))"

text \<open>The tab strip, the scope switch (only on a market's page) and the body of the chosen tab.\<close>

definition panel_tabs :: "panel_view \<Rightarrow> (panel_tab \<times> string \<times> nat) list" where
  "panel_tabs v = [(PositionsTab, ''Positions'', pv_positionsCount v), (OrdersTab, ''Open orders'', pv_ordersCount v),
     (FillsTab, ''Fills'', pv_fillsCount v)]"

definition scope_buttons :: "market_id option \<Rightarrow> (panel_scope \<times> string) list" where
  "scope_buttons mid = (case mid of None \<Rightarrow> []
     | Some m \<Rightarrow> [(CurrentScope, hd (split_at (CHR ''-'') (market_id_str m))), (AllScope, ''All'')])"

datatype panel_body =
    PositionsBody "position_row table"
  | OrdersBody "order_row table"
  | FillsBody "fill_row table"

definition panel_body_of ::
    "(rat \<Rightarrow> int) \<Rightarrow> (number \<Rightarrow> string) \<Rightarrow> market_id option \<Rightarrow> panel_tab \<Rightarrow> panel_view \<Rightarrow> fills_response option \<Rightarrow> (js_error, panel_body) result" where
  "panel_body_of tz locale closingId tab v fillsResp = (case tab of
       PositionsTab \<Rightarrow> Return (PositionsBody (PositionsTable closingId (pv_positions v)))
     | OrdersTab \<Rightarrow> Return (OrdersBody (OrdersTable tz v))
     | FillsTab \<Rightarrow> map_sum id FillsBody (FillsTable locale (case fillsResp of None \<Rightarrow> [] | Some r \<Rightarrow> fls_fills r)))"

section \<open>The wallet page\<close>

datatype transfer_mode = Deposit | Withdraw

record wallet_page =
  wp_mode :: transfer_mode
  wp_amount :: string
  wp_submitting :: bool

record wallet_view =
  wv_walletBal :: number
  wv_vaultBal :: number
  wv_source :: number
  wv_target :: number
  wv_amt :: number
  wv_insufficient :: bool
  wv_disabled :: bool

definition wallet_view_of :: "balance_response option \<Rightarrow> wallet_page \<Rightarrow> wallet_view" where
  "wallet_view_of balance w =
     (let walletBal = (case balance of None \<Rightarrow> Fin 0 | Some b \<Rightarrow> usdc6ToDollars (NStr (br_walletUsdcBalance b)));
          vaultBal = (case balance of None \<Rightarrow> Fin 0 | Some b \<Rightarrow> usdc6ToDollars (NStr (br_vaultBalanceUsdc b)));
          source = (if wp_mode w = Deposit then walletBal else vaultBal);
          target = (if wp_mode w = Deposit then vaultBal else walletBal);
          n = to_number (wp_amount w);
          amt = (if truthy n then n else Fin 0);
          insufficient = num_lt source amt
      in \<lparr>wv_walletBal = walletBal, wv_vaultBal = vaultBal, wv_source = source, wv_target = target, wv_amt = amt,
          wv_insufficient = insufficient, wv_disabled = (\<not> truthy amt \<or> insufficient)\<rparr>)"

text \<open>The submit handler waits, reports success and clears the field; it calls no contract.\<close>

definition wallet_submit :: "string \<Rightarrow> balance_response option \<Rightarrow> wallet_page \<Rightarrow> ui_state \<Rightarrow> wallet_page \<times> ui_state" where
  "wallet_submit suffix balance w u =
     (let v = wallet_view_of balance w in
      if \<not> truthy (wv_amt v) then (w, u)
      else (w\<lparr>wp_submitting := False, wp_amount := []\<rparr>,
            pushToast suffix Success (if wp_mode w = Deposit then ''Deposit submitted'' else ''Withdrawal submitted'')
              (Some (to_fixed (wv_amt v) 2 @ '' USDC '' @ middle_dot @ '' pending confirmation'')) u))"

definition wallet_quick :: "balance_response option \<Rightarrow> number \<Rightarrow> wallet_page \<Rightarrow> wallet_page" where
  "wallet_quick balance pct w = w\<lparr>wp_amount := to_fixed (wv_source (wallet_view_of balance w) * pct) 2\<rparr>"

definition wallet_rows :: "wallet_view \<Rightarrow> string \<times> string" where
  "wallet_rows v = (''$'' @ to_fixed (wv_source v) 2, ''$'' @ to_fixed (wv_target v + wv_amt v) 2)"

definition wallet_labels :: "transfer_mode \<Rightarrow> string \<times> string \<times> string" where
  "wallet_labels mode = (if mode = Deposit then (''Wallet'', ''Vault'', ''Deposit USDC'') else (''Vault'', ''Wallet'', ''Withdraw USDC''))"

definition shortAddr :: "string \<Rightarrow> string" where
  "shortAddr a = (if a = [] then dash else slice a 0 6 @ ellipsis @ slice_from a (- 4))"

section \<open>The portfolio page\<close>

record portfolio_view =
  pf_collateral :: number
  pf_free :: number
  pf_used :: number
  pf_notional :: number
  pf_pnl :: number
  pf_equity :: number

definition portfolio_view_of :: "positions_response option \<Rightarrow> portfolio_view" where
  "portfolio_view_of positions =
     (let usd = (\<lambda>f. case positions of None \<Rightarrow> Fin 0 | Some r \<Rightarrow> usdc6ToDollars (NStr (f r)));
          collateral = usd pr_collateralUsdc; free = usd pr_freeCollateralUsdc; pnl = usd pr_totalUnrealisedPnlUsdc
      in \<lparr>pf_collateral = collateral, pf_free = free, pf_used = collateral - free,
          pf_notional = usd pr_totalNotionalUsdc, pf_pnl = pnl, pf_equity = collateral + pnl\<rparr>)"

definition bar_pct :: "number \<Rightarrow> number \<Rightarrow> number" where
  "bar_pct value maxv = (if num_lt (Fin 0) maxv then num_min (Fin 100) (value / maxv * Fin 100) else Fin 0)"

definition margin_bars :: "positions_response option \<Rightarrow> balance_response option \<Rightarrow> (string \<times> number \<times> number) list" where
  "margin_bars positions balance =
     (let v = portfolio_view_of positions;
          wallet = (case balance of None \<Rightarrow> Fin 0 | Some b \<Rightarrow> usdc6ToDollars (NStr (br_walletUsdcBalance b)))
      in map (\<lambda>(label, x). (label, x, bar_pct x (pf_collateral v)))
           [(''Used margin'', pf_used v), (''Free collateral'', pf_free v), (''Wallet USDC'', wallet)])"

definition portfolio_stats :: "portfolio_view \<Rightarrow> (string \<times> string) list" where
  "portfolio_stats v = [(''Account equity'', NumberDisplay ''$'' [] (NNum (pf_equity v)) 2 False),
     (''Unrealised PnL'', NumberDisplay ''$'' [] (NNum (pf_pnl v)) 2 True),
     (''Free collateral'', NumberDisplay ''$'' [] (NNum (pf_free v)) 2 False),
     (''Total notional'', NumberDisplay ''$'' [] (NNum (pf_notional v)) 2 False)]"

definition portfolio_row :: "position \<Rightarrow> string list" where
  "portfolio_row p = [to_upper (market_id_str (ps_marketId p)), if ps_side p = Long then ''LONG'' else ''SHORT'',
     displayText (NStr (ps_size p)) 4 False,
     NumberDisplay ''$'' [] (NNum (usdc6ToDollars (NStr (ps_notionalUsdc p)))) 2 False,
     NumberDisplay ''$'' [] (NNum (x18ToDollars (NStr (ps_entryPriceX18 p)))) 2 False,
     NumberDisplay ''$'' [] (NNum (x18ToDollars (NStr (ps_markPriceX18 p)))) 2 False,
     NumberDisplay ''$'' [] (NNum (usdc6ToDollars (NStr (ps_unrealisedPnlUsdc p)))) 2 True,
     NumberDisplay ''$'' [] (NNum (x18ToDollars (NStr (ps_liquidationPriceX18 p)))) 2 False]"

definition portfolio_positions :: "bool \<Rightarrow> positions_response option \<Rightarrow> string list table" where
  "portfolio_positions isLoading positions =
     (if isLoading then LoadingRows 2
      else case positions of
          Some r \<Rightarrow> if pr_positions r = [] then EmptyState ''No open positions'' ''Trades you place will appear here as positions.''
            else Rows [''Market'', ''Side'', ''Size'', ''Notional'', ''Entry'', ''Mark'', ''PnL'', ''Liq.''] (map portfolio_row (pr_positions r))
        | None \<Rightarrow> EmptyState ''No open positions'' ''Trades you place will appear here as positions.'')"

section \<open>The history page\<close>

record history_row =
  hr_time :: "(js_error, string) result"
  hr_market :: string
  hr_side :: string
  hr_price :: string
  hr_size :: string
  hr_notional :: string
  hr_fee :: string
  hr_role :: string
  hr_tx :: string

definition history_row_of :: "(number \<Rightarrow> string) \<Rightarrow> fill \<Rightarrow> history_row" where
  "history_row_of locale f =
     \<lparr>hr_time = formatDateTime locale (fl_tsNs f), hr_market = to_upper (market_id_str (fl_marketId f)),
      hr_side = (if fl_side f = Buy then ''Buy'' else ''Sell''), hr_price = displayText (NStr (fl_price f)) 2 False,
      hr_size = displayText (NStr (fl_qty f)) 4 False,
      hr_notional = NumberDisplay ''$'' [] (NNum (to_number (fl_price f) * to_number (fl_qty f))) 2 False,
      hr_fee = NumberDisplay ''$'' [] (NNum (usdc6ToDollars (NStr (fl_feeUsdc f)))) 2 False,
      hr_role = fill_role_str (fl_role f), hr_tx = slice (fl_txHash f) 0 8 @ ellipsis\<rparr>"

definition transfer_row :: "(number \<Rightarrow> string) \<Rightarrow> pending_transfer \<Rightarrow> (js_error, string) result \<times> string \<times> string" where
  "transfer_row locale t = (formatDateTime locale (pt_tsNs t),
     NumberDisplay ''$'' [] (NNum (usdc6ToDollars (NStr (pt_amountUsdc t)))) 2 False, slice (pt_txHash t) 0 10 @ ellipsis)"

definition history_counts :: "fills_response option \<Rightarrow> balance_response option \<Rightarrow> nat list" where
  "history_counts fills balance =
     [case fills of None \<Rightarrow> 0 | Some r \<Rightarrow> length (fls_fills r),
      case balance of None \<Rightarrow> 0 | Some b \<Rightarrow> length (br_pendingDeposits b),
      case balance of None \<Rightarrow> 0 | Some b \<Rightarrow> length (br_pendingWithdrawals b), 0]"

datatype history_tab = HistFills | HistDeposits | HistWithdrawals | HistFunding

definition history_fills :: "(number \<Rightarrow> string) \<Rightarrow> fills_response option \<Rightarrow> history_row table" where
  "history_fills locale fills = (case fills of
       Some r \<Rightarrow> if 0 < length (fls_fills r)
         then Rows [''Time'', ''Market'', ''Side'', ''Price'', ''Size'', ''Notional'', ''Fee'', ''Role'', ''Tx''] (map (history_row_of locale) (fls_fills r))
         else EmptyState ''No fills yet'' ''Once you trade, your fills appear here.''
     | None \<Rightarrow> EmptyState ''No fills yet'' ''Once you trade, your fills appear here.'')"

definition TransferList :: "(number \<Rightarrow> string) \<Rightarrow> pending_transfer list \<Rightarrow> string \<Rightarrow> string \<Rightarrow> ((js_error, string) result \<times> string \<times> string) table" where
  "TransferList locale items emptyTitle emptyHint =
     (if items = [] then EmptyState emptyTitle emptyHint
      else Rows [''Time'', ''Amount'', ''Tx''] (map (transfer_row locale) items))"

definition history_transfers :: "(number \<Rightarrow> string) \<Rightarrow> history_tab \<Rightarrow> balance_response option \<Rightarrow> ((js_error, string) result \<times> string \<times> string) table option" where
  "history_transfers locale tab balance = (case tab of
       HistFills \<Rightarrow> None
     | HistDeposits \<Rightarrow> Some (TransferList locale (case balance of None \<Rightarrow> [] | Some b \<Rightarrow> br_pendingDeposits b)
         ''No deposits'' ''Deposits will appear here once submitted.'')
     | HistWithdrawals \<Rightarrow> Some (TransferList locale (case balance of None \<Rightarrow> [] | Some b \<Rightarrow> br_pendingWithdrawals b)
         ''No withdrawals'' ''Withdrawals will appear here once submitted.'')
     | HistFunding \<Rightarrow> Some (EmptyState ''No funding payments yet'' ''Funding is applied every 8h while you hold a position.''))"

section \<open>Toast timers\<close>

text \<open>
  The effect runs again whenever the list of toasts changes: the old timers are cleared and
  every toast gets a fresh one.
\<close>

definition toast_effect :: "nat \<Rightarrow> ui_state \<Rightarrow> (string \<times> nat) list" where
  "toast_effect now u = map (\<lambda>t. (ts_id t, now + 4500)) (ui_toasts u)"

definition AUTO_DISMISS_MS :: nat where "AUTO_DISMISS_MS = 2500"

definition celebration_effect :: "nat \<Rightarrow> ui_state \<Rightarrow> nat option" where
  "celebration_effect now u = map_option (\<lambda>c. now + AUTO_DISMISS_MS) (ui_celebration u)"

section \<open>Lemmas\<close>

subsection \<open>Legs of an order\<close>

text \<open>The pure step: what \<open>add_leg\<close> returns when both stamps can be read.\<close>

definition leg :: "fill_group \<Rightarrow> fill \<Rightarrow> fill_group" where
  "leg g f = g\<lparr>fg_qty := fg_qty g + to_number (fl_qty f),
     fg_notional := fg_notional g + to_number (fl_qty f) * to_number (fl_price f),
     fg_fee := fg_fee g + to_number (fl_feeUsdc f),
     fg_tsNs := (if ts_val (fl_tsNs f) < ts_val (fg_tsNs g) then fl_tsNs f else fg_tsNs g), fg_legs := fg_legs g + 1\<rparr>"

lemma add_leg_readable: "ts_readable (fl_tsNs f) \<Longrightarrow> ts_readable (fg_tsNs g) \<Longrightarrow> add_leg g f = Return (leg g f)"
  by (auto simp: add_leg_def ts_less_def leg_def ts_readable_def ts_val_def split: sum.splits)

lemma leg_readable: "ts_readable (fl_tsNs f) \<Longrightarrow> ts_readable (fg_tsNs g) \<Longrightarrow> ts_readable (fg_tsNs (leg g f))"
  by (simp add: leg_def)

lemma legs_fields:
  "fg_legs (foldl leg g fs) = fg_legs g + length fs"
  "fg_qty (foldl leg g fs) = foldl (+) (fg_qty g) (map (\<lambda>f. to_number (fl_qty f)) fs)"
  "fg_notional (foldl leg g fs) = foldl (+) (fg_notional g) (map (\<lambda>f. to_number (fl_qty f) * to_number (fl_price f)) fs)"
  "fg_fee (foldl leg g fs) = foldl (+) (fg_fee g) (map (\<lambda>f. to_number (fl_feeUsdc f)) fs)"
  "fg_orderId (foldl leg g fs) = fg_orderId g" "fg_id (foldl leg g fs) = fg_id g"
  "fg_marketId (foldl leg g fs) = fg_marketId g" "fg_side (foldl leg g fs) = fg_side g" "fg_role (foldl leg g fs) = fg_role g"
  by (induction fs arbitrary: g) (simp_all add: leg_def)

lemma legs_earliest:
  "ts_val (fg_tsNs (foldl leg g fs)) = Min (insert (ts_val (fg_tsNs g)) ((\<lambda>f. ts_val (fl_tsNs f)) ` set fs))"
proof (induction fs arbitrary: g)
  case (Cons f fs)
  have "ts_val (fg_tsNs (leg g f)) = min (ts_val (fg_tsNs g)) (ts_val (fl_tsNs f))" by (simp add: leg_def min_def)
  then show ?case using Cons.IH [of "leg g f"] by (cases "fs = []") (simp_all add: min.assoc)
qed simp

definition legs_into :: "fill_group option \<Rightarrow> fill list \<Rightarrow> fill_group option" where
  "legs_into g fs = foldl (\<lambda>g f. Some (case g of None \<Rightarrow> first_leg f | Some h \<Rightarrow> leg h f)) g fs"

lemma legs_into_Some: "legs_into (Some g) fs = Some (foldl leg g fs)"
  by (induction fs arbitrary: g) (simp_all add: legs_into_def)

lemma legs_into_None: "legs_into None fs = (case fs of [] \<Rightarrow> None | f # r \<Rightarrow> Some (foldl leg (first_leg f) r))"
  using legs_into_Some by (cases fs) (simp_all add: legs_into_def)

subsection \<open>One pass over the fills\<close>

definition groups_ok :: "(string, fill_group) jmap \<Rightarrow> bool" where
  "groups_ok m = (map_wf m \<and> (\<forall>(k, g)\<in>set m. ts_readable (fg_tsNs g)))"

lemma groups_ok_set: "groups_ok m \<Longrightarrow> ts_readable (fg_tsNs g) \<Longrightarrow> groups_ok (mset_key m k g)"
  by (auto simp: groups_ok_def dest!: mset_key_mem)

lemma groups_ok_get: "groups_ok m \<Longrightarrow> mget m k = Some g \<Longrightarrow> ts_readable (fg_tsNs g)"
  by (auto simp: groups_ok_def mget_mem)

text \<open>The map after the loop holds, for each order, its fills folded in their order of arrival.\<close>

lemma group_fills_get:
  "\<forall>f\<in>set fs. ts_readable (fl_tsNs f) \<Longrightarrow> groups_ok m \<Longrightarrow>
   \<exists>m'. group_fills m fs = Return m' \<and> groups_ok m' \<and>
     (\<forall>k. mget m' k = legs_into (mget m k) (filter (\<lambda>f. fl_orderId f = k) fs))"
proof (induction fs arbitrary: m)
  case Nil
  then show ?case by (simp add: legs_into_def)
next
  case (Cons f fs)
  define g where "g = (case mget m (fl_orderId f) of None \<Rightarrow> first_leg f | Some h \<Rightarrow> leg h f)"
  have f: "ts_readable (fl_tsNs f)" using Cons.prems by simp
  have r: "ts_readable (fg_tsNs g)"
    using f groups_ok_get [OF Cons.prems(2)] by (auto simp: g_def first_leg_def leg_readable split: option.split)
  have step: "group_fills m (f # fs) = group_fills (mset_key m (fl_orderId f) g) fs"
    using add_leg_readable [OF f groups_ok_get [OF Cons.prems(2)]]
    by (cases "mget m (fl_orderId f)") (simp_all add: g_def del: mget_None_iff)
  obtain m' where m': "group_fills (mset_key m (fl_orderId f) g) fs = Return m'" "groups_ok m'"
    "\<forall>k. mget m' k = legs_into (mget (mset_key m (fl_orderId f) g) k) (filter (\<lambda>f. fl_orderId f = k) fs)"
    using Cons.IH [OF _ groups_ok_set [OF Cons.prems(2) r], of "fl_orderId f"] Cons.prems(1) by auto
  have "\<forall>k. mget m' k = legs_into (mget m k) (filter (\<lambda>f. fl_orderId f = k) (f # fs))"
    using m'(3) by (simp add: legs_into_def g_def)
  then show ?case using m' step by simp
qed

lemma newer_first_orders: "orders newer_first (\<lambda>g. - of_int (ts_val (fg_tsNs g))) A"
  by (simp add: orders_def newer_first_def)

text \<open>A row and the fills it stands for.\<close>

definition row_sums :: "fill_group \<Rightarrow> fill list \<Rightarrow> bool" where
  "row_sums r legs = (legs \<noteq> [] \<and> fg_legs r = length legs \<and> fg_id r = fl_id (hd legs) \<and> fg_side r = fl_side (hd legs) \<and>
     fg_qty r = foldl (+) (to_number (fl_qty (hd legs))) (map (\<lambda>f. to_number (fl_qty f)) (tl legs)) \<and>
     fg_notional r = foldl (+) (to_number (fl_qty (hd legs)) * to_number (fl_price (hd legs)))
       (map (\<lambda>f. to_number (fl_qty f) * to_number (fl_price f)) (tl legs)) \<and>
     fg_fee r = foldl (+) (to_number (fl_feeUsdc (hd legs))) (map (\<lambda>f. to_number (fl_feeUsdc f)) (tl legs)) \<and>
     ts_val (fg_tsNs r) = Min ((\<lambda>f. ts_val (fl_tsNs f)) ` set legs))"

lemma row_sums_fold: "row_sums (foldl leg (first_leg f) fs) (f # fs)"
  unfolding row_sums_def legs_fields legs_earliest by (simp add: first_leg_def)

lemma group_entry:
  assumes "groups_ok m" "\<forall>k. mget m k = legs_into None (filter (\<lambda>f. fl_orderId f = k) fills)" "(k, g) \<in> set m"
  shows "fg_orderId g = k \<and> row_sums g (filter (\<lambda>f. fl_orderId f = k) fills)"
proof -
  have "mget m k = Some g" using assms(1,3) by (simp add: groups_ok_def mget_mem)
  then have "legs_into None (filter (\<lambda>f. fl_orderId f = k) fills) = Some g" using assms(2) by simp
  then obtain f fs where *: "filter (\<lambda>f. fl_orderId f = k) fills = f # fs" "g = foldl leg (first_leg f) fs"
    by (auto simp: legs_into_None split: list.splits)
  then have "f \<in> set (filter (\<lambda>f. fl_orderId f = k) fills)" by simp
  then have "fg_orderId (first_leg f) = k" by (simp add: first_leg_def)
  then show ?thesis unfolding * by (simp add: legs_fields row_sums_fold)
qed

lemma group_ids:
  assumes "\<forall>k. mget m k = legs_into None (filter (\<lambda>f. fl_orderId f = k) fills)"
  shows "fst ` set m = fl_orderId ` set fills"
proof -
  have "k \<in> fst ` set m \<longleftrightarrow> k \<in> fl_orderId ` set fills" for k
  proof -
    have "k \<in> fst ` set m \<longleftrightarrow> legs_into None (filter (\<lambda>f. fl_orderId f = k) fills) \<noteq> None"
      using assms mget_None_iff [of m k] by metis
    also have "\<dots> \<longleftrightarrow> filter (\<lambda>f. fl_orderId f = k) fills \<noteq> []" by (simp add: legs_into_None split: list.split)
    also have "\<dots> \<longleftrightarrow> k \<in> fl_orderId ` set fills" by (auto simp: filter_empty_conv)
    finally show ?thesis .
  qed
  then show ?thesis by blast
qed

section \<open>Properties\<close>

text \<open>
  C23. Fills are shown grouped by order, one row per order: when every stamp can be read, the
  one-pass \<open>Map\<close> algorithm returns rows whose order ids are exactly those of the fills, without
  duplicates. Each row carries (\<open>row_sums\<close>) the number of its fills, the rounded sums of size,
  notional and fee in order of arrival, the identity of the first fill and the earliest stamp,
  and the rows are sorted newest first.
\<close>

theorem fills_are_grouped_by_order:
  assumes "\<forall>f\<in>set fills. ts_readable (fl_tsNs f)"
  shows "\<exists>rows. aggregateFills fills = Return rows \<and>
    distinct (map fg_orderId rows) \<and> set (map fg_orderId rows) = set (map fl_orderId fills) \<and>
    sorted_wrt (\<lambda>a b. ts_val (fg_tsNs a) \<ge> ts_val (fg_tsNs b)) rows \<and>
    (\<forall>r\<in>set rows. row_sums r (filter (\<lambda>f. fl_orderId f = fg_orderId r) fills))"
proof -
  have "groups_ok []" by (simp add: groups_ok_def)
  from group_fills_get [OF assms this] obtain m where m: "group_fills [] fills = Return m" "groups_ok m"
    and get: "\<forall>k. mget m k = legs_into None (filter (\<lambda>f. fl_orderId f = k) fills)" by auto
  let ?rows = "sort_by newer_first (mvalues m)"
  note entry = group_entry [OF m(2) get]
  have ids: "map fg_orderId (mvalues m) = map fst m" using entry by (auto simp: mvalues_def)
  have "set (map fg_orderId ?rows) = set (map fg_orderId (mvalues m))" by simp
  also have "\<dots> = set (map fl_orderId fills)" unfolding ids using group_ids [OF get] by simp
  finally have set_ids: "set (map fg_orderId ?rows) = set (map fl_orderId fills)" .
  have "mset (map fg_orderId ?rows) = mset (map fst m)" unfolding ids [symmetric] mset_map by simp
  then have dist: "distinct (map fg_orderId ?rows)"
    using mset_eq_imp_distinct_iff m(2) unfolding groups_ok_def map_wf_def by blast
  have "sorted (map (\<lambda>g. - of_int (ts_val (fg_tsNs g)) :: rat) ?rows)" by (rule sorted_sort_by [OF newer_first_orders])
  then have sorted: "sorted_wrt (\<lambda>a b. ts_val (fg_tsNs a) \<ge> ts_val (fg_tsNs b)) ?rows" by (simp add: sorted_map)
  have rows: "\<forall>r\<in>set ?rows. row_sums r (filter (\<lambda>f. fl_orderId f = fg_orderId r) fills)"
    using entry by (fastforce simp: mvalues_def)
  have "list_all (\<lambda>g. ts_readable (fg_tsNs g)) (mvalues m)"
    using m(2) by (auto simp: groups_ok_def mvalues_def list_all_iff)
  then have "aggregateFills fills = Return ?rows" by (simp add: aggregateFills_def m(1) Let_def)
  then show ?thesis using dist set_ids sorted rows by blast
qed

text \<open>Two fills of one order around a fill of another.\<close>

definition demo_fill :: "string \<Rightarrow> string \<Rightarrow> string \<Rightarrow> fill" where
  "demo_fill fid oid ts = \<lparr>fl_id = fid, fl_orderId = oid, fl_marketId = BtcUsd, fl_side = Buy, fl_price = ''100'', fl_qty = ''1'',
     fl_feeUsdc = ''0'', fl_role = Taker, fl_tsNs = ts, fl_txHash = ''0x''\<rparr>"

theorem fills_are_grouped_by_order_witness:
  "\<exists>rows. aggregateFills [demo_fill ''f1'' ''a'' ''7'', demo_fill ''f2'' ''b'' ''8'', demo_fill ''f3'' ''a'' ''9''] = Return rows \<and>
    set (map fg_orderId rows) = {''a'', ''b''} \<and> (\<forall>r\<in>set rows. fg_orderId r = ''b'' \<or> fg_legs r = 2)"
proof -
  let ?fs = "[demo_fill ''f1'' ''a'' ''7'', demo_fill ''f2'' ''b'' ''8'', demo_fill ''f3'' ''a'' ''9'']"
  have "ts_readable ''7''" "ts_readable ''8''" "ts_readable ''9''" by code_simp+
  then have "\<forall>f\<in>set ?fs. ts_readable (fl_tsNs f)" by (simp add: demo_fill_def)
  from fills_are_grouped_by_order [OF this] obtain rows where r: "aggregateFills ?fs = Return rows"
    "set (map fg_orderId rows) = set (map fl_orderId ?fs)"
    "\<forall>r\<in>set rows. row_sums r (filter (\<lambda>f. fl_orderId f = fg_orderId r) ?fs)" by blast
  have "fg_orderId x = ''b'' \<or> fg_legs x = 2" if "x \<in> set rows" for x
  proof -
    have "fg_orderId x \<in> set (map fl_orderId ?fs)" using that r(2) by (metis imageI set_map)
    then have "fg_orderId x = ''a'' \<or> fg_orderId x = ''b''" by (auto simp: demo_fill_def)
    moreover have "row_sums x (filter (\<lambda>f. fl_orderId f = fg_orderId x) ?fs)" using r(3) that by blast
    ultimately show ?thesis by (auto simp: row_sums_def demo_fill_def)
  qed
  then show ?thesis using r(1,2) by (auto simp: demo_fill_def)
qed

text \<open>
  The wallet page takes a negative amount: with a readable balance that is not negative, any
  text that reads as a negative number leaves the submit button enabled, and submitting it
  reports a deposit or withdrawal of that negative sum as submitted. Nothing but the toast and
  the form changes: no transfer is started on any input.
\<close>

theorem wallet_accepts_a_negative_amount:
  assumes "to_number (wp_amount w) = Fin x" "x < 0" "num_le (Fin 0) (wv_source (wallet_view_of balance w))"
  shows "\<not> wv_disabled (wallet_view_of balance w) \<and>
    wallet_submit suffix balance w u =
      (w\<lparr>wp_submitting := False, wp_amount := []\<rparr>,
       pushToast suffix Success (if wp_mode w = Deposit then ''Deposit submitted'' else ''Withdrawal submitted'')
         (Some (to_fixed (Fin x) 2 @ '' USDC '' @ middle_dot @ '' pending confirmation'')) u)"
proof -
  have t: "truthy (Fin x)" using assms(2) by (simp add: truthy_def)
  have amt: "wv_amt (wallet_view_of balance w) = Fin x" using assms(1) t by (simp add: wallet_view_of_def Let_def)
  have "wv_disabled (wallet_view_of balance w) = (\<not> truthy (Fin x) \<or> num_lt (wv_source (wallet_view_of balance w)) (Fin x))"
    using assms(1) t by (simp add: wallet_view_of_def Let_def)
  moreover have "\<not> num_lt (wv_source (wallet_view_of balance w)) (Fin x)"
    using assms(2,3) by (cases "wv_source (wallet_view_of balance w)") auto
  ultimately show ?thesis using t amt by (simp add: wallet_submit_def Let_def)
qed

theorem wallet_accepts_a_negative_amount_witness:
  "to_number ''-5'' = Fin (- 5) \<and>
   \<not> wv_disabled (wallet_view_of None \<lparr>wp_mode = Deposit, wp_amount = ''-5'', wp_submitting = False\<rparr>)"
proof -
  have n: "to_number ''-5'' = Fin (- 5)"
    using to_number_minus [of "''5''"] flo_of_int [of "- 5"] by (simp add: read_literal)
  then show ?thesis
    using wallet_accepts_a_negative_amount [of "\<lparr>wp_mode = Deposit, wp_amount = ''-5'', wp_submitting = False\<rparr>" "- 5" None]
    by (simp add: wallet_view_of_def Let_def)
qed

text \<open>Every new toast restarts the timers of all the others.\<close>

lemma toast_postponed:
  "t \<in> set (ui_toasts u) \<Longrightarrow> (ts_id t, now + 4500) \<in> set (toast_effect now (pushToast suffix k title body u))"
  by (auto simp: toast_effect_def pushToast_def)

end
