(* ===== verification/Shell.thy ===== *)
theory Shell
  imports Session MarketPanels Portfolio Sim "HOL-Library.Word"
begin

text \<open>
  The application shell: the markets page (\<^verbatim>\<open>app/(app)/markets/page.tsx\<close>), the wallet button and
  its automatic sign-in prompt (\<^verbatim>\<open>components/layout/WalletButton.tsx\<close>), the market switcher and
  the navigation bar, the trade layout (\<^verbatim>\<open>components/trade/TradeLayout.tsx\<close>), the theme switch,
  the boot sequence of \<^verbatim>\<open>app/providers.tsx\<close> and the chain configuration of
  \<^verbatim>\<open>lib/wallet/wagmi-config.ts\<close> and \<^verbatim>\<open>lib/contracts/addresses.ts\<close>.
\<close>

section \<open>The markets page\<close>

text \<open>\<open>>>> 0\<close> after \<open>h * 31 + code\<close>: the sum is exact below \<open>2 ^ 53\<close>, so the hash works modulo \<open>2 ^ 32\<close>.\<close>

definition hashBase :: "market \<Rightarrow> 32 word" where
  "hashBase m = foldl (\<lambda>h c. h * 31 + of_nat (of_char c)) 0 (mk_base m)"

definition pseudoChange :: "market \<Rightarrow> number" where
  "pseudoChange m = (num_rem (Fin (of_int (uint (hashBase m)))) (Fin 1601) - Fin 800) / Fin 100"

datatype sort_key = ByVolume | ByChange | ByName

text \<open>\<open>localeCompare\<close> belongs to the host: \<open>lc a b\<close> is its answer.\<close>

definition market_order :: "(string \<Rightarrow> string \<Rightarrow> number) \<Rightarrow> sort_key \<Rightarrow> market \<Rightarrow> market \<Rightarrow> number" where
  "market_order lc k a b = (case k of
       ByName \<Rightarrow> lc (mk_base a) (mk_base b)
     | ByVolume \<Rightarrow> to_number (case mk_volume24hUsdc b of Some v \<Rightarrow> v | None \<Rightarrow> ''0'')
                   - to_number (case mk_volume24hUsdc a of Some v \<Rightarrow> v | None \<Rightarrow> ''0'')
     | ByChange \<Rightarrow> pseudoChange b - pseudoChange a)"

definition shown_markets :: "(string \<Rightarrow> string \<Rightarrow> number) \<Rightarrow> market list option \<Rightarrow> string \<Rightarrow> sort_key \<Rightarrow> market list" where
  "shown_markets lc data query k =
     (let xs = (case data of None \<Rightarrow> [] | Some ms \<Rightarrow> ms);
          filtered = (if query = [] then xs else filter (\<lambda>m. has_infix (to_lower query) (to_lower (mk_base m))) xs)
      in sort_by (market_order lc k) filtered)"

definition total_volume :: "market list option \<Rightarrow> number" where
  "total_volume data = foldl (\<lambda>s m. s + usdc_or_zero (mk_volume24hUsdc m)) (Fin 0) (case data of None \<Rightarrow> [] | Some ms \<Rightarrow> ms)"

definition total_open_interest :: "market list option \<Rightarrow> number" where
  "total_open_interest data = foldl (\<lambda>s m. s + usdc_or_zero (mk_openInterestUsdc m)) (Fin 0) (case data of None \<Rightarrow> [] | Some ms \<Rightarrow> ms)"

text \<open>\<open>Intl.NumberFormat\<close> is the host's: \<open>intl\<close>.\<close>

definition fmtCompactUsd :: "(number \<Rightarrow> string) \<Rightarrow> number \<Rightarrow> string" where
  "fmtCompactUsd intl n = (if \<not> is_finite n \<or> num_eq n (Fin 0) then ''$0'' else ''$'' @ intl n)"

text \<open>The multiplication sign and the middle dot of the labels, in UTF-8.\<close>

definition times_sign :: string where
  "times_sign = [CHR 0xC3, CHR 0x97]"

definition sign_class :: "number \<Rightarrow> string" where
  "sign_class x = (if num_le (Fin 0) x then ''text-long'' else ''text-short'')"

definition funding_label :: "number option \<Rightarrow> string" where
  "funding_label p = (case p of None \<Rightarrow> dash | Some x \<Rightarrow> to_fixed x 4 @ ''%'')"

record market_row =
  mw_href :: string
  mw_title :: string
  mw_sub :: string
  mw_price :: string
  mw_change :: string
  mw_changeColor :: string
  mw_volume :: string
  mw_funding :: string
  mw_fundingClass :: string
  mw_leverage :: string

definition market_row_of :: "ws_oracle option \<Rightarrow> ws_funding option \<Rightarrow> market \<Rightarrow> market_row" where
  "market_row_of oracle funding m =
     (let price = (case oracle of None \<Rightarrow> NNull | Some o' \<Rightarrow> NNum (x18ToDollars (NStr (wo_priceX18 o'))));
          fundingBps = (case funding of Some f \<Rightarrow> Some (wf_currentRateBps f) | None \<Rightarrow> mk_fundingRateBps m);
          fundingPct = map_option (\<lambda>b. b / Fin 100) fundingBps;
          change = pseudoChange m;
          volume = usdc_or_zero (mk_volume24hUsdc m)
      in \<lparr>mw_href = ''/trade/'' @ market_id_str (mk_id m), mw_title = mk_base m @ ''-PERP'',
          mw_sub = ''Cross-margin '' @ middle_dot @ '' Tick '' @ mk_tickSize m,
          mw_price = NumberDisplay ''$'' [] price 2 False, mw_change = NumberDisplay [] ''%'' (NNum change) 2 True,
          mw_changeColor = displayColor (NNum change) True, mw_volume = NumberDisplay ''$'' [] (NNum volume) 0 False,
          mw_funding = funding_label fundingPct,
          mw_fundingClass = sign_class (case fundingPct of None \<Rightarrow> Fin 0 | Some p \<Rightarrow> p),
          mw_leverage = num_str (mk_maxLeverage m) @ times_sign\<rparr>)"

text \<open>
  The featured card takes its funding rate from the stream only. \<open>intl2\<close> is
  \<open>toLocaleString\<close> with two fraction digits.
\<close>

record featured_card =
  fc_href :: string
  fc_title :: string
  fc_pair :: string
  fc_leverage :: string
  fc_price :: string
  fc_change :: string
  fc_positive :: bool
  fc_funding :: string
  fc_fundingClass :: string
  fc_anchor :: number

definition featured_card_of :: "(number \<Rightarrow> string) \<Rightarrow> ws_oracle option \<Rightarrow> ws_funding option \<Rightarrow> market \<Rightarrow> featured_card" where
  "featured_card_of intl2 oracle funding m =
     (let price = map_option (\<lambda>o'. x18ToDollars (NStr (wo_priceX18 o'))) oracle;
          change = pseudoChange m;
          fundingPct = map_option (\<lambda>f. wf_currentRateBps f / Fin 100) funding;
          positive = num_le (Fin 0) change
      in \<lparr>fc_href = ''/trade/'' @ market_id_str (mk_id m), fc_title = mk_base m @ ''-PERP'', fc_pair = mk_base m @ ''/USDC'',
          fc_leverage = ''up to '' @ num_str (mk_maxLeverage m) @ times_sign,
          fc_price = (case price of None \<Rightarrow> dash | Some p \<Rightarrow> ''$'' @ intl2 p),
          fc_change = (if positive then ''+'' else []) @ to_fixed change 2 @ ''%'', fc_positive = positive,
          fc_funding = funding_label fundingPct,
          fc_fundingClass = sign_class (case fundingPct of None \<Rightarrow> Fin 0 | Some p \<Rightarrow> p),
          fc_anchor = (case price of None \<Rightarrow> Fin 100 | Some p \<Rightarrow> p)\<rparr>)"

text \<open>
  The page: its three figures, the featured markets, and the sections of the table card in
  their order. \<open>mq_error\<close> is the message shown when the query failed.
\<close>

record markets_query =
  mq_data :: "market list option"
  mq_isLoading :: bool
  mq_error :: "string option"

datatype card_part = PartError string string | PartLoading nat | PartRow market | PartNoMatch string

record markets_page =
  mp_stats :: "(string \<times> string \<times> string) list"
  mp_featured :: "market list"
  mp_card :: "card_part list"

definition MarketsPage :: "(string \<Rightarrow> string \<Rightarrow> number) \<Rightarrow> (number \<Rightarrow> string) \<Rightarrow> string \<Rightarrow> markets_query \<Rightarrow> string \<Rightarrow> sort_key \<Rightarrow> markets_page" where
  "MarketsPage lc intl api_base mq query k =
     (let markets = shown_markets lc (mq_data mq) query k
      in \<lparr>mp_stats = [(''Trading volume'', ''24h'', fmtCompactUsd intl (total_volume (mq_data mq))),
            (''Open interest'', ''current'', fmtCompactUsd intl (total_open_interest (mq_data mq))),
            (''Fees generated'', ''24h'', ''$3,279.51'')],
          mp_featured = take 3 markets,
          mp_card = (case mq_error mq of Some e \<Rightarrow> [PartError ''Failed to load markets''
                (e @ '' '' @ dash @ '' GET '' @ api_base @ ''/v1/markets. Is perplex-edge running and reachable from the browser?'')] | None \<Rightarrow> []) @
            (if mq_isLoading mq then [PartLoading 3] else []) @ map PartRow markets @
            (if \<not> mq_isLoading mq \<and> markets = [] then [PartNoMatch query] else [])\<rparr>)"

record category =
  ca_label :: string
  ca_active :: bool
  ca_badge :: "string option"
  ca_soon :: bool

definition CATS :: "category list" where
  "CATS = map (\<lambda>(l, a, b, s). \<lparr>ca_label = l, ca_active = a, ca_badge = b, ca_soon = s\<rparr>)
     [(''All'', True, Some ''3'', False), (''Crypto'', False, Some ''3'', False), (''Layer 1'', False, Some ''2'', False),
      (''Layer 2'', False, Some ''1'', False), (''Forex'', False, None, True), (''RWA'', False, None, True), (''Gaming'', False, None, True)]"

definition stat_color :: "string \<Rightarrow> string" where
  "stat_color tone = (if tone = ''accent'' then ''text-accent'' else if tone = ''long'' then ''text-long'' else ''text-fg'')"

subsection \<open>The sparkline\<close>

text \<open>\<open>Math.sin\<close> is a parameter; \<open>rnd i\<close> is the draw of step \<open>i\<close>.\<close>

fun spark_seed :: "(number \<Rightarrow> number) \<Rightarrow> (nat \<Rightarrow> number) \<Rightarrow> number \<Rightarrow> number \<Rightarrow> nat \<Rightarrow> nat \<Rightarrow> number \<Rightarrow> number list" where
  "spark_seed msin rnd anchor seedNum i 0 v = []"
| "spark_seed msin rnd anchor seedNum i (Suc n) v =
     (let w = v + (msin (Fin (of_nat i) * lit (7/10) + seedNum) + rnd i * lit (4/10) - lit (2/10)) * (anchor * lit (3/1000))
      in w # spark_seed msin rnd anchor seedNum (Suc i) n w)"

definition char_code :: "string \<Rightarrow> int \<Rightarrow> number" where
  "char_code s i = (if 0 \<le> i \<and> i < int (length s) then Fin (of_nat (of_char (s ! nat i))) else NaN)"

definition seed_series :: "(number \<Rightarrow> number) \<Rightarrow> (nat \<Rightarrow> number) \<Rightarrow> number \<Rightarrow> nat \<Rightarrow> string \<Rightarrow> number list" where
  "seed_series msin rnd anchor n salt =
     spark_seed msin rnd anchor (char_code salt 0 + char_code salt (int (length salt) - 1)) 0 n anchor"

definition spark_tick :: "number \<Rightarrow> number \<Rightarrow> number list \<Rightarrow> number list" where
  "spark_tick anchor rnd prev =
     (let lst = (if prev = [] then NaN else last prev)
      in drop 1 prev @ [lst + (rnd - Fin (1/2)) * (anchor * lit (1/1000))])"

definition spark_min :: "number list \<Rightarrow> number" where
  "spark_min points = foldl num_min PInf points"

definition spark_max :: "number list \<Rightarrow> number" where
  "spark_max points = foldl num_max MInf points"

definition spark_point :: "number list \<Rightarrow> nat \<Rightarrow> string" where
  "spark_point points i =
     (let mn = spark_min points; mx = spark_max points; span = num_max (Fin 1) (mx - mn); v = points ! i;
          sx = Fin (of_nat i) / Fin (of_int (int (length points) - 1)) * Fin 240;
          sy = Fin 56 - Fin 4 - (v - mn) / span * (Fin 56 - Fin 8)
      in (if i = 0 then ''M'' else ''L'') @ to_fixed sx 1 @ '','' @ to_fixed sy 1)"

fun join_space :: "string list \<Rightarrow> string" where
  "join_space [] = []"
| "join_space [s] = s"
| "join_space (s # ss) = s @ '' '' @ join_space ss"

definition spark_path :: "number list \<Rightarrow> string" where
  "spark_path points = join_space (map (spark_point points) [0..<length points])"

definition spark_area :: "number list \<Rightarrow> string" where
  "spark_area points = spark_path points @ '' L 240,56 L 0,56 Z''"

section \<open>The wallet button\<close>

definition CHAIN_LABEL :: "int \<Rightarrow> string option" where
  "CHAIN_LABEL c = map_of [(1, ''Ethereum''), (42161, ''Arbitrum''), (421614, ''Arb Sepolia''), (31337, ''Anvil'')] c"

definition chain_text :: "int \<Rightarrow> string" where
  "chain_text c = (case CHAIN_LABEL c of Some l \<Rightarrow> l | None \<Rightarrow> int_str c)"

text \<open>What a render of the button hands to its effect.\<close>

record wallet_render =
  wr_connected :: bool
  wr_address :: "string option"
  wr_hasJwt :: bool
  wr_isSigning :: bool

text \<open>The prompt effect: the new \<open>promptedForRef\<close> and whether \<open>signIn\<close> is called.\<close>

definition prompt_effect :: "wallet_render \<Rightarrow> string option \<Rightarrow> string option \<times> bool" where
  "prompt_effect r prompted = (case wr_address r of
       Some (a # as) \<Rightarrow>
         if \<not> wr_connected r then (None, False)
         else if wr_hasJwt r \<or> wr_isSigning r then (prompted, False)
         else if prompted = Some (a # as) then (prompted, False)
         else (Some (a # as), True)
     | _ \<Rightarrow> (None, False))"

text \<open>The prompts of a sequence of effect runs, with the address each was for.\<close>

fun prompts :: "wallet_render list \<Rightarrow> string option \<Rightarrow> string list" where
  "prompts [] prompted = []"
| "prompts (r # rs) prompted = (let (p, call) = prompt_effect r prompted
     in (if call then [case wr_address r of Some a \<Rightarrow> a | None \<Rightarrow> []] else []) @ prompts rs p)"

text \<open>
  The menu of the button: what each click does to its open flag, to the session and to the
  wallet library. Disconnecting signs out before the wallet is released.
\<close>

datatype wallet_click = ToggleMenu | Backdrop | CopyAddress | SignInClick | DisconnectClick | ChooseConnector string

datatype wallet_effect = WriteClipboard string | CallSignIn | WalletDisconnect | WalletConnectWith string

definition wallet_click_step :: "string \<Rightarrow> wallet_click \<Rightarrow> bool \<times> browser \<Rightarrow> (bool \<times> browser) \<times> wallet_effect list" where
  "wallet_click_step address ev s = (case s of (opened, b) \<Rightarrow> (case ev of
       ToggleMenu \<Rightarrow> ((\<not> opened, b), [])
     | Backdrop \<Rightarrow> ((False, b), [])
     | CopyAddress \<Rightarrow> ((False, b), [WriteClipboard address])
     | SignInClick \<Rightarrow> ((False, b), [CallSignIn])
     | DisconnectClick \<Rightarrow> ((False, signOut b), [WalletDisconnect])
     | ChooseConnector c \<Rightarrow> ((False, b), [WalletConnectWith c])))"

definition menu_items :: "wallet_render \<Rightarrow> string list" where
  "menu_items r = [''Copy address'', ''View on Arbiscan''] @
     (if wr_hasJwt r then [] else [if wr_isSigning r then ''Signing in'' @ ellipsis else ''Sign in (SIWE)'']) @ [''Disconnect'']"

text \<open>\<open>parseInt(s, 16)\<close>: white space, a sign and a \<open>0x\<close> prefix are skipped, the digits read as far as they go.\<close>

definition parseInt16 :: "string \<Rightarrow> number" where
  "parseInt16 s = (let (neg, u) = signed_part (dropWhile is_space s);
       v = (case u of z # x # r \<Rightarrow> if z = CHR ''0'' \<and> (x = CHR ''x'' \<or> x = CHR ''X'') then r else u | _ \<Rightarrow> u)
     in case radix_val 16 (takeWhile (\<lambda>c. radix_digit c < 16) v) of None \<Rightarrow> NaN
        | Some n \<Rightarrow> num_of_int (if neg then - n else n))"

definition avatarGradient :: "string \<Rightarrow> string" where
  "avatarGradient addr = (let h = parseInt16 (JsString.slice addr 2 8); a = num_rem h (Fin 360); b = num_rem (a + Fin 60) (Fin 360)
     in ''linear-gradient(135deg, hsl('' @ num_str a @ '',85%,60%) 0%, hsl('' @ num_str b @ '',90%,50%) 100%)'')"

definition wallet_addr :: "string \<Rightarrow> string" where
  "wallet_addr a = JsString.slice a 0 6 @ ellipsis @ slice_from a (- 4)"

definition connect_label :: "bool \<Rightarrow> string" where
  "connect_label isPending = (if isPending then ''Connecting'' @ ellipsis else ''Connect wallet'')"

definition arbiscan_link :: "string \<Rightarrow> string" where
  "arbiscan_link address = ''https://arbiscan.io/address/'' @ address"

definition ConnectorIcon :: "string \<Rightarrow> string \<times> string" where
  "ConnectorIcon name = (let lower = to_lower name; has = (\<lambda>w. has_infix w lower) in
     if has ''metamask'' then (''#f6851b'', ''M'') else if has ''walletconnect'' then (''#3b99fc'', ''W'')
     else if has ''coinbase'' then (''#0052ff'', ''C'') else if has ''rabby'' then (''#7084ff'', ''R'')
     else if has ''safe'' then (''#12ff80'', ''S'') else if has ''injected'' then (''#9ca3af'', [CHR 0xE2, CHR 0x8C, CHR 0xAC])
     else (''#5e35b1'', take 1 name))"

section \<open>Switcher, navigation and layout\<close>

fun BASE_LABEL :: "market_id \<Rightarrow> string" where
  "BASE_LABEL BtcUsd = ''BTC''"
| "BASE_LABEL EthUsd = ''ETH''"
| "BASE_LABEL SolUsd = ''SOL''"

text \<open>Choosing a market: the store, the closed menu and the route.\<close>

definition switch_market :: "market_id \<Rightarrow> ui_state \<Rightarrow> ui_state \<times> bool \<times> string" where
  "switch_market m u = (setSelectedMarket m u, False, ''/trade/'' @ market_id_str m)"

record switcher_row =
  sr_market :: market_id
  sr_selected :: bool
  sr_title :: string
  sr_price :: string

definition switcher_rows :: "(market_id \<Rightarrow> ws_oracle option) \<Rightarrow> market list option \<Rightarrow> market_id \<Rightarrow> switcher_row list" where
  "switcher_rows oracle data mid = map (\<lambda>m. \<lparr>sr_market = mk_id m, sr_selected = (mk_id m = mid), sr_title = BASE_LABEL (mk_id m) @ ''-PERP'',
     sr_price = NumberDisplay ''$'' [] (case oracle (mk_id m) of None \<Rightarrow> NNull | Some o' \<Rightarrow> NNum (x18ToDollars (NStr (wo_priceX18 o')))) 2 False\<rparr>)
     (case data of None \<Rightarrow> [] | Some ms \<Rightarrow> ms)"

definition NAV :: "(string \<times> string) list" where
  "NAV = [(''/trade'', ''Trade''), (''/markets'', ''Markets''), (''/portfolio'', ''Portfolio''), (''/history'', ''History''), (''/wallet'', ''Wallet'')]"

definition nav_match :: "string \<Rightarrow> string \<Rightarrow> bool" where
  "nav_match href p = (if href = ''/trade'' then starts_with p ''/trade'' \<or> p = ''/'' else p = href)"

definition nav_href :: "market_id \<Rightarrow> string \<Rightarrow> string" where
  "nav_href sel href = (if href = ''/trade'' then ''/trade/'' @ market_id_str sel else href)"

definition nav_items :: "market_id \<Rightarrow> string \<Rightarrow> (string \<times> string \<times> bool) list" where
  "nav_items sel pathname = map (\<lambda>(href, label). (nav_href sel href, label, nav_match href pathname)) NAV"

definition find_market :: "market list option \<Rightarrow> market_id \<Rightarrow> market option" where
  "find_market data mid = (case data of None \<Rightarrow> None | Some ms \<Rightarrow> find (\<lambda>m. mk_id m = mid) ms)"

definition chart_anchor :: "market option \<Rightarrow> market_id \<Rightarrow> number" where
  "chart_anchor mk mid = (case mk of Some m \<Rightarrow> to_number (mk_indexPriceX18 m) / Fin (10 ^ 18)
     | None \<Rightarrow> if mid = BtcUsd then Fin 100000 else if mid = EthUsd then Fin 3500 else Fin 200)"

datatype mobile_tab = ChartTab | BookTab | FormTab | PositionTab

datatype trade_panel = HeaderPanel | ChartPanel | BookPanel | TapePanel | FormPanel | PositionsPanel

text \<open>
  Both layouts are mounted at all times; the style sheet hides one of them. The list has the
  desktop panels followed by those of the mobile tab.
\<close>

definition mounted_panels :: "mobile_tab \<Rightarrow> trade_panel list" where
  "mounted_panels tab = [HeaderPanel, ChartPanel, BookPanel, TapePanel, FormPanel, PositionsPanel] @
     (case tab of ChartTab \<Rightarrow> [ChartPanel] | BookTab \<Rightarrow> [BookPanel, TapePanel] | FormTab \<Rightarrow> [FormPanel] | PositionTab \<Rightarrow> [PositionsPanel])"

section \<open>Theme\<close>

datatype theme = Light | Dark

fun theme_str :: "theme \<Rightarrow> string" where
  "theme_str Light = ''light''"
| "theme_str Dark = ''dark''"

definition readInitial :: "string option \<Rightarrow> theme" where
  "readInitial saved = (if saved = Some ''dark'' then Dark else Light)"

text \<open>The classes of the document element after \<open>applyTheme\<close>.\<close>

definition applyTheme :: "theme \<Rightarrow> string list \<Rightarrow> string list" where
  "applyTheme t classes =
     (let off = filter (\<lambda>c. c \<noteq> ''dark'' \<and> c \<noteq> ''light'') classes;
          keep = filter (\<lambda>c. c = theme_str t) classes
      in if keep = [] then off @ [theme_str t] else filter (\<lambda>c. c = theme_str t \<or> (c \<noteq> ''dark'' \<and> c \<noteq> ''light'')) classes)"

record theme_state =
  th_theme :: theme
  th_classes :: "string list"
  th_saved :: "string option"

definition toggle_theme :: "theme_state \<Rightarrow> theme_state" where
  "toggle_theme s = (let nxt = (if th_theme s = Dark then Light else Dark)
     in \<lparr>th_theme = nxt, th_classes = applyTheme nxt (th_classes s), th_saved = Some (theme_str nxt)\<rparr>)"

definition theme_label :: "theme \<Rightarrow> string" where
  "theme_label t = (if t = Dark then ''Switch to light theme'' else ''Switch to dark theme'')"

text \<open>Which icon is drawn: the sun only once mounted and dark.\<close>

definition sun_icon :: "bool \<Rightarrow> theme \<Rightarrow> bool" where
  "sun_icon mounted t = (mounted \<and> t = Dark)"

section \<open>Booting\<close>

record boot =
  bt_ready :: bool
  bt_error :: "string option"
  bt_cancelled :: bool
  bt_timer :: bool
  bt_starting :: bool

definition boot_timeout_msg :: string where
  "boot_timeout_msg = ''Mock backend did not start within 10s. Reload the page or check the browser console.''"

definition boot_start :: "bool \<Rightarrow> boot" where
  "boot_start useMocks = \<lparr>bt_ready = \<not> useMocks, bt_error = None, bt_cancelled = False, bt_timer = useMocks, bt_starting = useMocks\<rparr>"

datatype boot_event = BootTimeout | BootOk | BootFail string | BootUnmount

definition boot_event_step :: "boot_event \<Rightarrow> boot \<Rightarrow> boot" where
  "boot_event_step ev b = (case ev of
       BootTimeout \<Rightarrow> if bt_timer b then (let c = b\<lparr>bt_timer := False\<rparr> in
                        if bt_cancelled b then c else c\<lparr>bt_error := Some boot_timeout_msg, bt_ready := True\<rparr>) else b
     | BootOk \<Rightarrow> if \<not> bt_starting b then b else (let c = b\<lparr>bt_starting := False\<rparr> in
                        if bt_cancelled b then c else c\<lparr>bt_timer := False, bt_ready := True\<rparr>)
     | BootFail m \<Rightarrow> if \<not> bt_starting b then b else (let c = b\<lparr>bt_starting := False\<rparr> in
                        if bt_cancelled b then c else c\<lparr>bt_timer := False, bt_error := Some m, bt_ready := True\<rparr>)
     | BootUnmount \<Rightarrow> b\<lparr>bt_cancelled := True, bt_timer := False\<rparr>)"

section \<open>Chains\<close>

definition ARBITRUM :: int where "ARBITRUM = 42161"

definition ARBITRUM_SEPOLIA :: int where "ARBITRUM_SEPOLIA = 421614"

definition LOCAL_ANVIL :: int where "LOCAL_ANVIL = 31337"

definition IS_DEV_PROFILE :: "string \<Rightarrow> bool" where
  "IS_DEV_PROFILE node_env = (node_env \<noteq> ''production'')"

definition APP_CHAINS :: "bool \<Rightarrow> int list" where
  "APP_CHAINS dev = (if dev then [LOCAL_ANVIL, ARBITRUM_SEPOLIA, ARBITRUM] else [ARBITRUM, ARBITRUM_SEPOLIA])"

datatype connector = Injected | CoinbaseWallet | WalletConnect

definition wagmi_connectors :: "bool \<Rightarrow> connector list" where
  "wagmi_connectors isBrowser = [Injected, CoinbaseWallet] @ (if isBrowser then [WalletConnect] else [])"

definition wagmi_transports :: "bool \<Rightarrow> int list" where
  "wagmi_transports dev = [ARBITRUM, ARBITRUM_SEPOLIA] @ (if dev then [LOCAL_ANVIL] else [])"

record contract_addresses =
  ct_collateralVault :: string
  ct_usdc :: string

definition getAddresses :: "int option \<Rightarrow> contract_addresses option" where
  "getAddresses chainId = (if chainId = Some 31337
     then Some \<lparr>ct_collateralVault = ''0xDc64a140Aa3E981100a9becA4E685f962f0cF6C9'', ct_usdc = ''0x5FbDB2315678afecb367f032d93F642f64180aa3''\<rparr>
     else None)"

section \<open>Lemmas\<close>

lemma rem_nat: "0 \<le> n \<Longrightarrow> 0 < k \<Longrightarrow> num_rem (Fin (of_int n)) (Fin (of_int k)) = Fin (of_int (n mod k))"
proof -
  assume n: "0 \<le> n" "0 < k"
  have "\<lfloor>(of_int n :: rat) / of_int k\<rfloor> = n div k" by (rule floor_divide_of_int_eq)
  then have "rat_rem (of_int n) (of_int k) = of_int (n - k * (n div k))" using n by (simp add: rat_rem_def)
  then show ?thesis using n by (simp add: minus_mult_div_eq_mod)
qed

text \<open>A render for a connected wallet with address \<open>a\<close>.\<close>

definition render_for :: "string \<Rightarrow> wallet_render \<Rightarrow> bool" where
  "render_for a r = (wr_connected r \<and> wr_address r = Some a)"

lemma radix_val_range: "radix_val b s = Some n \<Longrightarrow> 0 \<le> n \<and> n < int b ^ length s"
proof -
  have "list_all (\<lambda>c. radix_digit c < b) t \<Longrightarrow> 0 \<le> foldl (\<lambda>a c. int b * a + int (radix_digit c)) 0 t \<and>
    foldl (\<lambda>a c. int b * a + int (radix_digit c)) 0 t + 1 \<le> int b ^ length t" for t
  proof (induction t rule: rev_induct)
    case (snoc c t)
    let ?v = "foldl (\<lambda>a c. int b * a + int (radix_digit c)) 0 t"
    have "int b * (?v + 1) \<le> int b * int b ^ length t" "0 \<le> int b * ?v" using snoc by (auto intro!: mult_left_mono)
    then show ?case using snoc.prems by (simp add: distrib_left)
  qed simp
  then show "radix_val b s = Some n \<Longrightarrow> ?thesis" by (fastforce simp: radix_val_def split: if_splits)
qed

text \<open>The two hues of an avatar are whole degrees below 360, for every address of hexadecimal digits.\<close>

lemma hex_digit_plain:
  assumes "radix_digit c < 16"
  shows "c \<noteq> CHR ''-''" "c \<noteq> CHR ''+''" "c \<noteq> CHR ''x''" "c \<noteq> CHR ''X''" "\<not> is_space c"
  using assms by (auto simp: radix_digit_def is_space_def Let_def split: if_splits)

lemma avatar_hues:
  assumes "radix_val 16 ds = Some n" "length ds = 6"
  shows "num_rem (parseInt16 ds) (Fin 360) = Fin (of_int (n mod 360)) \<and> n mod 360 < 360 \<and> 0 \<le> n mod 360"
proof -
  have n: "0 \<le> n" "n < 16 ^ 6" using radix_val_range [OF assms(1)] assms(2) by auto
  have ds: "\<forall>c\<in>set ds. radix_digit c < 16" using assms(1) by (auto simp: radix_val_def list_all_iff split: if_splits)
  then have tw: "takeWhile (\<lambda>c. radix_digit c < 16) ds = ds" by (simp add: takeWhile_eq_all_conv)
  obtain c d r where c: "ds = c # d # r" using assms(2) by (cases ds; cases "tl ds") auto
  then have "dropWhile is_space ds = ds" "signed_part ds = (False, ds)" "d \<noteq> CHR ''x''" "d \<noteq> CHR ''X''"
    using ds hex_digit_plain [of c] hex_digit_plain [of d] by (auto simp: signed_part_def)
  then have "parseInt16 ds = num_of_int n" using tw assms(1) by (simp add: parseInt16_def c)
  then show ?thesis using rem_nat [of n 360] n by (simp add: num_of_int_def flo_of_int)
qed

text \<open>Once prompted, an address that stays connected is not prompted again, also when its session is lost.\<close>

lemma prompted_stays: "a \<noteq> [] \<Longrightarrow> list_all (render_for a) rs \<Longrightarrow> prompts rs (Some a) = []"
  by (induction rs) (auto simp: render_for_def prompt_effect_def neq_Nil_conv)

text \<open>A disconnected render resets the guard.\<close>

lemma prompts_disconnect: "\<not> wr_connected d \<Longrightarrow> prompts (rs @ d # rs') p = prompts rs p @ prompts rs' None"
proof (induction rs arbitrary: p)
  case Nil
  then show ?case by (simp add: prompt_effect_def split: option.split list.split)
qed (simp add: split_beta Let_def)

lemma prompts_exact:
  assumes "a \<noteq> []" "list_all (render_for a) rs"
  shows "prompts rs None = (if \<exists>r\<in>set rs. \<not> wr_hasJwt r \<and> \<not> wr_isSigning r then [a] else [])"
  using assms(2)
proof (induction rs)
  case (Cons r rs)
  obtain c cs where a: "a = c # cs" using assms(1) by (cases a) auto
  have r: "wr_connected r" "wr_address r = Some a" using Cons.prems by (simp_all add: render_for_def)
  show ?case
  proof (cases "wr_hasJwt r \<or> wr_isSigning r")
    case True
    then show ?thesis using Cons r a by (auto simp: prompt_effect_def)
  next
    case False
    then show ?thesis using Cons.prems r a prompted_stays [OF assms(1), of rs] by (simp add: prompt_effect_def)
  qed
qed simp

definition boot_live :: "boot \<Rightarrow> bool" where
  "boot_live b = (bt_ready b \<or> bt_timer b \<or> bt_cancelled b)"

lemma boot_live_step: "boot_live b \<Longrightarrow> boot_live (boot_event_step ev b)"
  by (auto simp: boot_live_def boot_event_step_def Let_def split: boot_event.split)

lemma boot_live_run: "boot_live b \<Longrightarrow> boot_live (fold boot_event_step evs b)"
  by (induction evs arbitrary: b) (simp_all add: boot_live_step)

text \<open>A backend that comes up after the time-out leaves the error banner on screen.\<close>

lemma late_start_keeps_banner:
  "bt_ready (fold boot_event_step [BootTimeout, BootOk] (boot_start True)) \<and>
   bt_error (fold boot_event_step [BootTimeout, BootOk] (boot_start True)) = Some boot_timeout_msg"
  by (simp add: boot_start_def boot_event_step_def)

lemma transports_cover_chains: "set (APP_CHAINS dev) = set (wagmi_transports dev)"
  by (auto simp: APP_CHAINS_def wagmi_transports_def)

lemma anvil_only_in_dev: "LOCAL_ANVIL \<in> set (APP_CHAINS dev) \<longleftrightarrow> dev"
  by (simp add: APP_CHAINS_def LOCAL_ANVIL_def ARBITRUM_def ARBITRUM_SEPOLIA_def)

lemma theme_round_trip: "readInitial (th_saved (toggle_theme s)) = th_theme (toggle_theme s)"
  by (simp add: toggle_theme_def Let_def readInitial_def)

lemma one_nav_entry: "length (filter (\<lambda>n. nav_match (fst n) (fst n')) NAV) = 1" if "n' \<in> set NAV"
  using that by (auto simp: NAV_def nav_match_def starts_with_def)

section \<open>Properties\<close>

text \<open>
  C40. The sign-in is prompted exactly once per connection: while an address stays connected and
  no session of it is lost, it is prompted for its signature once if some render shows neither a
  session nor a signature in progress, and otherwise not at all, however often the component
  renders; after a disconnect the next connection is prompted afresh by the same rule.
\<close>

theorem wallet_is_prompted_once:
  assumes "a \<noteq> []" "list_all (render_for a) rs" "sorted (map wr_hasJwt rs)"
    and "a' \<noteq> []" "list_all (render_for a') rs'" "sorted (map wr_hasJwt rs')" "\<not> wr_connected d"
  shows "prompts (rs @ d # rs') None =
    (if \<exists>r\<in>set rs. \<not> wr_hasJwt r \<and> \<not> wr_isSigning r then [a] else []) @
    (if \<exists>r\<in>set rs'. \<not> wr_hasJwt r \<and> \<not> wr_isSigning r then [a'] else [])"
  using prompts_disconnect [OF assms(7)] prompts_exact [OF assms(1,2)] prompts_exact [OF assms(4,5)] by simp

definition demo_render :: "bool \<Rightarrow> bool \<Rightarrow> bool \<Rightarrow> wallet_render" where
  "demo_render con jwt signing = \<lparr>wr_connected = con, wr_address = Some ''0xab'', wr_hasJwt = jwt, wr_isSigning = signing\<rparr>"

theorem wallet_is_prompted_once_witness:
  "prompts ([demo_render True False False, demo_render True False True, demo_render True False False, demo_render True True False] @
     demo_render False False False # [demo_render True False False]) None = [''0xab'', ''0xab'']"
  using wallet_is_prompted_once [of "''0xab''" "[demo_render True False False, demo_render True False True, demo_render True False False,
      demo_render True True False]" "''0xab''" "[demo_render True False False]" "demo_render False False False"]
  by (simp add: render_for_def demo_render_def del: prompts.simps)

text \<open>
  The change the markets page shows is a hash of the market's name, reduced to hundredths of
  a percent between minus eight and eight: for every market it is the double nearest to such a
  fraction, and it never leaves that range.
\<close>

theorem shown_change_is_a_bounded_hash:
  "\<exists>k x. pseudoChange m = Fin x \<and> x = rnd64 (of_int k / 100) \<and> k = uint (hashBase m) mod 1601 - 800 \<and> \<bar>x\<bar> \<le> 8"
proof -
  define k where "k = uint (hashBase m) mod 1601 - 800"
  have k: "- 800 \<le> k" "k \<le> 800" using pos_mod_bound [of 1601 "uint (hashBase m)"] by (simp_all add: k_def)
  have "num_rem (Fin (of_int (uint (hashBase m)))) (Fin 1601) = Fin (of_int (k + 800))"
    using rem_nat [of "uint (hashBase m)" 1601] by (simp add: k_def del: of_int_uint)
  moreover have "flo (of_int k) = Fin (of_int k)" using k by (intro flo_of_int) simp
  ultimately have p: "pseudoChange m = flo (of_int k / 100)" by (simp add: pseudoChange_def del: of_int_uint)
  have "\<bar>of_int k :: rat\<bar> \<le> of_int 800" using k by (simp only: of_int_abs [symmetric] of_int_le_iff)
  then have "bnd 8 (flo (of_int k / 100))" by (intro bnd_flo) (simp_all add: abs_divide)
  then obtain x where "flo (of_int k / 100) = Fin x" "\<bar>x\<bar> \<le> 8" by (auto simp: bnd_def)
  then show ?thesis using p flo_Fin [of "of_int k / 100" x] k_def by auto
qed

end
