(* ===== verification/Devnet.thy ===== *)
theory Devnet
  imports JsString
begin

text \<open>
  The development network scripts: \<^verbatim>\<open>scripts/smoke-grafana.ts\<close> (the dashboard gate),
  \<^verbatim>\<open>scripts/seed.ts\<close> and \<^verbatim>\<open>scripts/smoke-deposit.ts\<close> with their helpers under
  \<^verbatim>\<open>scripts/lib\<close>. The chain, its accounts, the file system and \<open>JSON.parse\<close> are parameters:
  the chain is a state with a write operation that may be refused and two balance readings.
\<close>

section \<open>Strings of the scripts\<close>

definition pad_to :: "nat \<Rightarrow> string \<Rightarrow> string" where
  "pad_to n s = s @ replicate (n - length s) (CHR '' '')"




section \<open>The dashboard gate\<close>














section \<open>Seeding and the deposit smoke test\<close>

record deployments =
  de_MockUSDC :: string
  de_MockOracle :: string
  de_MarketRegistry :: string
  de_PositionRegistry :: string
  de_CollateralVault :: string
  de_SettlementEngine :: string
  de_SyntheticCounterparty :: string
  de_LiquidationEngine :: string
  de_owner :: string
  de_chainId :: int

definition loadDeployments :: "(string \<Rightarrow> string option) \<Rightarrow> (string \<Rightarrow> (js_error, deployments) result) \<Rightarrow> string \<Rightarrow> string \<Rightarrow> (js_error, deployments) result" where
  "loadDeployments read parse base network =
     (let file = base @ ''/deployments/'' @ network @ ''.json'' in
      case read file of
        None \<Rightarrow> Throw (ErrorMsg (''Deployments file not found: '' @ file @ [char_of (10::nat)] @
          ''Run: cd contracts && forge script script/Deploy.s.sol --rpc-url $RPC_URL --broadcast''))
      | Some raw \<Rightarrow> parse raw)"

definition RPC_URL :: "string option \<Rightarrow> string" where
  "RPC_URL env = (case env of Some u \<Rightarrow> u | None \<Rightarrow> ''http://localhost:8545'')"

definition ANVIL_KEYS :: "string list" where
  "ANVIL_KEYS = [''0xac0974bec39a17e36ba4a6b4d238ff944bacb478cbed5efcae784d7bf4f2ff80'',
     ''0x59c6995e998f97a5a0044966f0945389dc9e86dae88c7a8412f4603b6b78690d'',
     ''0x5de4111afa1a4b94908f83103eb1f1706367c2e68ca870fc3fb9a804cdab365a'',
     ''0x7c852118294e51e653712a81e05800f419141751be58f605c371e15141b007a6'',
     ''0x47e179ec197488593b187f80a00eb0da91f1b9d0b13f8733639f19c30a34926a'',
     ''0x8b3a350cf5c34c9194ca85829a2df0ec3153be0318b5e2d3348e872092edffba'',
     ''0x92db14e403b83dfe3df233f83dfa3a0d7096f21ca9b0d6d6b8d88b2b4ec1564e'',
     ''0x4bbbf85ce3377467afe5d46f804f221813b2bb87f24d81f60f1fcdbf7cbf4356'',
     ''0xdbda1821b80551c9d65939329250298aa3472ba22feea921c0cf5d620ea67b97'',
     ''0x2a871d0798f97d79848a013d4936a73bf4cc922c825d33c1cf7073dff6d409c6'']"

text \<open>The artefact: whether its JSON has the \<open>abi\<close> field, and its value.\<close>

definition loadAbi :: "(string \<Rightarrow> string option) \<Rightarrow> (string \<Rightarrow> (js_error, 'abi option) result) \<Rightarrow> string \<Rightarrow> string \<Rightarrow> string \<Rightarrow> (js_error, 'abi) result" where
  "loadAbi read parse base sourceFile name =
     (let file = base @ ''/'' @ sourceFile @ ''/'' @ name @ ''.json'' in
      case read file of
        None \<Rightarrow> Throw (ErrorMsg (''ABI artefact missing: '' @ file @ [char_of (10::nat)] @ ''Run: cd contracts && forge build''))
      | Some raw \<Rightarrow> (case parse raw of Inl e \<Rightarrow> Throw e
          | Inr None \<Rightarrow> Throw (ErrorMsg (''ABI missing in artefact '' @ file))
          | Inr (Some a) \<Rightarrow> Return a))"

record batch_fill =
  bf_user :: string
  bf_marketId :: string
  bf_sizeDelta :: int
  bf_priceX18 :: int
  bf_fee :: int

definition BATCH_TYPES :: "(string \<times> (string \<times> string) list) list" where
  "BATCH_TYPES = [(''Fill'', [(''user'', ''address''), (''marketId'', ''bytes32''), (''sizeDelta'', ''int256''), (''priceX18'', ''uint256''), (''fee'', ''int256'')]),
     (''Batch'', [(''nonce'', ''uint256''), (''deadline'', ''uint64''), (''fills'', ''Fill[]'')])]"

record batch_message =
  bm_name :: string
  bm_version :: string
  bm_chainId :: int
  bm_verifyingContract :: string
  bm_nonce :: int
  bm_deadline :: int
  bm_fills :: "batch_fill list"

text \<open>\<open>sign\<close> is the account's \<open>signTypedData\<close>, a function of the key and the message.\<close>

definition signBatch :: "(string \<Rightarrow> batch_message \<Rightarrow> string) \<Rightarrow> string \<Rightarrow> int \<Rightarrow> string \<Rightarrow> batch_fill list \<Rightarrow> int \<Rightarrow> int \<Rightarrow> string" where
  "signBatch sign operatorPk chainId settlementEngine fills nonce deadline =
     sign operatorPk \<lparr>bm_name = ''Perplex'', bm_version = ''1'', bm_chainId = chainId, bm_verifyingContract = settlementEngine,
       bm_nonce = nonce, bm_deadline = deadline, bm_fills = fills\<rparr>"

text \<open>The calls the scripts send, each with the account it is sent from.\<close>

datatype chain_call =
    Mint string int
  | Approve string int
  | VaultDeposit int
  | VaultWithdraw int
  | ApplyBatch "batch_fill list" int int string

text \<open>
  The chain: a write by an account is refused with a message or leads to the next state; the
  receipt is awaited before the script goes on. \<open>address\<close> is \<open>privateKeyToAccount\<close>.
\<close>

record 'c devnet =
  dn_address :: "string \<Rightarrow> string"
  dn_write :: "string \<Rightarrow> chain_call \<Rightarrow> 'c \<Rightarrow> (string, 'c) result"
  dn_vault :: "string \<Rightarrow> 'c \<Rightarrow> int"
  dn_usdc :: "string \<Rightarrow> 'c \<Rightarrow> int"
  dn_active :: "string \<Rightarrow> 'c \<Rightarrow> (string, bool) result"
  dn_price :: "string \<Rightarrow> 'c \<Rightarrow> (string, int) result"
  dn_keccak :: "string \<Rightarrow> string"
  dn_sign :: "string \<Rightarrow> batch_message \<Rightarrow> string"

definition MINT_AMT :: int where "MINT_AMT = 100000 * 10 ^ 6"

definition DEPOSIT_AMT :: int where "DEPOSIT_AMT = 50000 * 10 ^ 6"

definition TRADER_KEYS :: "string list" where
  "TRADER_KEYS = slice ANVIL_KEYS 1 6"

definition seed_trader :: "'c devnet \<Rightarrow> deployments \<Rightarrow> string \<Rightarrow> 'c \<Rightarrow> (string, 'c \<times> string) result" where
  "seed_trader d dep key c =
     (let a = dn_address d key in
      case dn_write d a (Mint a MINT_AMT) c of Inl e \<Rightarrow> Throw e
      | Inr c1 \<Rightarrow> (case dn_write d a (Approve (de_CollateralVault dep) DEPOSIT_AMT) c1 of Inl e \<Rightarrow> Throw e
        | Inr c2 \<Rightarrow> (case dn_write d a (VaultDeposit DEPOSIT_AMT) c2 of Inl e \<Rightarrow> Throw e
          | Inr c3 \<Rightarrow> Return (c3, ''  trader '' @ a @ '' vaultBalance='' @ int_str (dn_vault d a c3)))))"

fun seed_traders :: "'c devnet \<Rightarrow> deployments \<Rightarrow> string list \<Rightarrow> 'c \<Rightarrow> (string, 'c \<times> string list) result" where
  "seed_traders d dep [] c = Return (c, [])"
| "seed_traders d dep (k # ks) c = (case seed_trader d dep k c of Inl e \<Rightarrow> Throw e
     | Inr (c', line) \<Rightarrow> (case seed_traders d dep ks c' of Inl e \<Rightarrow> Throw e | Inr (c'', out) \<Rightarrow> Return (c'', line # out)))"

text \<open>The market log: a read that fails ends the script before anything is written.\<close>

definition market_line :: "'c devnet \<Rightarrow> 'c \<Rightarrow> string \<Rightarrow> (string, string) result" where
  "market_line d c marketKey =
     (case dn_active d (dn_keccak d marketKey) c of Inl e \<Rightarrow> Throw e
      | Inr active \<Rightarrow> (case dn_price d (dn_keccak d marketKey) c of Inl e \<Rightarrow> Throw e
        | Inr price \<Rightarrow> Return (''  market '' @ pad_to 8 marketKey @ '' active='' @ (if active then ''true'' else ''false'') @
            '' price='' @ int_str price)))"

fun market_lines :: "'c devnet \<Rightarrow> 'c \<Rightarrow> string list \<Rightarrow> (string, string list) result" where
  "market_lines d c [] = Return []"
| "market_lines d c (k # ks) = (case market_line d c k of Inl e \<Rightarrow> Throw e
     | Inr l \<Rightarrow> (case market_lines d c ks of Inl e \<Rightarrow> Throw e | Inr ls \<Rightarrow> Return (l # ls)))"

definition logMarketState :: "'c devnet \<Rightarrow> 'c \<Rightarrow> (string, string list) result" where
  "logMarketState d c = market_lines d c [''btc-usd'', ''eth-usd'', ''sol-usd'']"

definition seed_banner :: "deployments \<Rightarrow> string list" where
  "seed_banner dep = [''Seeding Perplex local devnet'',
     ''  CollateralVault    '' @ de_CollateralVault dep, ''  PositionRegistry   '' @ de_PositionRegistry dep,
     ''  MarketRegistry     '' @ de_MarketRegistry dep, ''  MockOracle         '' @ de_MockOracle dep,
     ''  MockUSDC           '' @ de_MockUSDC dep, []]"

text \<open>The whole script: the final state with the lines it prints, or the error that ends it with exit code 1.\<close>

definition seed_main :: "'c devnet \<Rightarrow> deployments \<Rightarrow> 'c \<Rightarrow> (string, 'c \<times> string list) result" where
  "seed_main d dep c = (case logMarketState d c of Inl e \<Rightarrow> Throw e
     | Inr ms \<Rightarrow> (case seed_traders d dep TRADER_KEYS c of Inl e \<Rightarrow> Throw e
       | Inr (c', ts) \<Rightarrow> Return (c', seed_banner dep @ ms @ [[]] @ ts @ [CHR 0x0A # ''Seed complete.''])))"

text \<open>The smoke test; \<open>Inl\<close> is the failed assertion or the error that ends it, \<open>Inr\<close> the final state.\<close>

definition SMOKE_SEED :: int where "SMOKE_SEED = 10000 * 10 ^ 6"

definition SMOKE_DEPOSIT :: int where "SMOKE_DEPOSIT = 1000 * 10 ^ 6"

definition SMOKE_WITHDRAW :: int where "SMOKE_WITHDRAW = 400 * 10 ^ 6"

definition DEPOSITOR_KEY :: string where "DEPOSITOR_KEY = ANVIL_KEYS ! 9"

definition OPERATOR_KEY :: string where "OPERATOR_KEY = ANVIL_KEYS ! 0"

definition smoke_fund :: "'c devnet \<Rightarrow> deployments \<Rightarrow> 'c \<Rightarrow> (string, 'c) result" where
  "smoke_fund d dep c =
     (let a = dn_address d DEPOSITOR_KEY in
      case dn_write d a (Mint a SMOKE_SEED) c of Inl e \<Rightarrow> Throw e
      | Inr c1 \<Rightarrow> dn_write d a (Approve (de_CollateralVault dep) SMOKE_SEED) c1)"

definition smoke_deposit_step :: "'c devnet \<Rightarrow> 'c \<Rightarrow> (string, 'c) result" where
  "smoke_deposit_step d c =
     (let a = dn_address d DEPOSITOR_KEY in
      case dn_write d a (VaultDeposit SMOKE_DEPOSIT) c of Inl e \<Rightarrow> Throw e
      | Inr c' \<Rightarrow>
          if dn_vault d a c' \<noteq> dn_vault d a c + SMOKE_DEPOSIT then Throw ''vault balance did not increment by DEPOSIT''
          else if dn_usdc d a c' \<noteq> dn_usdc d a c - SMOKE_DEPOSIT then Throw ''usdc balance did not decrement by DEPOSIT''
          else Return c')"

definition smoke_withdraw_step :: "'c devnet \<Rightarrow> 'c \<Rightarrow> (string, 'c) result" where
  "smoke_withdraw_step d c =
     (let a = dn_address d DEPOSITOR_KEY in
      case dn_write d a (VaultWithdraw SMOKE_WITHDRAW) c of Inl e \<Rightarrow> Throw e
      | Inr c' \<Rightarrow>
          if dn_vault d a c' \<noteq> dn_vault d a c - SMOKE_WITHDRAW then Throw ''vault balance did not decrement by WITHDRAW''
          else if dn_usdc d a c' \<noteq> dn_usdc d a c + SMOKE_WITHDRAW then Throw ''usdc balance did not increment by WITHDRAW''
          else Return c')"

definition smoke_fills :: "'c devnet \<Rightarrow> batch_fill list" where
  "smoke_fills d = [\<lparr>bf_user = dn_address d DEPOSITOR_KEY, bf_marketId = dn_keccak d ''btc-usd'', bf_sizeDelta = 1 * 10 ^ 18,
     bf_priceX18 = 100000 * 10 ^ 18, bf_fee = 0\<rparr>]"

text \<open>\<open>now\<close> and \<open>now'\<close> are the two readings of \<open>Date.now()\<close>, in milliseconds.\<close>

definition smoke_batch_step :: "'c devnet \<Rightarrow> deployments \<Rightarrow> int \<Rightarrow> int \<Rightarrow> 'c \<Rightarrow> (string, 'c) result" where
  "smoke_batch_step d dep now now' c =
     (let nonce = now; deadline = now' div 1000 + 600; fills = smoke_fills d;
          signature = signBatch (dn_sign d) OPERATOR_KEY (de_chainId dep) (de_SettlementEngine dep) fills nonce deadline
      in dn_write d (dn_address d OPERATOR_KEY) (ApplyBatch fills nonce deadline signature) c)"

definition smoke_blocked_step :: "'c devnet \<Rightarrow> 'c \<Rightarrow> (string, 'c) result" where
  "smoke_blocked_step d c =
     (case dn_write d (dn_address d DEPOSITOR_KEY) (VaultWithdraw (100 * 10 ^ 6)) c of
        Inl msg \<Rightarrow> if has_infix ''WithdrawalBlocked'' msg then Return c
                   else Throw (''expected WithdrawalBlocked, got: '' @ slice msg 0 200)
      | Inr _ \<Rightarrow> Throw ''expected withdraw to revert after applyBatch, but it succeeded'')"

definition andThen :: "('e, 'a) result \<Rightarrow> ('a \<Rightarrow> ('e, 'b) result) \<Rightarrow> ('e, 'b) result" where
  "andThen r f = (case r of Inl e \<Rightarrow> Throw e | Inr x \<Rightarrow> f x)"

definition smoke_main :: "'c devnet \<Rightarrow> deployments \<Rightarrow> int \<Rightarrow> int \<Rightarrow> 'c \<Rightarrow> (string, 'c) result" where
  "smoke_main d dep now now' c =
     andThen (smoke_fund d dep c) (\<lambda>c1. andThen (smoke_deposit_step d c1) (\<lambda>c2.
       andThen (smoke_withdraw_step d c2) (\<lambda>c3. andThen (smoke_batch_step d dep now now' c3) (smoke_blocked_step d))))"

section \<open>Lemmas\<close>

subsection \<open>The gate\<close>
















subsection \<open>The tokenizer\<close>










subsection \<open>The verdict\<close>



subsection \<open>Seeding\<close>

text \<open>
  The vault contract as the scripts rely on it: an accepted deposit or withdrawal moves the
  sender's balance by its amount, a mint or an approval moves no balance, and nobody else's
  balance changes.
\<close>

definition vault_laws :: "'c devnet \<Rightarrow> bool" where
  "vault_laws d \<longleftrightarrow> (\<forall>a call c c'. dn_write d a call c = Return c' \<longrightarrow> (\<forall>f n t g. call \<noteq> ApplyBatch f n t g) \<longrightarrow>
     (\<forall>b. dn_vault d b c' = dn_vault d b c +
       (if b = a then (case call of VaultDeposit x \<Rightarrow> x | VaultWithdraw x \<Rightarrow> - x | _ \<Rightarrow> 0) else 0)))"

lemma seed_trader_credits:
  assumes "vault_laws d" "seed_trader d dep k c = Return (c', line)"
  shows "dn_vault d b c' = dn_vault d b c + (if b = dn_address d k then DEPOSIT_AMT else 0)"
proof -
  let ?a = "dn_address d k"
  obtain c1 c2 where w: "dn_write d ?a (Mint ?a MINT_AMT) c = Return c1"
    "dn_write d ?a (Approve (de_CollateralVault dep) DEPOSIT_AMT) c1 = Return c2" "dn_write d ?a (VaultDeposit DEPOSIT_AMT) c2 = Return c'"
    using assms(2) by (auto simp: seed_trader_def Let_def split: sum.splits)
  note law = assms(1) [unfolded vault_laws_def, rule_format]
  show ?thesis using law [OF w(1), of b] law [OF w(2), of b] law [OF w(3), of b] by simp
qed

lemma seed_traders_credit:
  "vault_laws d \<Longrightarrow> seed_traders d dep ks c = Return (c', out) \<Longrightarrow>
   length out = length ks \<and> dn_vault d b c' = dn_vault d b c + DEPOSIT_AMT * int (length (filter (\<lambda>k. dn_address d k = b) ks))"
proof (induction ks arbitrary: c out)
  case (Cons k ks)
  then obtain c1 l ls where k: "seed_trader d dep k c = Return (c1, l)" "seed_traders d dep ks c1 = Return (c', ls)" "out = l # ls"
    by (auto split: sum.splits)
  show ?case using Cons.IH [OF Cons.prems(1) k(2)] seed_trader_credits [OF Cons.prems(1) k(1), of b] k(3)
    by (auto simp: algebra_simps)
qed simp

text \<open>
  A seed that completes has credited every trader key's account with one deposit of 50k, and no
  other account; run again it credits another, as its comment says.
\<close>

lemma seed_credits_the_traders:
  assumes "vault_laws d" "seed_main d dep c = Return (c', out)"
  shows "dn_vault d b c' = dn_vault d b c + DEPOSIT_AMT * int (length (filter (\<lambda>k. dn_address d k = b) TRADER_KEYS))"
  using assms seed_traders_credit [OF assms(1)] by (auto simp: seed_main_def split: sum.splits)

subsection \<open>The smoke test\<close>

text \<open>
  What a passing deposit smoke test shows of the chain: there are states before and after
  the deposit, the withdrawal and the settled batch, reached by accepted calls of the depositor
  and the operator, between which the vault and token balances moved by exactly the amounts of
  the calls, and after the batch the chain refuses a further withdrawal of 100 USDC, naming
  \<open>WithdrawalBlocked\<close>.
\<close>

lemma passing_smoke_test_means:
  assumes "smoke_main d dep now now' c = Return cEnd"
  shows "\<exists>c1 c2 c3 sig msg. let a = dn_address d DEPOSITOR_KEY in
    dn_write d a (VaultDeposit 1000000000) c1 = Return c2 \<and>
    dn_vault d a c2 = dn_vault d a c1 + 1000000000 \<and> dn_usdc d a c2 = dn_usdc d a c1 - 1000000000 \<and>
    dn_write d a (VaultWithdraw 400000000) c2 = Return c3 \<and>
    dn_vault d a c3 = dn_vault d a c2 - 400000000 \<and> dn_usdc d a c3 = dn_usdc d a c2 + 400000000 \<and>
    dn_write d (dn_address d OPERATOR_KEY) (ApplyBatch (smoke_fills d) now (now' div 1000 + 600) sig) c3 = Return cEnd \<and>
    dn_write d a (VaultWithdraw 100000000) cEnd = Inl msg \<and> has_infix ''WithdrawalBlocked'' msg"
proof -
  obtain c1 c2 c3 where c: "smoke_deposit_step d c1 = Return c2" "smoke_withdraw_step d c2 = Return c3"
    "smoke_batch_step d dep now now' c3 = Return cEnd" "smoke_blocked_step d cEnd = Return cEnd"
    using assms unfolding smoke_main_def andThen_def
    by (auto simp: smoke_blocked_step_def split: sum.splits if_splits)
  obtain sig where sig: "dn_write d (dn_address d OPERATOR_KEY) (ApplyBatch (smoke_fills d) now (now' div 1000 + 600) sig) c3 = Return cEnd"
    using c(3) by (auto simp: smoke_batch_step_def Let_def)
  obtain msg where msg: "dn_write d (dn_address d DEPOSITOR_KEY) (VaultWithdraw 100000000) cEnd = Inl msg" "has_infix ''WithdrawalBlocked'' msg"
    using c(4) by (auto simp: smoke_blocked_step_def split: sum.splits if_splits)
  show ?thesis
    using sig msg c(1) c(2) unfolding smoke_deposit_step_def smoke_withdraw_step_def Let_def SMOKE_DEPOSIT_def SMOKE_WITHDRAW_def
    by (intro exI [of _ c1] exI [of _ c2] exI [of _ c3] exI [of _ sig] exI [of _ msg]) (auto split: sum.splits if_splits)
qed

section \<open>Properties\<close>







end
