(* ===== verification/Worker.thy ===== *)
theory Worker
  imports JsString
begin

text \<open>
  The service worker that serves the mock backend to the page, \<^verbatim>\<open>web/public/mockServiceWorker.js\<close>,
  and \<open>startMocks\<close> of \<^verbatim>\<open>web/mocks/browser.ts\<close>. The state of the worker is its set of active
  clients, the requests it is handling, and what it has sent: the messages posted to clients
  and the requests handed on to the network. A handler that awaits is cut at every \<open>await\<close>:
  a request in progress is in a phase, and the answer of the environment (the client registry,
  the network, the page) moves it to the next. The phases are the awaits of straight-line code:
  their number has no meaning of its own. Between two phases of one request any other
  event may happen, so that the set of active clients can change meanwhile. The message handler
  touches the state only after its last await, so it is one step given what the two awaits
  returned. Requests are told apart by their \<open>crypto.randomUUID()\<close>.
\<close>

section \<open>Clients, requests, responses\<close>

record client =
  cl_id :: string
  cl_frameType :: string
  cl_visibilityState :: string

text \<open>A \<open>Headers\<close> object maps lower-case names to values.\<close>

record sw_request =
  sr_url :: string
  sr_mode :: string
  sr_method :: string
  sr_headers :: "(string, string) jmap"
  sr_cache :: string
  sr_credentials :: string
  sr_destination :: string
  sr_integrity :: string
  sr_redirect :: string
  sr_referrer :: string
  sr_referrerPolicy :: string
  sr_body :: string
  sr_keepalive :: bool

text \<open>\<open>sp_mocked\<close> is the presence of the \<open>IS_MOCKED_RESPONSE\<close> symbol.\<close>

record sw_response =
  sp_type :: string
  sp_status :: int
  sp_statusText :: string
  sp_headers :: "(string, string) jmap"
  sp_body :: "string option"
  sp_mocked :: bool

definition PACKAGE_VERSION :: string where
  "PACKAGE_VERSION = ''2.14.6''"

definition INTEGRITY_CHECKSUM :: string where
  "INTEGRITY_CHECKSUM = ''4db4a41e972cec1b64cc569c66952d82''"

text \<open>\<open>Object.fromEntries\<close> builds an object from the header entries; the rest is copied.\<close>

definition serializeRequest :: "sw_request \<Rightarrow> sw_request" where
  "serializeRequest r = r\<lparr>sr_headers := map_from (sr_headers r)\<rparr>"

datatype worker_message =
    KeepaliveResponse
  | IntegrityCheckResponse string string
  | MockingEnabled string string
  | RequestMsg string int sw_request
  | ResponseMsg bool string sw_request sw_response

text \<open>\<open>sendToClient\<close>: the message and the transferred bodies, without the absent ones.\<close>

record post =
  po_client :: string
  po_message :: worker_message
  po_transfer :: "string list"

definition sendToClient :: "client \<Rightarrow> worker_message \<Rightarrow> string option list \<Rightarrow> post" where
  "sendToClient c m transferrables = \<lparr>po_client = cl_id c, po_message = m,
     po_transfer = map the (filter (\<lambda>t. t \<noteq> None) transferrables)\<rparr>"

section \<open>The state of the worker\<close>

record fetch_event =
  fv_clientId :: string
  fv_request :: sw_request

datatype phase =
    GettingClient
  | MatchingClients
  | MainClient "client option"
  | SerializingRequest client
  | AwaitingReply client
  | Fetching "client option"
  | GotResponse "client option" sw_response
  | SerializingForEvents client sw_response
  | Responded sw_response
  | Rejected string

record flight =
  ft_event :: fetch_event
  ft_interceptedAt :: int
  ft_phase :: phase

record worker =
  wk_waiting :: bool
  wk_claimed :: bool
  wk_registered :: bool
  wk_active :: "string jset"
  wk_flights :: "(string, flight) jmap"
  wk_posts :: "post list"
  wk_network :: "(string \<times> sw_request) list"

definition initial_worker :: worker where
  "initial_worker = \<lparr>wk_waiting = True, wk_claimed = False, wk_registered = True, wk_active = [],
     wk_flights = [], wk_posts = [], wk_network = []\<rparr>"

definition on_install :: "worker \<Rightarrow> worker" where
  "on_install w = w\<lparr>wk_waiting := False\<rparr>"

definition on_activate :: "worker \<Rightarrow> worker" where
  "on_activate w = w\<lparr>wk_claimed := True\<rparr>"

section \<open>Messages from the pages\<close>

text \<open>
  \<open>source\<close> is the id of the sender, if it has one; \<open>client\<close> and \<open>allClients\<close> are what the
  registry returned.
\<close>

definition handle_message :: "string \<Rightarrow> client \<Rightarrow> client list \<Rightarrow> string \<Rightarrow> worker \<Rightarrow> worker" where
  "handle_message clientId c allClients data w =
     (if data = ''KEEPALIVE_REQUEST'' then w\<lparr>wk_posts := wk_posts w @ [sendToClient c KeepaliveResponse []]\<rparr>
      else if data = ''INTEGRITY_CHECK_REQUEST''
      then w\<lparr>wk_posts := wk_posts w @ [sendToClient c (IntegrityCheckResponse PACKAGE_VERSION INTEGRITY_CHECKSUM) []]\<rparr>
      else if data = ''MOCK_ACTIVATE''
      then w\<lparr>wk_active := sadd (wk_active w) clientId,
             wk_posts := wk_posts w @ [sendToClient c (MockingEnabled (cl_id c) (cl_frameType c)) []]\<rparr>
      else if data = ''CLIENT_CLOSED''
      then w\<lparr>wk_active := sremove (wk_active w) clientId,
             wk_registered := (wk_registered w \<and> filter (\<lambda>c'. cl_id c' \<noteq> clientId) allClients \<noteq> [])\<rparr>
      else w)"

definition on_client_message :: "string option \<Rightarrow> client option \<Rightarrow> client list \<Rightarrow> string \<Rightarrow> worker \<Rightarrow> worker" where
  "on_client_message source got allClients data w = (case (source, got) of
       (Some (x # xs), Some c) \<Rightarrow> handle_message (x # xs) c allClients data w | _ \<Rightarrow> w)"

section \<open>Intercepting a request\<close>

definition intercepts :: "worker \<Rightarrow> sw_request \<Rightarrow> bool" where
  "intercepts w r \<longleftrightarrow> sr_mode r \<noteq> ''navigate'' \<and>
     \<not> (sr_cache r = ''only-if-cached'' \<and> sr_mode r \<noteq> ''same-origin'') \<and> wk_active w \<noteq> []"

text \<open>\<open>requestId\<close> and \<open>now\<close> are the random id and the clock reading of this event.\<close>

definition on_fetch :: "fetch_event \<Rightarrow> string \<Rightarrow> int \<Rightarrow> worker \<Rightarrow> worker" where
  "on_fetch ev requestId now w =
     (if intercepts w (fv_request ev)
      then w\<lparr>wk_flights := mset_key (wk_flights w) requestId
             \<lparr>ft_event = ev, ft_interceptedAt = now, ft_phase = GettingClient\<rparr>\<rparr>
      else w)"

text \<open>\<open>resolveMainClient\<close>, after the registry has returned the sender and, later, all windows.\<close>

definition resolve_sender :: "string jset \<Rightarrow> fetch_event \<Rightarrow> client option \<Rightarrow> phase" where
  "resolve_sender active ev c =
     (if fv_clientId ev \<in> set active then MainClient c
      else if map_option cl_frameType c = Some ''top-level'' then MainClient c
      else MatchingClients)"

definition resolve_visible :: "string jset \<Rightarrow> client list \<Rightarrow> client option" where
  "resolve_visible active allClients =
     find (\<lambda>c. cl_id c \<in> set active) (filter (\<lambda>c. cl_visibilityState c = ''visible'') allClients)"

section \<open>Passing a request through\<close>

definition accept_values :: "string \<Rightarrow> string list" where
  "accept_values h = map trim (split_at (CHR '','') h)"

definition passthrough_headers :: "(string, string) jmap \<Rightarrow> (string, string) jmap" where
  "passthrough_headers headers = (case mget headers ''accept'' of
       Some (c # cs) \<Rightarrow>
         (let filteredValues = filter (\<lambda>v. v \<noteq> ''msw/passthrough'') (accept_values (c # cs)) in
          if filteredValues \<noteq> [] then mset_key headers ''accept'' (join_with '', '' filteredValues)
          else mdelete headers ''accept'')
     | _ \<Rightarrow> headers)"

definition passthrough :: "sw_request \<Rightarrow> sw_request" where
  "passthrough r = r\<lparr>sr_headers := passthrough_headers (sr_headers r)\<rparr>"

section \<open>The response\<close>

text \<open>
  \<open>new Response(body, init)\<close> throws for a status outside 200 to 599 and for a body with a
  status that must not have one. \<open>Response.error()\<close> has status zero and no body.
\<close>

definition respondWithMock :: "sw_response \<Rightarrow> (string, sw_response) result" where
  "respondWithMock r =
     (if sp_status r = 0
      then Return \<lparr>sp_type = ''error'', sp_status = 0, sp_statusText = [], sp_headers = [], sp_body = None, sp_mocked = False\<rparr>
      else if sp_status r < 200 \<or> 599 < sp_status r then Throw ''RangeError''
      else if sp_status r \<in> {204, 205, 304} \<and> sp_body r \<noteq> None then Throw ''TypeError''
      else Return (r\<lparr>sp_type := ''default'', sp_mocked := True\<rparr>))"

text \<open>What the page posts back: an error, nothing, a mocked response, or a reply of another type.\<close>

datatype client_reply = ErrorReply string | NoReply | MockReply sw_response | PassthroughReply | OtherReply

definition start_response :: "string jset \<Rightarrow> client option \<Rightarrow> phase" where
  "start_response active mc = (case mc of
       None \<Rightarrow> Fetching None
     | Some c \<Rightarrow> if cl_id c \<notin> set active then Fetching (Some c) else SerializingRequest c)"

definition handle_reply :: "client \<Rightarrow> client_reply \<Rightarrow> phase" where
  "handle_reply c r = (case r of
       ErrorReply e \<Rightarrow> Rejected e
     | NoReply \<Rightarrow> Rejected ''TypeError''
     | MockReply d \<Rightarrow> (case respondWithMock d of Inl e \<Rightarrow> Rejected e | Inr res \<Rightarrow> GotResponse (Some c) res)
     | _ \<Rightarrow> Fetching (Some c))"

definition finish_response :: "string jset \<Rightarrow> client option \<Rightarrow> sw_response \<Rightarrow> phase" where
  "finish_response active mc res = (case mc of
       Some c \<Rightarrow> if cl_id c \<in> set active then SerializingForEvents c res else Responded res
     | None \<Rightarrow> Responded res)"

section \<open>A request in progress\<close>

text \<open>The environment's answer to an await; \<open>Tick\<close> resumes after one that carries no value.\<close>

datatype answer =
    SenderIs "client option"
  | ClientsAre "client list"
  | Tick
  | Reply client_reply
  | Fetched "(string, sw_response) result"

text \<open>
  One continuation of \<open>handleRequest\<close>: the next phase, the message it posts and whether it
  hands the request to the network. \<open>None\<close> when the answer is not one the phase waits for.
\<close>

fun resume :: "string jset \<Rightarrow> string \<Rightarrow> fetch_event \<Rightarrow> int \<Rightarrow> phase \<Rightarrow> answer \<Rightarrow> (phase \<times> post list) option" where
  "resume active rid ev t0 GettingClient (SenderIs c) = Some (resolve_sender active ev c, [])"
| "resume active rid ev t0 MatchingClients (ClientsAre cs) = Some (MainClient (resolve_visible active cs), [])"
| "resume active rid ev t0 (MainClient mc) Tick = Some (start_response active mc, [])"
| "resume active rid ev t0 (SerializingRequest c) Tick = Some (AwaitingReply c,
     [sendToClient c (RequestMsg rid t0 (serializeRequest (fv_request ev)))
       [Some (sr_body (serializeRequest (fv_request ev)))]])"
| "resume active rid ev t0 (AwaitingReply c) (Reply r) = Some (handle_reply c r, [])"
| "resume active rid ev t0 (Fetching mc) (Fetched (Inr res)) = Some (GotResponse mc (res\<lparr>sp_mocked := False\<rparr>), [])"
| "resume active rid ev t0 (Fetching mc) (Fetched (Inl e)) = Some (Rejected e, [])"
| "resume active rid ev t0 (GotResponse mc res) Tick = Some (finish_response active mc res, [])"
| "resume active rid ev t0 (SerializingForEvents c res) Tick = Some (Responded res,
     [sendToClient c (ResponseMsg (sp_mocked res) rid (serializeRequest (fv_request ev)) res)
       (if sp_body res \<noteq> None then [Some (sr_body (serializeRequest (fv_request ev))), sp_body res] else [])])"
| "resume active rid ev t0 _ _ = None"

fun_cases resume_Some: "resume active rid ev t0 p a = Some (p', ms)"

definition is_fetching :: "phase \<Rightarrow> bool" where
  "is_fetching p = (case p of Fetching _ \<Rightarrow> True | _ \<Rightarrow> False)"

definition on_answer :: "string \<Rightarrow> answer \<Rightarrow> worker \<Rightarrow> worker option" where
  "on_answer rid a w = (case mget (wk_flights w) rid of None \<Rightarrow> None
     | Some f \<Rightarrow> (case resume (wk_active w) rid (ft_event f) (ft_interceptedAt f) (ft_phase f) a of None \<Rightarrow> None
       | Some (p, ms) \<Rightarrow> Some (w\<lparr>wk_flights := mset_key (wk_flights w) rid (f\<lparr>ft_phase := p\<rparr>),
           wk_posts := wk_posts w @ ms,
           wk_network := wk_network w @
             (if is_fetching p then [(rid, passthrough (fv_request (ft_event f)))] else [])\<rparr>)))"

section \<open>Runs of the worker\<close>

datatype worker_event =
    Install
  | Activate
  | Message "string option" "client option" "client list" string
  | Fetch fetch_event string int
  | Answer string answer

fun worker_step :: "worker_event \<Rightarrow> worker \<Rightarrow> worker option" where
  "worker_step Install w = Some (on_install w)"
| "worker_step Activate w = Some (on_activate w)"
| "worker_step (Message source got allClients data) w = Some (on_client_message source got allClients data w)"
| "worker_step (Fetch ev rid now) w = (if mhas (wk_flights w) rid then None else Some (on_fetch ev rid now w))"
| "worker_step (Answer rid a) w = on_answer rid a w"

inductive worker_runs :: "worker_event list \<Rightarrow> worker \<Rightarrow> bool" where
  start: "worker_runs [] initial_worker"
| step: "worker_runs es w \<Longrightarrow> worker_step e w = Some w' \<Longrightarrow> worker_runs (es @ [e]) w'"

fun_cases worker_step_Some: "worker_step e w = Some w'"

text \<open>
  The changes of the set of active clients that an event asks for; none when the sender has no id
  or \<open>clients.get\<close> does not find it.
\<close>

fun lifecycle :: "worker_event \<Rightarrow> (string, unit) change list" where
  "lifecycle (Message (Some (x # xs)) (Some c) cs data) =
     (if data = ''MOCK_ACTIVATE'' then [(x # xs, Some ())]
      else if data = ''CLIENT_CLOSED'' then [(x # xs, None)] else [])"
| "lifecycle _ = []"

section \<open>Starting the mocks\<close>

text \<open>
  \<open>startMocks\<close>: \<open>socket\<close> is the error the socket server's start throws, if any, \<open>worker\<close> that of
  the registration of the worker. The result says what was started.
\<close>

record mocks =
  mo_started :: bool
  mo_sockets :: nat
  mo_workers :: nat

definition startMocks :: "string option \<Rightarrow> string option \<Rightarrow> mocks \<Rightarrow> (string, unit) result \<times> mocks" where
  "startMocks socket worker m =
     (if mo_started m then (Return (), m)
      else let m1 = (if socket = None then m\<lparr>mo_sockets := mo_sockets m + 1\<rparr> else m) in
        (case worker of Some e \<Rightarrow> (Throw e, m1)
         | None \<Rightarrow> (Return (), m1\<lparr>mo_started := True, mo_workers := mo_workers m1 + 1\<rparr>)))"

section \<open>Lemmas\<close>

subsection \<open>The accept header\<close>

lemma dropWhile_idem [simp]: "dropWhile P (dropWhile P xs) = dropWhile P xs"
  by (induction xs) simp_all

lemma last_dropWhile: "dropWhile P xs \<noteq> [] \<Longrightarrow> last (dropWhile P xs) = last xs"
  by (metis last_appendR takeWhile_dropWhile_id)

lemma dropWhile_id: "xs = [] \<or> \<not> P (hd xs) \<Longrightarrow> dropWhile P xs = xs"
  by (cases xs) auto

lemma trim_idem [simp]: "trim (trim s) = trim s"
proof -
  define u v where "u = dropWhile is_space s" and "v = dropWhile is_space (rev u)"
  have "u = [] \<or> \<not> is_space (hd u)" unfolding u_def by (metis hd_dropWhile)
  moreover have "v \<noteq> [] \<Longrightarrow> last v = hd u" unfolding v_def using last_dropWhile [of is_space "rev u"] by (cases u) auto
  moreover have "u = [] \<Longrightarrow> v = []" by (simp add: v_def)
  ultimately have "rev v = [] \<or> \<not> is_space (hd (rev v))" unfolding hd_rev by force
  then have "dropWhile is_space (rev v) = rev v" by (rule dropWhile_id)
  then show ?thesis by (simp add: trim_def u_def [symmetric] v_def [symmetric]) (simp add: v_def)
qed

lemma trim_blank [simp]: "trim (CHR '' '' # s) = trim s"
  by (simp add: trim_def is_space_def)

lemma set_trim: "set (trim s) \<subseteq> set s"
  by (auto simp: trim_def dest!: set_dropWhileD)

lemma split_at_free: "x \<in> set (split_at c s) \<Longrightarrow> c \<notin> set x"
proof (induction c s arbitrary: x rule: split_at.induct)
  case (2 c a s)
  then show ?case by (cases "split_at c s") (auto split: if_splits)
qed simp

lemma accept_join:
  "vs \<noteq> [] \<Longrightarrow> \<forall>v\<in>set vs. CHR '','' \<notin> set v \<and> trim v = v \<Longrightarrow> accept_values (join_with '', '' vs) = vs"
proof (induction "'', ''" vs rule: join_with.induct)
  case (3 x y ys)
  then have ih: "accept_values (join_with '', '' (y # ys)) = y # ys" by simp
  have "split_at (CHR '','') (x @ CHR '','' # CHR '' '' # join_with '', '' (y # ys)) =
      x # split_at (CHR '','') (CHR '' '' # join_with '', '' (y # ys))"
    using "3.prems" by (intro split_at_append) simp
  moreover have "map trim (split_at (CHR '','') (CHR '' '' # s)) = map trim (split_at (CHR '','') s)" for s
    by (cases "split_at (CHR '','') s") auto
  ultimately show ?case using ih "3.prems" by (simp add: accept_values_def)
qed (auto simp: accept_values_def split_at_absent)

lemma accept_values_clean: "v \<in> set (accept_values h) \<Longrightarrow> CHR '','' \<notin> set v \<and> trim v = v"
  using set_trim split_at_free by (fastforce simp: accept_values_def)

subsection \<open>The set of active clients\<close>

text \<open>A set is a keyed store of unit values.\<close>

definition sget :: "'a jset \<Rightarrow> 'a \<Rightarrow> unit option" where
  "sget s x = (if x \<in> set s then Some () else None)"

interpretation js: keyed_store sget "\<lambda>s x _. sadd s x" sremove distinct
  by unfold_locales (auto simp: sget_def)

lemma resume_active:
  "on_answer rid a w = Some w' \<Longrightarrow> wk_active w' = wk_active w"
  by (auto simp: on_answer_def split: option.splits prod.splits)

lemma step_active:
  "worker_step e w = Some w' \<Longrightarrow>
   wk_active w' = foldl (\<lambda>m (k, c). case c of None \<Rightarrow> sremove m k | Some v \<Rightarrow> sadd m k) (wk_active w) (lifecycle e)"
  by (cases e rule: lifecycle.cases)
    (auto simp: on_install_def on_activate_def on_client_message_def handle_message_def on_fetch_def resume_active
       split: if_splits option.splits list.splits)

lemma run_active:
  "worker_runs es w \<Longrightarrow>
   wk_active w = foldl (\<lambda>m (k, c). case c of None \<Rightarrow> sremove m k | Some v \<Rightarrow> sadd m k) [] (concat (map lifecycle es))"
  by (induction rule: worker_runs.induct) (simp_all add: initial_worker_def step_active)

subsection \<open>One request in progress\<close>

lemma on_answer_flights:
  assumes "on_answer rid a w = Some w'"
  obtains f p ms where "mget (wk_flights w) rid = Some f" "resume (wk_active w) rid (ft_event f) (ft_interceptedAt f) (ft_phase f) a = Some (p, ms)"
    "wk_flights w' = mset_key (wk_flights w) rid (f\<lparr>ft_phase := p\<rparr>)" "wk_posts w' = wk_posts w @ ms"
    "wk_network w' = wk_network w @ (if is_fetching p then [(rid, passthrough (fv_request (ft_event f)))] else [])"
  using assms by (auto simp: on_answer_def split: option.splits prod.splits)

text \<open>How often the page was asked about a request, told of its response, and the network called.\<close>

definition requests_posted :: "worker \<Rightarrow> string \<Rightarrow> nat" where
  "requests_posted w rid = length (filter (\<lambda>p. \<exists>t r. po_message p = RequestMsg rid t r) (wk_posts w))"

definition responses_posted :: "worker \<Rightarrow> string \<Rightarrow> nat" where
  "responses_posted w rid = length (filter (\<lambda>p. \<exists>m r s. po_message p = ResponseMsg m rid r s) (wk_posts w))"

definition network_calls :: "worker \<Rightarrow> string \<Rightarrow> nat" where
  "network_calls w rid = length (filter (\<lambda>n. fst n = rid) (wk_network w))"

lemmas count_defs = requests_posted_def responses_posted_def network_calls_def

definition flight_ok :: "worker \<Rightarrow> string \<Rightarrow> phase \<Rightarrow> bool" where
  "flight_ok w rid p \<longleftrightarrow> (let q = requests_posted w rid; r = responses_posted w rid; n = network_calls w rid in
     q \<le> 1 \<and> r \<le> 1 \<and> n \<le> 1 \<and>
     (case p of
        Responded res \<Rightarrow> sp_mocked res \<longrightarrow> q = 1 \<and> n = 0
      | Rejected _ \<Rightarrow> r = 0
      | GotResponse _ res \<Rightarrow> r = 0 \<and> (sp_mocked res \<longrightarrow> q = 1 \<and> n = 0)
      | SerializingForEvents _ res \<Rightarrow> r = 0 \<and> (sp_mocked res \<longrightarrow> q = 1 \<and> n = 0)
      | Fetching _ \<Rightarrow> r = 0
      | AwaitingReply _ \<Rightarrow> r = 0 \<and> q = 1 \<and> n = 0
      | _ \<Rightarrow> r = 0 \<and> q = 0 \<and> n = 0))"

definition worker_ok :: "worker \<Rightarrow> bool" where
  "worker_ok w \<longleftrightarrow>
     (\<forall>rid f. mget (wk_flights w) rid = Some f \<longrightarrow> flight_ok w rid (ft_phase f)) \<and>
     (\<forall>rid. mget (wk_flights w) rid = None \<longrightarrow>
        requests_posted w rid = 0 \<and> responses_posted w rid = 0 \<and> network_calls w rid = 0) \<and>
     (\<forall>rid r. (rid, r) \<in> set (wk_network w) \<longrightarrow>
        (\<exists>f. mget (wk_flights w) rid = Some f \<and> r = passthrough (fv_request (ft_event f))))"

lemma message_counts [simp]:
  "wk_flights (on_client_message src got cs d w) = wk_flights w" "wk_network (on_client_message src got cs d w) = wk_network w"
  "requests_posted (on_client_message src got cs d w) = requests_posted w"
  "responses_posted (on_client_message src got cs d w) = responses_posted w"
  "network_calls (on_client_message src got cs d w) = network_calls w"
  by (auto simp: on_client_message_def handle_message_def count_defs sendToClient_def fun_eq_iff split: option.splits list.splits)

lemma install_counts [simp]:
  "requests_posted (on_install w) = requests_posted w" "responses_posted (on_install w) = responses_posted w"
  "network_calls (on_install w) = network_calls w" "requests_posted (on_activate w) = requests_posted w"
  "responses_posted (on_activate w) = responses_posted w" "network_calls (on_activate w) = network_calls w"
  "wk_flights (on_install w) = wk_flights w" "wk_network (on_install w) = wk_network w"
  "wk_flights (on_activate w) = wk_flights w" "wk_network (on_activate w) = wk_network w"
  by (simp_all add: on_install_def on_activate_def count_defs fun_eq_iff)

lemma fetch_counts [simp]:
  "requests_posted (on_fetch ev rid now w) = requests_posted w"
  "responses_posted (on_fetch ev rid now w) = responses_posted w"
  "network_calls (on_fetch ev rid now w) = network_calls w" "wk_network (on_fetch ev rid now w) = wk_network w"
  by (simp_all add: on_fetch_def count_defs fun_eq_iff)

text \<open>A continuation only posts messages about its own request.\<close>

lemma resume_posts:
  "resume active rid ev t0 p a = Some (p', ms) \<Longrightarrow> m \<in> set ms \<Longrightarrow>
   (\<exists>t r. po_message m = RequestMsg rid t r) \<or> (\<exists>b r s. po_message m = ResponseMsg b rid r s)"
  by (erule resume_Some) (auto simp: sendToClient_def)

lemma answer_counts_other:
  assumes "on_answer rid a w = Some w'" "rid' \<noteq> rid"
  shows "requests_posted w' rid' = requests_posted w rid'" "responses_posted w' rid' = responses_posted w rid'"
    "network_calls w' rid' = network_calls w rid'" "mget (wk_flights w') rid' = mget (wk_flights w) rid'"
proof -
  obtain f p ms where r: "resume (wk_active w) rid (ft_event f) (ft_interceptedAt f) (ft_phase f) a = Some (p, ms)"
    and w': "wk_flights w' = mset_key (wk_flights w) rid (f\<lparr>ft_phase := p\<rparr>)" "wk_posts w' = wk_posts w @ ms"
      "wk_network w' = wk_network w @ (if is_fetching p then [(rid, passthrough (fv_request (ft_event f)))] else [])"
    using assms(1) by (rule on_answer_flights)
  have "filter (\<lambda>p. \<exists>t r. po_message p = RequestMsg rid' t r) ms = []"
    "filter (\<lambda>p. \<exists>m r s. po_message p = ResponseMsg m rid' r s) ms = []"
    using assms(2) by (auto simp: filter_empty_conv dest!: resume_posts [OF r])
  then show "requests_posted w' rid' = requests_posted w rid'" "responses_posted w' rid' = responses_posted w rid'"
    "network_calls w' rid' = network_calls w rid'" "mget (wk_flights w') rid' = mget (wk_flights w) rid'"
    using assms(2) by (simp_all add: count_defs w')
qed

lemma answer_flight_ok:
  assumes "on_answer rid a w = Some w'" "mget (wk_flights w) rid = Some f" "flight_ok w rid (ft_phase f)"
    "mget (wk_flights w') rid = Some f'"
  shows "flight_ok w' rid (ft_phase f')"
proof -
  obtain p ms where r: "resume (wk_active w) rid (ft_event f) (ft_interceptedAt f) (ft_phase f) a = Some (p, ms)"
    and w': "wk_flights w' = mset_key (wk_flights w) rid (f\<lparr>ft_phase := p\<rparr>)" "wk_posts w' = wk_posts w @ ms"
      "wk_network w' = wk_network w @ (if is_fetching p then [(rid, passthrough (fv_request (ft_event f)))] else [])"
    using on_answer_flights [OF assms(1)] assms(2) by (metis option.inject)
  have p: "ft_phase f' = p" using assms(4) by (auto simp: w')
  from r assms(3) show ?thesis
    by (elim resume_Some)
      (auto simp: p flight_ok_def count_defs w' sendToClient_def Let_def is_fetching_def
        resolve_sender_def start_response_def handle_reply_def finish_response_def respondWithMock_def
        split: sum.splits client_reply.splits option.splits if_splits)
qed

lemma worker_step_ok:
  assumes "worker_step e w = Some w'" "worker_ok w"
  shows "worker_ok w'"
proof (cases e)
  case (Fetch ev rid now)
  then have w': "w' = on_fetch ev rid now w" and n: "mget (wk_flights w) rid = None"
    using assms(1) by (auto simp: mhas_def split: if_splits)
  have "flight_ok w rid GettingClient" using assms(2) n by (simp add: worker_ok_def flight_ok_def)
  moreover have "flight_ok w' rid' p = flight_ok w rid' p" for rid' p by (simp add: flight_ok_def w')
  moreover have "(rid, r) \<notin> set (wk_network w)" for r
    using assms(2) n unfolding worker_ok_def by (metis option.distinct(1))
  ultimately show ?thesis using assms(2) n
    by (auto simp: worker_ok_def w') (auto simp: on_fetch_def split: if_splits)
next
  case (Answer rid a)
  then have a: "on_answer rid a w = Some w'" using assms(1) by simp
  then obtain f p ms where f: "mget (wk_flights w) rid = Some f"
    and w': "wk_flights w' = mset_key (wk_flights w) rid (f\<lparr>ft_phase := p\<rparr>)"
      "wk_network w' = wk_network w @ (if is_fetching p then [(rid, passthrough (fv_request (ft_event f)))] else [])"
    by (rule on_answer_flights)
  have "flight_ok w' rid (ft_phase f')" if "mget (wk_flights w') rid = Some f'" for f'
    using answer_flight_ok [OF a f _ that] assms(2) f by (simp add: worker_ok_def)
  moreover have "flight_ok w' rid' p = flight_ok w rid' p" if "rid' \<noteq> rid" for rid' p
    by (simp add: flight_ok_def answer_counts_other [OF a that])
  ultimately have "\<forall>rid f. mget (wk_flights w') rid = Some f \<longrightarrow> flight_ok w' rid (ft_phase f)"
    using assms(2) answer_counts_other(4) [OF a] unfolding worker_ok_def by metis
  moreover have "mget (wk_flights w') rid' = None \<longrightarrow>
      requests_posted w' rid' = 0 \<and> responses_posted w' rid' = 0 \<and> network_calls w' rid' = 0" for rid'
    using assms(2) answer_counts_other [OF a, of rid'] w'(1) unfolding worker_ok_def
    by (cases "rid' = rid") auto
  moreover have "\<exists>f. mget (wk_flights w') rid' = Some f \<and> r = passthrough (fv_request (ft_event f))"
    if "(rid', r) \<in> set (wk_network w')" for rid' r
    using that assms(2) f unfolding w' worker_ok_def by (cases "rid' = rid") (fastforce split: if_splits)+
  ultimately show ?thesis unfolding worker_ok_def by blast
qed (use assms in \<open>auto simp: worker_ok_def flight_ok_def\<close>)

interpretation sw: transition_system "\<lambda>w w'. \<exists>e. worker_step e w = Some w'" worker_ok
  by unfold_locales (auto intro: worker_step_ok)

lemma runs_steps: "worker_runs es w \<Longrightarrow> (\<lambda>w w'. \<exists>e. worker_step e w = Some w')\<^sup>*\<^sup>* initial_worker w"
  by (induction rule: worker_runs.induct) (auto intro: rtranclp.rtrancl_into_rtrancl)

lemma run_worker_ok: "worker_runs es w \<Longrightarrow> worker_ok w"
  by (rule sw.run_inv [OF runs_steps]) (simp_all add: worker_ok_def initial_worker_def count_defs)

section \<open>Properties\<close>

text \<open>
  C18. After any run the worker's set of active clients holds exactly the clients whose last
  attributed message about it was \<open>MOCK_ACTIVATE\<close> and not \<open>CLIENT_CLOSED\<close>, and the worker intercepts
  a request, which is neither a navigation nor a cache probe, exactly when there is such a client.
  A message is attributed when it has a sender with an id and \<open>clients.get\<close> still finds that
  sender; the others are ignored, so that a closing message of a client the registry no longer
  knows leaves it active.
\<close>

theorem active_clients_follow_messages:
  assumes "worker_runs es w"
  shows "(cid \<in> set (wk_active w) \<longleftrightarrow> last_change (concat (map lifecycle es)) cid = Some (Some ())) \<and>
    (intercepts w r \<longleftrightarrow> sr_mode r \<noteq> ''navigate'' \<and> \<not> (sr_cache r = ''only-if-cached'' \<and> sr_mode r \<noteq> ''same-origin'') \<and>
       (\<exists>c. last_change (concat (map lifecycle es)) c = Some (Some ())))"
proof -
  have g: "sget (wk_active w) c = (case last_change (concat (map lifecycle es)) c of None \<Rightarrow> None | Some d \<Rightarrow> d)" for c
    using js.replay_get [of "[]" "concat (map lifecycle es)" c] 
    by (simp add: run_active [OF assms] sget_def [of "[]" c for c] cong: option.case_cong)
  have a: "c \<in> set (wk_active w) \<longleftrightarrow> last_change (concat (map lifecycle es)) c = Some (Some ())" for c
    using g [of c] by (auto simp: sget_def split: option.splits if_splits)
  have "wk_active w \<noteq> [] \<longleftrightarrow> (\<exists>c. c \<in> set (wk_active w))" by (cases "wk_active w") auto
  then show ?thesis by (simp add: a intercepts_def)
qed

definition demo_window :: client where
  "demo_window = \<lparr>cl_id = ''tab1'', cl_frameType = ''top-level'', cl_visibilityState = ''visible''\<rparr>"

definition demo_request :: sw_request where
  "demo_request = \<lparr>sr_url = ''http://localhost:8080/v1/orders'', sr_mode = ''cors'', sr_method = ''POST'',
     sr_headers = [(''accept'', ''*/*'')], sr_cache = ''default'', sr_credentials = ''same-origin'', sr_destination = [],
     sr_integrity = [], sr_redirect = ''follow'', sr_referrer = [], sr_referrerPolicy = [], sr_body = ''{}'',
     sr_keepalive = False\<rparr>"

definition demo_answer :: sw_response where
  "demo_answer = \<lparr>sp_type = ''default'', sp_status = 200, sp_statusText = ''OK'', sp_headers = [], sp_body = Some ''{}'',
     sp_mocked = False\<rparr>"

definition demo_events :: "worker_event list" where
  "demo_events = [Message (Some ''tab1'') (Some demo_window) [demo_window] ''MOCK_ACTIVATE'',
     Fetch \<lparr>fv_clientId = ''tab1'', fv_request = demo_request\<rparr> ''r1'' 0, Answer ''r1'' (SenderIs (Some demo_window)),
     Answer ''r1'' Tick, Answer ''r1'' Tick, Answer ''r1'' (Reply (MockReply demo_answer)), Answer ''r1'' Tick, Answer ''r1'' Tick]"

definition worker_after :: "worker_event list \<Rightarrow> worker" where
  "worker_after es = foldl (\<lambda>w e. the (worker_step e w)) initial_worker es"

fun runnable :: "worker_event list \<Rightarrow> worker \<Rightarrow> bool" where
  "runnable [] w \<longleftrightarrow> True"
| "runnable (e # es) w \<longleftrightarrow> (case worker_step e w of None \<Rightarrow> False | Some w' \<Rightarrow> runnable es w')"

lemma runnable_runs:
  "worker_runs es0 w \<Longrightarrow> runnable es w \<Longrightarrow> worker_runs (es0 @ es) (foldl (\<lambda>w e. the (worker_step e w)) w es)"
proof (induction es arbitrary: es0 w)
  case (Cons e es)
  then obtain w' where "worker_step e w = Some w'" "runnable es w'" by (auto split: option.splits)
  then show ?case using Cons.IH [OF worker_runs.step [OF Cons.prems(1)]] by simp
qed simp

lemma demo_runs: "worker_runs demo_events (worker_after demo_events)"
proof -
  have "runnable demo_events initial_worker" by code_simp
  from runnable_runs [OF worker_runs.start this] show ?thesis by (simp add: worker_after_def)
qed

lemma demo_flight: "mget (wk_flights (worker_after demo_events)) ''r1'' =
  Some \<lparr>ft_event = \<lparr>fv_clientId = ''tab1'', fv_request = demo_request\<rparr>, ft_interceptedAt = 0,
    ft_phase = Responded (demo_answer\<lparr>sp_mocked := True\<rparr>)\<rparr>"
  by code_simp

theorem active_clients_follow_messages_witness:
  "''tab1'' \<in> set (wk_active (worker_after demo_events)) \<and>
   last_change (concat (map lifecycle demo_events)) ''tab1'' = Some (Some ())"
proof -
  have "''tab1'' \<in> set (wk_active (worker_after demo_events))" by code_simp
  then show ?thesis using active_clients_follow_messages [OF demo_runs] by blast
qed

text \<open>
  C17. However the events interleave, the page is asked about an intercepted request at most
  once and told of its response at most once, the network is called for it at most once and
  with the passthrough of that very request, and a request that ends with a mocked response was
  put to the page once and never reached the network.
\<close>

theorem request_handled_once:
  assumes "worker_runs es w" "mget (wk_flights w) rid = Some f"
  shows "requests_posted w rid \<le> 1 \<and> responses_posted w rid \<le> 1 \<and> network_calls w rid \<le> 1 \<and>
    (\<forall>r. (rid, r) \<in> set (wk_network w) \<longrightarrow> r = passthrough (fv_request (ft_event f))) \<and>
    (\<forall>res. ft_phase f = Responded res \<and> sp_mocked res \<longrightarrow> requests_posted w rid = 1 \<and> network_calls w rid = 0)"
proof -
  have ok: "worker_ok w" using assms(1) by (rule run_worker_ok)
  then have "flight_ok w rid (ft_phase f)" using assms(2) by (simp add: worker_ok_def)
  moreover have "r = passthrough (fv_request (ft_event f))" if "(rid, r) \<in> set (wk_network w)" for r
    using ok that assms(2) unfolding worker_ok_def by (metis option.inject)
  ultimately show ?thesis by (auto simp: flight_ok_def Let_def split: phase.splits)
qed

theorem request_handled_once_witness:
  "requests_posted (worker_after demo_events) ''r1'' = 1 \<and> network_calls (worker_after demo_events) ''r1'' = 0"
  using request_handled_once [OF demo_runs demo_flight] by (simp add: demo_answer_def)

text \<open>
  C19. A request handed to the network differs from the intercepted one only in its accept
  header: the values of that header, read as a comma separated list, are the same without the
  marker \<open>msw/passthrough\<close>, and the header disappears exactly when nothing else was in it.
\<close>

theorem passthrough_drops_the_marker:
  assumes "mget (sr_headers r) ''accept'' = Some v" "v \<noteq> []"
  shows "(case mget (sr_headers (passthrough r)) ''accept'' of
       None \<Rightarrow> \<forall>x\<in>set (accept_values v). x = ''msw/passthrough''
     | Some v' \<Rightarrow> accept_values v' = filter (\<lambda>x. x \<noteq> ''msw/passthrough'') (accept_values v) \<and> accept_values v' \<noteq> []) \<and>
    (\<forall>k. k \<noteq> ''accept'' \<longrightarrow> mget (sr_headers (passthrough r)) k = mget (sr_headers r) k) \<and>
    (passthrough r)\<lparr>sr_headers := sr_headers r\<rparr> = r"
proof -
  let ?vs = "filter (\<lambda>x. x \<noteq> ''msw/passthrough'') (accept_values v)"
  obtain c cs where v: "v = c # cs" using assms(2) by (cases v) auto
  have "accept_values (join_with '', '' ?vs) = ?vs" if "?vs \<noteq> []"
    using that accept_values_clean by (intro accept_join) auto
  then show ?thesis using assms(1)
    by (auto simp: passthrough_def passthrough_headers_def v Let_def filter_empty_conv simp del: mget_None_iff)
qed

theorem passthrough_drops_the_marker_witness:
  "\<exists>v'. mget (sr_headers (passthrough (demo_request\<lparr>sr_headers := [(''accept'', ''*/*, msw/passthrough'')]\<rparr>))) ''accept'' = Some v' \<and>
     accept_values v' = [''*/*'']"
proof -
  have a: "accept_values ''*/*, msw/passthrough'' = [''*/*'', ''msw/passthrough'']" by code_simp
  show ?thesis
    using passthrough_drops_the_marker [of "demo_request\<lparr>sr_headers := [(''accept'', ''*/*, msw/passthrough'')]\<rparr>" "''*/*, msw/passthrough''"]
    by (auto simp: a simp del: mget_None_iff split: option.splits)
qed

end
