(* ===== verification/MockBackend.thy ===== *)
theory MockBackend
  imports MockApi Session
begin

text \<open>
  The REST client of the web application against the mock exchange: the list \<open>handlers\<close> of
  \<^verbatim>\<open>web/mocks/handlers.ts\<close> with its methods and path patterns in the order the code has them,
  the dispatch of a request to the first handler that matches, and the answer as the client's
  \<open>request\<close> sees it. How a path pattern is matched is decided by the mocking library, so the
  matcher is a parameter with the documented behaviour of patterns as its laws: a literal
  pattern matches its own path, a last segment \<open>:name\<close> matches one non-empty segment and binds
  it, a query string is ignored. The laws speak of paths made of lower-case letters, digits,
  hyphens and underscores.
\<close>

section \<open>Query strings\<close>

definition hex_val :: "char \<Rightarrow> nat" where
  "hex_val c = (let n = (of_char c :: nat) in
     if 48 \<le> n \<and> n \<le> 57 then n - 48 else if 65 \<le> n \<and> n \<le> 70 then n - 55
     else if 97 \<le> n \<and> n \<le> 102 then n - 87 else 16)"

text \<open>The form decoding of \<open>URLSearchParams\<close>: a percent sign that starts no escape stays.\<close>

fun form_decode :: "string \<Rightarrow> string" where
  "form_decode [] = []"
| "form_decode (c # s) =
     (if c = CHR ''+'' then CHR '' '' # form_decode s
      else if c = CHR 0x25 then
        (case s of a # b # r \<Rightarrow>
           if hex_val a < 16 \<and> hex_val b < 16 then char_of (16 * hex_val a + hex_val b) # form_decode r
           else c # form_decode s
         | _ \<Rightarrow> c # form_decode s)
      else c # form_decode s)"

definition query_pair :: "string \<Rightarrow> string \<times> string" where
  "query_pair s = (form_decode (takeWhile (\<lambda>c. c \<noteq> CHR ''='') s), form_decode (drop 1 (dropWhile (\<lambda>c. c \<noteq> CHR ''='') s)))"

definition query_pairs :: "string \<Rightarrow> (string \<times> string) list" where
  "query_pairs q = map query_pair (filter (\<lambda>s. s \<noteq> []) (split_at (CHR ''&'') q))"

definition url_query :: "string \<Rightarrow> string" where
  "url_query url = drop 1 (dropWhile (\<lambda>c. c \<noteq> CHR ''?'') url)"

text \<open>\<open>new URL(url).searchParams.get(name)\<close>.\<close>

definition search_get :: "string \<Rightarrow> string \<Rightarrow> string option" where
  "search_get url name = map_of (query_pairs (url_query url)) name"

section \<open>The handlers\<close>

datatype endpoint =
    EMarkets | EOrderbook | ETrades | EFunding | EPlaceOrder | ECancelOrder | EOpenOrders
  | EPositions | EFills | EBalance | ESiweNonce | ESiweVerify

definition handlers :: "(http_method \<times> string \<times> endpoint) list" where
  "handlers =
     [(GET, ''/v1/markets'', EMarkets),
      (GET, ''/v1/orderbook/:marketId'', EOrderbook),
      (GET, ''/v1/trades/:marketId'', ETrades),
      (GET, ''/v1/funding/:marketId'', EFunding),
      (POST, ''/v1/orders'', EPlaceOrder),
      (DELETE, ''/v1/orders/:orderId'', ECancelOrder),
      (GET, ''/v1/orders/open'', EOpenOrders),
      (GET, ''/v1/positions'', EPositions),
      (GET, ''/v1/fills'', EFills),
      (GET, ''/v1/account/balance'', EBalance),
      (POST, ''/v1/auth/siwe/nonce'', ESiweNonce),
      (POST, ''/v1/auth/siwe/verify'', ESiweVerify)]"

type_synonym matcher = "string \<Rightarrow> string \<Rightarrow> (string, string) jmap option"

text \<open>The first handler whose method and pattern match; patterns and URLs start with the same base.\<close>

fun dispatch :: "matcher \<Rightarrow> string \<Rightarrow> http_method \<Rightarrow> string \<Rightarrow> (http_method \<times> string \<times> endpoint) list
    \<Rightarrow> (endpoint \<times> (string, string) jmap) option" where
  "dispatch matches base meth path [] = None"
| "dispatch matches base meth path ((m, pat, e) # hs) =
     (if m = meth then
        (case matches (base @ pat) (base @ path) of Some ps \<Rightarrow> Some (e, ps)
         | None \<Rightarrow> dispatch matches base meth path hs)
      else dispatch matches base meth path hs)"

text \<open>What the handlers draw: the suffixes of an order, the nonce and the suffix of a token.\<close>

record backend_draws =
  bd_order :: order_draws
  bd_nonce :: string
  bd_jwt :: string
  bd_now :: int

definition param :: "(string, string) jmap \<Rightarrow> string \<Rightarrow> string" where
  "param ps k = (case mget ps k of None \<Rightarrow> ''undefined'' | Some v \<Rightarrow> v)"

fun run_handler :: "endpoint \<Rightarrow> (string, string) jmap \<Rightarrow> api_request \<Rightarrow> backend_draws \<Rightarrow> mock_state
    \<Rightarrow> (js_error, mock_state \<times> mock_response) result" where
  "run_handler EMarkets ps req dr st = Return (st, getMarkets st)"
| "run_handler EOrderbook ps req dr st = map_sum id (Pair st) (getOrderbook st (param ps ''marketId'') (bd_now dr))"
| "run_handler ETrades ps req dr st =
     map_sum id (Pair st) (getTrades st (param ps ''marketId'') (search_get (ar_path req) ''limit''))"
| "run_handler EFunding ps req dr st = map_sum id (Pair st) (getFunding st (param ps ''marketId''))"
| "run_handler EPlaceOrder ps req dr st = (case ar_body req of
       OrderBody body \<Rightarrow> postOrder st (market_id_str (rq_marketId body)) body (bd_order dr) (bd_now dr)
     | _ \<Rightarrow> Throw (SyntaxError ''request body''))"
| "run_handler ECancelOrder ps req dr st = Return (deleteOrder st (param ps ''orderId''))"
| "run_handler EOpenOrders ps req dr st = Return (st, getOpenOrders st)"
| "run_handler EPositions ps req dr st = getPositions st (bd_now dr)"
| "run_handler EFills ps req dr st =
     Return (st, getFills st (search_get (ar_path req) ''marketId'') (search_get (ar_path req) ''limit''))"
| "run_handler EBalance ps req dr st = Return (st, getBalance st)"
| "run_handler ESiweNonce ps req dr st = Return (st, siweNonce (bd_nonce dr))"
| "run_handler ESiweVerify ps req dr st = Return (siweVerify st (bd_jwt dr) (bd_now dr))"

text \<open>\<open>None\<close>: no handler, the request goes on to the network.\<close>

definition mock_serve :: "matcher \<Rightarrow> string \<Rightarrow> backend_draws \<Rightarrow> mock_state \<Rightarrow> api_request
    \<Rightarrow> (js_error, mock_state \<times> mock_response) result option" where
  "mock_serve matches base dr st req = map_option (\<lambda>(e, ps). run_handler e ps req dr st)
     (dispatch matches base (ar_method req) (ar_path req) handlers)"

definition as_response :: "(int \<Rightarrow> string) \<Rightarrow> mock_response \<Rightarrow> mock_body http_response" where
  "as_response status_text r = \<lparr>hr_status = rs_status r, hr_statusText = status_text (rs_status r),
     hr_payload = Json (rs_body r)\<rparr>"

section \<open>The contract of the path matcher\<close>

definition path_char :: "char \<Rightarrow> bool" where
  "path_char c \<longleftrightarrow> is_digit c \<or> (97 \<le> (of_char c :: nat) \<and> (of_char c :: nat) \<le> 122) \<or> c = CHR ''-'' \<or> c = CHR ''_''"

definition path_of :: "string list \<Rightarrow> string" where
  "path_of segs = concat (map (\<lambda>s. CHR ''/'' # s) segs)"

definition seg_ok :: "string \<Rightarrow> bool" where
  "seg_ok s \<longleftrightarrow> s \<noteq> [] \<and> list_all path_char s"

definition query_ok :: "string \<Rightarrow> bool" where
  "query_ok q \<longleftrightarrow> q = [] \<or> hd q = CHR ''?''"

lemma handlers_paths: "handlers =
  [(GET, path_of [''v1'', ''markets''], EMarkets),
   (GET, path_of [''v1'', ''orderbook''] @ CHR ''/'' # CHR '':'' # ''marketId'', EOrderbook),
   (GET, path_of [''v1'', ''trades''] @ CHR ''/'' # CHR '':'' # ''marketId'', ETrades),
   (GET, path_of [''v1'', ''funding''] @ CHR ''/'' # CHR '':'' # ''marketId'', EFunding),
   (POST, path_of [''v1'', ''orders''], EPlaceOrder),
   (DELETE, path_of [''v1'', ''orders''] @ CHR ''/'' # CHR '':'' # ''orderId'', ECancelOrder),
   (GET, path_of [''v1'', ''orders'', ''open''], EOpenOrders),
   (GET, path_of [''v1'', ''positions''], EPositions),
   (GET, path_of [''v1'', ''fills''], EFills),
   (GET, path_of [''v1'', ''account'', ''balance''], EBalance),
   (POST, path_of [''v1'', ''auth'', ''siwe'', ''nonce''], ESiweNonce),
   (POST, path_of [''v1'', ''auth'', ''siwe'', ''verify''], ESiweVerify)]"
  by (simp add: handlers_def path_of_def)

lemma handler_segs:
  "list_all seg_ok [''v1'', ''markets'']" "list_all seg_ok [''v1'', ''orderbook'']" "list_all seg_ok [''v1'', ''trades'']"
  "list_all seg_ok [''v1'', ''funding'']" "list_all seg_ok [''v1'', ''orders'']" "list_all seg_ok [''v1'', ''orders'', ''open'']"
  "list_all seg_ok [''v1'', ''positions'']" "list_all seg_ok [''v1'', ''fills'']"
  "list_all seg_ok [''v1'', ''account'', ''balance'']" "list_all seg_ok [''v1'', ''auth'', ''siwe'', ''nonce'']"
  "list_all seg_ok [''v1'', ''auth'', ''siwe'', ''verify'']" "list_all is_word_char ''marketId''"
  "list_all is_word_char ''orderId''" "''marketId'' \<noteq> []" "''orderId'' \<noteq> []"
  by (simp_all add: seg_ok_def path_char_def is_digit_def is_word_char_def)

text \<open>The endpoint of a path given by its segments, and the parameter it binds.\<close>

definition route :: "http_method \<Rightarrow> string list \<Rightarrow> (endpoint \<times> (string, string) jmap) option" where
  "route meth segs =
    (if meth = GET then
       if segs = [''v1'', ''markets''] then Some (EMarkets, [])
       else if segs \<noteq> [] \<and> butlast segs = [''v1'', ''orderbook''] then Some (EOrderbook, [(''marketId'', last segs)])
       else if segs \<noteq> [] \<and> butlast segs = [''v1'', ''trades''] then Some (ETrades, [(''marketId'', last segs)])
       else if segs \<noteq> [] \<and> butlast segs = [''v1'', ''funding''] then Some (EFunding, [(''marketId'', last segs)])
       else if segs = [''v1'', ''orders'', ''open''] then Some (EOpenOrders, [])
       else if segs = [''v1'', ''positions''] then Some (EPositions, [])
       else if segs = [''v1'', ''fills''] then Some (EFills, [])
       else if segs = [''v1'', ''account'', ''balance''] then Some (EBalance, [])
       else None
     else if meth = POST then
       if segs = [''v1'', ''orders''] then Some (EPlaceOrder, [])
       else if segs = [''v1'', ''auth'', ''siwe'', ''nonce''] then Some (ESiweNonce, [])
       else if segs = [''v1'', ''auth'', ''siwe'', ''verify''] then Some (ESiweVerify, [])
       else None
     else if segs \<noteq> [] \<and> butlast segs = [''v1'', ''orders''] then Some (ECancelOrder, [(''orderId'', last segs)])
     else None)"

locale path_matcher =
  fixes matches :: "string \<Rightarrow> string \<Rightarrow> (string, string) jmap option"
    and base :: string
  assumes literal: "list_all seg_ok pat \<Longrightarrow> list_all seg_ok segs \<Longrightarrow> query_ok q \<Longrightarrow>
      matches (base @ path_of pat) (base @ path_of segs @ q) = (if segs = pat then Some [] else None)"
    and parameter: "list_all seg_ok pat \<Longrightarrow> list_all seg_ok segs \<Longrightarrow> query_ok q \<Longrightarrow> name \<noteq> [] \<Longrightarrow>
      list_all is_word_char name \<Longrightarrow>
      matches (base @ path_of pat @ ''/:'' @ name) (base @ path_of segs @ q) =
        (if segs \<noteq> [] \<and> butlast segs = pat then Some [(name, last segs)] else None)"
begin

text \<open>The two kinds of pattern the handlers have.\<close>

lemma dispatch_literal:
  assumes "list_all seg_ok pat" "list_all seg_ok segs" "query_ok q"
  shows "dispatch matches base meth (path_of segs @ q) ((m, path_of pat, e) # hs) =
    (if m = meth \<and> segs = pat then Some (e, []) else dispatch matches base meth (path_of segs @ q) hs)"
  using literal [OF assms] by (cases "segs = pat") auto

lemma dispatch_parameter:
  assumes "list_all seg_ok pat" "list_all seg_ok segs" "query_ok q" "name \<noteq> []" "list_all is_word_char name"
  shows "dispatch matches base meth (path_of segs @ q) ((m, path_of pat @ CHR ''/'' # CHR '':'' # name, e) # hs) =
    (if m = meth \<and> segs \<noteq> [] \<and> butlast segs = pat then Some (e, [(name, last segs)])
     else dispatch matches base meth (path_of segs @ q) hs)"
  using parameter [OF assms] by (cases "segs \<noteq> [] \<and> butlast segs = pat") auto

lemma dispatch_handlers:
  assumes "list_all seg_ok segs" "query_ok q"
  shows "dispatch matches base meth (path_of segs @ q) handlers = route meth segs"
  unfolding handlers_paths route_def
  by (cases meth)
    (simp_all only: dispatch_literal [OF _ assms] dispatch_parameter [OF _ assms] handler_segs dispatch.simps(1)
      http_method.distinct simp_thms if_True if_False)

end

section \<open>A matcher by segments\<close>

text \<open>
  A matcher that compares segment by segment obeys the laws for the development base URL, so
  that what follows from them is not empty.
\<close>

fun match_segs :: "string list \<Rightarrow> string list \<Rightarrow> (string, string) jmap option" where
  "match_segs [] [] = Some []"
| "match_segs (p # ps) (u # us) =
     (if p \<noteq> [] \<and> hd p = CHR '':'' then (if u = [] then None else map_option (Cons (tl p, u)) (match_segs ps us))
      else if p = u then match_segs ps us else None)"
| "match_segs [] (u # us) = None"
| "match_segs (p # ps) [] = None"

definition segment_match :: matcher where
  "segment_match pat url =
     match_segs (split_at (CHR ''/'') pat) (split_at (CHR ''/'') (takeWhile (\<lambda>c. c \<noteq> CHR ''?'') url))"

lemma split_at_join: "split_at c (s @ c # t) = split_at c s @ split_at c t"
  by (induction s) (auto split: list.split)

lemma path_char_free: "path_char c \<Longrightarrow> c \<noteq> CHR ''/'' \<and> c \<noteq> CHR ''?'' \<and> c \<noteq> CHR '':''"
  by (auto simp: path_char_def is_digit_def)

lemma seg_ok_free: "seg_ok s \<Longrightarrow> CHR ''/'' \<notin> set s \<and> CHR ''?'' \<notin> set s \<and> CHR '':'' \<notin> set s \<and> s \<noteq> []"
  using path_char_free by (auto simp: seg_ok_def list_all_iff)

lemma seg_ok_hd: "seg_ok s \<Longrightarrow> hd s \<noteq> CHR '':''"
  using path_char_free by (cases s) (auto simp: seg_ok_def)

lemma split_at_path:
  "list_all (\<lambda>s. CHR ''/'' \<notin> set s) segs \<Longrightarrow> split_at (CHR ''/'') (b @ path_of segs) = split_at (CHR ''/'') b @ segs"
proof (induction segs rule: rev_induct)
  case (snoc x xs)
  then show ?case using split_at_join [of "CHR ''/''" "b @ path_of xs" x]
    by (simp add: path_of_def split_at_absent)
qed (simp add: path_of_def)

lemma takeWhile_query:
  "CHR ''?'' \<notin> set p \<Longrightarrow> query_ok q \<Longrightarrow> takeWhile (\<lambda>c. c \<noteq> CHR ''?'') (p @ q) = p"
proof -
  assume p: "CHR ''?'' \<notin> set p" and q: "query_ok q"
  then have "takeWhile (\<lambda>c. c \<noteq> CHR ''?'') (p @ q) = p @ takeWhile (\<lambda>c. c \<noteq> CHR ''?'') q"
    by (intro takeWhile_append2) auto
  then show ?thesis using q by (cases q) (auto simp: query_ok_def)
qed

lemma path_of_no_query: "list_all seg_ok segs \<Longrightarrow> CHR ''?'' \<notin> set (path_of segs)"
  by (induction segs) (auto simp: path_of_def seg_ok_free)

lemma match_segs_prefix:
  "list_all (\<lambda>p. p = [] \<or> hd p \<noteq> CHR '':'') bs \<Longrightarrow> match_segs (bs @ ps) (bs @ us) = match_segs ps us"
  by (induction bs) auto

lemma match_segs_literal:
  "list_all seg_ok ps \<Longrightarrow> match_segs ps us = (if us = ps then Some [] else None)"
proof (induction ps us rule: match_segs.induct)
  case (2 p ps u us)
  then have "hd p \<noteq> CHR '':''" by (simp add: seg_ok_hd)
  with 2 show ?case by auto
qed auto

lemma match_segs_parameter:
  "list_all seg_ok ps \<Longrightarrow> list_all seg_ok us \<Longrightarrow>
   match_segs (ps @ [CHR '':'' # name]) us = (if us \<noteq> [] \<and> butlast us = ps then Some [(name, last us)] else None)"
proof (induction ps us rule: match_segs.induct)
  case (2 p ps u us)
  then have "hd p \<noteq> CHR '':''" by (simp add: seg_ok_hd)
  with 2 show ?case by auto
next
  case (3 u us)
  then show ?case using seg_ok_free [of u] by (cases us) auto
next
  case (4 p ps)
  then show ?case by simp
qed simp

lemma base_split: "split_at (CHR ''/'') ''http://localhost:8080'' = [''http:'', [], ''localhost:8080'']"
  by simp

interpretation sm: path_matcher segment_match "API_BASE None"
proof unfold_locales
  fix pat segs :: "string list" and q name :: string
  assume ok: "list_all seg_ok pat" "list_all seg_ok segs" "query_ok q"
  let ?b = "''http://localhost:8080''"
  have free: "list_all (\<lambda>s. CHR ''/'' \<notin> set s) pat" "list_all (\<lambda>s. CHR ''/'' \<notin> set s) segs"
    using ok(1,2) seg_ok_free by (auto simp: list_all_iff)
  have "CHR ''?'' \<notin> set (?b @ path_of segs)" using path_of_no_query [OF ok(2)] by simp
  then have url: "takeWhile (\<lambda>c. c \<noteq> CHR ''?'') (?b @ path_of segs @ q) = ?b @ path_of segs"
    using takeWhile_query [of "?b @ path_of segs" q] ok(3) by simp
  have pre: "match_segs (split_at (CHR ''/'') ?b @ ps) (split_at (CHR ''/'') ?b @ us) = match_segs ps us" for ps us
    by (rule match_segs_prefix) simp
  show "segment_match (API_BASE None @ path_of pat) (API_BASE None @ path_of segs @ q) = (if segs = pat then Some [] else None)"
    unfolding segment_match_def API_BASE_def option.case url split_at_path [OF free(1)] split_at_path [OF free(2)] pre
    by (rule match_segs_literal [OF ok(1)])
  assume name: "name \<noteq> []" "list_all is_word_char name"
  have "CHR ''/'' \<notin> set name" using name(2) by (auto simp: list_all_iff is_word_char_def)
  then have "list_all (\<lambda>s. CHR ''/'' \<notin> set s) (pat @ [CHR '':'' # name])" using free(1) by simp
  from split_at_path [OF this, of ?b]
  have pat: "split_at (CHR ''/'') (?b @ path_of pat @ ''/:'' @ name) = split_at (CHR ''/'') ?b @ pat @ [CHR '':'' # name]"
    by (simp add: path_of_def)
  show "segment_match (API_BASE None @ path_of pat @ ''/:'' @ name) (API_BASE None @ path_of segs @ q) =
      (if segs \<noteq> [] \<and> butlast segs = pat then Some [(name, last segs)] else None)"
    unfolding segment_match_def API_BASE_def option.case url pat split_at_path [OF free(2)] pre
    by (rule match_segs_parameter [OF ok(1,2)])
qed

section \<open>Lemmas\<close>

subsection \<open>Query strings\<close>

lemma hex_val_digit: "n < 16 \<Longrightarrow> hex_val (hex_digit n) = n"
  by (auto simp: hex_val_def hex_digit_def Let_def)

lemma form_decode_char: "form_decode (form_char c @ s) = c # form_decode s"
proof (cases "form_char c = [c]")
  case True
  moreover have "c \<noteq> CHR ''+''" "c \<noteq> CHR 0x25" using True by (auto simp: form_char_def is_digit_def hex_digit_def)
  ultimately show ?thesis by simp
next
  case False
  define n where "n = (of_char c :: nat)"
  show ?thesis
  proof (cases "n = 32")
    case True
    then have "of_char c = (of_char (CHR '' '') :: nat)" by (simp add: n_def)
    then have "c = CHR '' ''" by (simp only: of_char_eq_iff)
    then show ?thesis by (simp add: form_char_def is_digit_def)
  next
    case n32: False
    then have fc: "form_char c = [CHR 0x25, hex_digit (n div 16), hex_digit (n mod 16)]"
      using False by (auto simp: form_char_def n_def Let_def split: if_splits)
    have "n < 256" unfolding n_def by (metis of_char_mod_256 mod_less_divisor zero_less_numeral)
    then have "hex_val (hex_digit (n div 16)) = n div 16" "hex_val (hex_digit (n mod 16)) = n mod 16" "n div 16 < 16"
      by (auto intro!: hex_val_digit)
    then show ?thesis unfolding fc by (simp add: n_def)
  qed
qed

lemma form_decode_encode: "form_decode (form_encode s @ t) = s @ form_decode t"
  by (induction s) (simp_all add: form_encode_def form_decode_char)

lemma form_encode_free: "c \<in> {CHR ''&'', CHR ''='', CHR ''?'', CHR ''#''} \<Longrightarrow> c \<notin> set (form_encode s)"
proof -
  assume c: "c \<in> {CHR ''&'', CHR ''='', CHR ''?'', CHR ''#''}"
  have "c \<noteq> hex_digit n" if "n < 16" for n
    using c that hex_val_digit [OF that] by (auto simp: hex_val_def)
  moreover have "(of_char x :: nat) div 16 < 16" for x :: char
  proof -
    have "(of_char x :: nat) < 256" by (metis of_char_mod_256 mod_less_divisor zero_less_numeral)
    then show ?thesis by (rule less_mult_imp_div_less [of _ 16 16, simplified])
  qed
  ultimately have "c \<notin> set (form_char x)" for x
    using c by (auto simp: form_char_def is_digit_def Let_def split: if_splits)
  then show ?thesis by (auto simp: form_encode_def)
qed

lemma query_string_split:
  "kvs \<noteq> [] \<Longrightarrow> split_at (CHR ''&'') (query_string kvs) = map (\<lambda>(k, v). form_encode k @ ''='' @ form_encode v) kvs"
proof (induction kvs rule: query_string.induct)
  case (2 k v)
  then show ?case by (simp add: split_at_absent form_encode_free)
next
  case (3 k v kv kvs)
  have "split_at (CHR ''&'') ((form_encode k @ ''='' @ form_encode v) @ CHR ''&'' # query_string (kv # kvs)) =
      (form_encode k @ ''='' @ form_encode v) # split_at (CHR ''&'') (query_string (kv # kvs))"
    by (rule split_at_append) (simp add: form_encode_free)
  with 3 show ?case by simp
qed simp

lemma query_pair_encoded: "query_pair (form_encode k @ CHR ''='' # form_encode v) = (k, v)"
proof -
  have "\<forall>c\<in>set (form_encode k). c \<noteq> CHR ''=''" using form_encode_free [of "CHR ''=''" k] by auto
  then show ?thesis
    using form_decode_encode [of k "[]"] form_decode_encode [of v "[]"]
    by (simp add: query_pair_def takeWhile_append2 dropWhile_append2)
qed

text \<open>Reading a parameter of a query that \<open>URLSearchParams\<close> wrote.\<close>

lemma search_get_query:
  assumes "CHR ''?'' \<notin> set path"
  shows "search_get (path @ ''?'' @ query_string kvs) k = map_of kvs k"
proof -
  have "\<forall>c\<in>set path. c \<noteq> CHR ''?''" using assms by auto
  then have u: "url_query (path @ ''?'' @ query_string kvs) = query_string kvs"
    by (simp add: url_query_def dropWhile_append2)
  show ?thesis
  proof (cases "kvs = []")
    case False
    have "filter (\<lambda>s. s \<noteq> []) (map (\<lambda>(k, v). form_encode k @ ''='' @ form_encode v) kvs) =
        map (\<lambda>(k, v). form_encode k @ ''='' @ form_encode v) kvs"
      by (rule filter_True) auto
    then have "query_pairs (query_string kvs) = map (query_pair \<circ> (\<lambda>(k, v). form_encode k @ ''='' @ form_encode v)) kvs"
      by (simp add: query_pairs_def query_string_split [OF False])
    also have "\<dots> = kvs" by (rule map_idI) (auto simp: query_pair_encoded)
    finally show ?thesis unfolding search_get_def u by simp
  qed (use u in \<open>simp add: search_get_def query_pairs_def\<close>)
qed

subsection \<open>The requests of the client\<close>

lemma market_seg_ok [simp]: "seg_ok (market_id_str m)"
  by (cases m) (simp_all add: seg_ok_def path_char_def is_digit_def)

lemma v1_segs [simp]: "seg_ok ''markets''" "seg_ok ''positions''" "seg_ok ''fills''" "seg_ok ''open''" "seg_ok ''account''"
  "seg_ok ''balance''" "seg_ok ''auth''" "seg_ok ''siwe''" "seg_ok ''nonce''" "seg_ok ''verify''"
  "seg_ok ''v1''" "seg_ok ''orderbook''" "seg_ok ''trades''" "seg_ok ''funding''" "seg_ok ''orders''"
  using handler_segs by simp_all

lemma api_paths:
  "ar_path api_markets = path_of [''v1'', ''markets''] @ []"
  "ar_path (api_orderbook m d) = path_of [''v1'', ''orderbook'', market_id_str m] @ ''?depth='' @ depth_str d"
  "ar_path (api_trades m l bf) = path_of [''v1'', ''trades'', market_id_str m] @ ''?'' @
     query_string ((''limit'', num_str l) # truthy_param ''before'' bf)"
  "ar_path (api_funding m w) = path_of [''v1'', ''funding'', market_id_str m] @ ''?range='' @ w"
  "ar_path (api_placeOrder body) = path_of [''v1'', ''orders''] @ []"
  "ar_path (api_cancelOrder oid) = path_of [''v1'', ''orders'', oid] @ []"
  "ar_path api_openOrders = path_of [''v1'', ''orders'', ''open''] @ []"
  "ar_path api_positions = path_of [''v1'', ''positions''] @ []"
  "ar_path api_balance = path_of [''v1'', ''account'', ''balance''] @ []"
  "ar_path (api_siweNonce a) = path_of [''v1'', ''auth'', ''siwe'', ''nonce''] @ []"
  "ar_path (api_siweVerify msg sig) = path_of [''v1'', ''auth'', ''siwe'', ''verify''] @ []"
  by (simp_all add: path_of_def get_req_def api_markets_def api_orderbook_def api_trades_def api_funding_def
      api_placeOrder_def api_cancelOrder_def api_openOrders_def api_positions_def api_balance_def
      api_siweNonce_def api_siweVerify_def)

lemma query_ok_simps [simp]: "query_ok []" "query_ok (CHR ''?'' # q)"
  by (simp_all add: query_ok_def)

lemma api_methods [simp]:
  "ar_method api_markets = GET" "ar_method (api_orderbook m d) = GET" "ar_method (api_trades m l bf) = GET"
  "ar_method (api_funding m w) = GET" "ar_method (api_placeOrder body) = POST" "ar_method (api_cancelOrder oid) = DELETE"
  "ar_method api_openOrders = GET" "ar_method api_positions = GET" "ar_method (api_fills mo lo bf) = GET"
  "ar_method api_balance = GET" "ar_method (api_siweNonce a) = POST" "ar_method (api_siweVerify msg sig) = POST"
  by (simp_all add: get_req_def api_markets_def api_orderbook_def api_trades_def api_funding_def Let_def
      api_placeOrder_def api_cancelOrder_def api_openOrders_def api_positions_def api_fills_def api_balance_def
      api_siweNonce_def api_siweVerify_def)

lemma limit_texts: "int_str 100 = ''100''" "int_str 50 = ''50''"
  by code_simp+

lemma api_fills_path:
  "ar_path (api_fills m (Some (Fin 100)) None) = path_of [''v1'', ''fills''] @ ''?'' @
     query_string ((case m of None \<Rightarrow> [] | Some i \<Rightarrow> [(''marketId'', market_id_str i)]) @ [(''limit'', ''100'')])"
  using num_str_int [of 100]
  by (cases m) (simp_all add: api_fills_def get_req_def path_of_def truthy_param_def truthy_def form_encode_def limit_texts)

lemma read_limits: "to_number ''100'' = Fin 100" "to_number ''50'' = Fin 50"
  using to_number_int_str [of 100] to_number_int_str [of 50] by (simp_all add: limit_texts)

lemma routes:
  "route GET [''v1'', ''markets''] = Some (EMarkets, [])"
  "route GET [''v1'', ''orderbook'', x] = Some (EOrderbook, [(''marketId'', x)])"
  "route GET [''v1'', ''trades'', x] = Some (ETrades, [(''marketId'', x)])"
  "route GET [''v1'', ''funding'', x] = Some (EFunding, [(''marketId'', x)])"
  "route POST [''v1'', ''orders''] = Some (EPlaceOrder, [])"
  "route DELETE [''v1'', ''orders'', x] = Some (ECancelOrder, [(''orderId'', x)])"
  "route GET [''v1'', ''orders'', ''open''] = Some (EOpenOrders, [])"
  "route GET [''v1'', ''positions''] = Some (EPositions, [])"
  "route GET [''v1'', ''fills''] = Some (EFills, [])"
  "route GET [''v1'', ''account'', ''balance''] = Some (EBalance, [])"
  "route POST [''v1'', ''auth'', ''siwe'', ''nonce''] = Some (ESiweNonce, [])"
  "route POST [''v1'', ''auth'', ''siwe'', ''verify''] = Some (ESiweVerify, [])"
  by (simp_all add: route_def)

context path_matcher
begin

lemma serve:
  assumes "ar_path req = path_of segs @ q" "list_all seg_ok segs" "query_ok q"
  shows "mock_serve matches base dr st req = map_option (\<lambda>(e, ps). run_handler e ps req dr st) (route (ar_method req) segs)"
  using dispatch_handlers [OF assms(2,3)] by (simp add: mock_serve_def assms(1))

text \<open>Every query of the application reaches the handler of its endpoint.\<close>

lemma serve_query:
  "mock_serve matches base dr st (query_fn qy) = Some (case qy of
       QMarkets \<Rightarrow> Return (st, getMarkets st)
     | QOrderbook m \<Rightarrow> map_sum id (Pair st) (getOrderbook st (market_id_str m) (bd_now dr))
     | QTrades m \<Rightarrow> map_sum id (Pair st) (getTrades st (market_id_str m) (Some ''50''))
     | QFunding m \<Rightarrow> map_sum id (Pair st) (getFunding st (market_id_str m))
     | QOpenOrders \<Rightarrow> Return (st, getOpenOrders st)
     | QPositions \<Rightarrow> getPositions st (bd_now dr)
     | QFills m \<Rightarrow> Return (st, getFills st (map_option market_id_str m) (Some ''100''))
     | QBalance \<Rightarrow> Return (st, getBalance st))"
proof (cases qy)
  case (QTrades m)
  have "CHR ''?'' \<notin> set (path_of [''v1'', ''trades'', market_id_str m])" by (rule path_of_no_query) simp
  from search_get_query [OF this, of "[(''limit'', ''50'')]" "''limit''"]
  have l: "search_get (ar_path (query_fn qy)) ''limit'' = Some ''50''"
    by (simp add: QTrades api_paths truthy_param_def limit_texts)
  show ?thesis unfolding QTrades query_fn.simps query.case
    using l by (simp add: serve [OF api_paths(3)] routes QTrades param_def)
next
  case (QFills m)
  let ?kvs = "(case m of None \<Rightarrow> [] | Some i \<Rightarrow> [(''marketId'', market_id_str i)]) @ [(''limit'', ''100'')]"
  have "CHR ''?'' \<notin> set (path_of [''v1'', ''fills''])" by (rule path_of_no_query) (simp add: handler_segs)
  from search_get_query [OF this, of ?kvs]
  have l: "search_get (ar_path (query_fn qy)) ''limit'' = Some ''100''"
      "search_get (ar_path (query_fn qy)) ''marketId'' = map_option market_id_str m"
    by (cases m; simp add: QFills api_fills_path)+
  show ?thesis unfolding QFills query_fn.simps query.case
    using l by (simp add: serve [OF api_fills_path] routes QFills handler_segs)
qed (simp_all add: serve [OF api_paths(1)] serve [OF api_paths(2)] serve [OF api_paths(4)] serve [OF api_paths(7)]
    serve [OF api_paths(8)] serve [OF api_paths(9)] handler_segs routes param_def)

lemma serve_order: "mock_serve matches base dr st (api_placeOrder body) =
    Some (postOrder st (market_id_str (rq_marketId body)) body (bd_order dr) (bd_now dr))"
  by (simp add: serve [OF api_paths(5)] routes) (simp add: api_placeOrder_def)

lemma serve_cancel: "seg_ok oid \<Longrightarrow> mock_serve matches base dr st (api_cancelOrder oid) = Some (Return (deleteOrder st oid))"
  by (simp add: serve [OF api_paths(6)] routes param_def)

lemma serve_sign_in:
  "mock_serve matches base dr st (api_siweNonce a) = Some (Return (st, siweNonce (bd_nonce dr)))"
  "mock_serve matches base dr st (api_siweVerify msg sig) = Some (Return (siweVerify st (bd_jwt dr) (bd_now dr)))"
  by (simp_all add: serve [OF api_paths(10)] serve [OF api_paths(11)] handler_segs routes)

end

section \<open>What a query promises\<close>

fun answers :: "mock_state \<Rightarrow> query \<Rightarrow> mock_body \<Rightarrow> bool" where
  "answers st QMarkets b \<longleftrightarrow> b = MarketsBody (map ms_market (mvalues (st_markets st)))"
| "answers st (QOrderbook m) b \<longleftrightarrow> (\<exists>s. b = BookBody s \<and> ob_marketId s = m \<and> length (ob_bids s) \<le> 50 \<and> length (ob_asks s) \<le> 50)"
| "answers st (QTrades m) b \<longleftrightarrow> (\<exists>t mk. b = TradesBody t \<and> mget (st_markets st) m = Some mk \<and>
     trs_trades t = take 50 (ms_recentTrades mk))"
| "answers st (QFunding m) b \<longleftrightarrow> (\<exists>f. b = FundingBody f \<and> fr_marketId f = m)"
| "answers st QOpenOrders b \<longleftrightarrow> b = OrdersBody (st_openOrders st)"
| "answers st QPositions b \<longleftrightarrow> (\<exists>p. b = PositionsBody p \<and> pr_positions p = st_positions st)"
| "answers st (QFills m) b \<longleftrightarrow> (\<exists>f. b = FillsBody f \<and> fls_fills f =
     take 100 (filter (\<lambda>x. m = None \<or> m = Some (fl_marketId x)) (st_fills st)))"
| "answers st QBalance b \<longleftrightarrow> b = BalanceBody (balanceFrame st)"

lemma slice_to_take: "slice_to xs (Fin (of_nat n)) = take n xs"
  by (simp add: slice_to_def slice_def slice_bound_def min_def)

lemma market_id_str_ne: "market_id_str m \<noteq> []"
  by (cases m) simp_all

lemma ok_json_inj [simp]: "ok_json a = ok_json b \<longleftrightarrow> a = b"
  by (auto simp: ok_json_def)

lemma getFills_answer:
  "\<exists>f. getFills st (map_option market_id_str m) (Some ''100'') = ok_json (FillsBody f) \<and>
     fls_fills f = take 100 (filter (\<lambda>x. m = None \<or> m = Some (fl_marketId x)) (st_fills st))"
proof (cases m)
  case None
  then show ?thesis using slice_to_take [of _ 100] by (simp add: getFills_def Let_def read_limits)
next
  case (Some a)
  obtain c cs where c: "market_id_str a = c # cs" using market_id_str_ne [of a] by (cases "market_id_str a") auto
  have "market_id_str b = c # cs \<longleftrightarrow> a = b" for b using market_id_str_inj [of a b] c by auto
  then show ?thesis using slice_to_take [of _ 100] by (simp add: Some c getFills_def Let_def read_limits)
qed

lemma get_answers:
  assumes "mock_ok st"
  shows "\<exists>s. getOrderbook st (market_id_str m) now = Return (ok_json (BookBody s)) \<and> ob_marketId s = m \<and>
      length (ob_bids s) \<le> 50 \<and> length (ob_asks s) \<le> 50"
    and "\<exists>t mk. getTrades st (market_id_str m) (Some ''50'') = Return (ok_json (TradesBody t)) \<and>
      mget (st_markets st) m = Some mk \<and> trs_trades t = take 50 (ms_recentTrades mk)"
    and "\<exists>f. getFunding st (market_id_str m) = Return (ok_json (FundingBody f)) \<and> fr_marketId f = m"
proof -
  obtain mk where g: "get_market st m = Return mk" "mget (st_markets st) m = Some mk" using mock_ok_get [OF assms] by blast
  then show "\<exists>s. getOrderbook st (market_id_str m) now = Return (ok_json (BookBody s)) \<and> ob_marketId s = m \<and>
      length (ob_bids s) \<le> 50 \<and> length (ob_asks s) \<le> 50"
    "\<exists>t mk. getTrades st (market_id_str m) (Some ''50'') = Return (ok_json (TradesBody t)) \<and>
      mget (st_markets st) m = Some mk \<and> trs_trades t = take 50 (ms_recentTrades mk)"
    "\<exists>f. getFunding st (market_id_str m) = Return (ok_json (FundingBody f)) \<and> fr_marketId f = m"
    using slice_to_take [of _ 50]
    by (simp_all add: Let_def getOrderbook_def snapshotOf_def getTrades_def recentPublicTrades_def read_limits getFunding_def fundingFrame_def)
qed

text \<open>Every query is served by a handler that succeeds.\<close>

lemma serve_answers:
  assumes "path_matcher matches base" "mock_ok st"
  shows "\<exists>st' body. mock_serve matches base dr st (query_fn qy) = Some (Return (st', ok_json body)) \<and> mock_ok st' \<and>
    answers st' qy body"
proof -
  note serve = path_matcher.serve_query [OF assms(1)]
  obtain st2 where p: "refreshMarks st (bd_now dr) = Return st2" "mock_ok st2" using refreshMarks_ok [OF assms(2)] by blast
  show ?thesis
  proof (cases qy)
    case (QOrderbook m)
    then show ?thesis using get_answers(1) [OF assms(2), of m "bd_now dr"] assms(2) by (auto simp: serve simp del: query_fn.simps)
  next
    case (QTrades m)
    then show ?thesis using get_answers(2) [OF assms(2), of m] assms(2) by (auto simp: serve simp del: query_fn.simps)
  next
    case (QFunding m)
    then show ?thesis using get_answers(3) [OF assms(2), of m] assms(2) by (auto simp: serve simp del: query_fn.simps)
  next
    case (QFills m)
    then show ?thesis using getFills_answer [of st m] assms(2) by (auto simp: serve simp del: query_fn.simps)
  next
    case QPositions
    then show ?thesis using p by (auto simp: serve getPositions_def positionsFrame_def Let_def simp del: query_fn.simps)
  qed (use assms(2) in \<open>simp_all add: serve getMarkets_def getOpenOrders_def getBalance_def del: query_fn.simps\<close>)
qed

text \<open>A successful answer as the client reads it.\<close>

lemma request_ok_json: "request (Inr (as_response tx (ok_json b))) w = (Return b, w)"
  by (simp add: request_def as_response_def ok_json_def res_ok_def)

section \<open>Properties\<close>

text \<open>
  C15. Against the mock exchange, in any well-formed state and with any path matcher that obeys
  its documented laws, every query of the application is dispatched to a handler that succeeds:
  the client gets a parsed body of the kind and for the market it asked for (at most 50 levels a
  side, the 50 latest trades, the 100 latest fills of that market), and the state stays well formed.
\<close>

theorem every_query_is_served:
  assumes "path_matcher matches base" "mock_ok st"
  shows "\<exists>st' r. mock_serve matches base dr st (query_fn qy) = Some (Return (st', r)) \<and> mock_ok st' \<and>
    request (Inr (as_response tx r)) b = (Return (rs_body r), b) \<and> answers st' qy (rs_body r)"
  using serve_answers [OF assms] request_ok_json by (metis ok_json_def mock_response.select_convs(2))

definition demo_draws :: backend_draws where
  "demo_draws = \<lparr>bd_order = \<lparr>od_order = ''k3x9'', od_fill = ''f1'', od_hash = ''ab''\<rparr>, bd_nonce = ''n1'', bd_jwt = ''j1'', bd_now = 1000\<rparr>"

theorem every_query_is_served_witness:
  "\<exists>st' r. mock_serve segment_match (API_BASE None) demo_draws (STATE (\<lambda>_ _. Fin 0) (\<lambda>_ _. 0) 0) (query_fn (QOrderbook EthUsd)) =
     Some (Return (st', r)) \<and> answers st' (QOrderbook EthUsd) (rs_body r)"
proof -
  have "mock_ok (STATE (\<lambda>_ _. Fin 0) (\<lambda>_ _. 0) 0)" by (rule mock_ok_STATE) (simp add: draw_def)
  from every_query_is_served [OF sm.path_matcher_axioms this] show ?thesis by blast
qed

text \<open>
  C16. A limit order placed through the client is accepted by the mock exchange, heads the list
  the next open-orders query returns, with its client id, price and full quantity, and cancelling
  the id of the acknowledgement puts the exchange back exactly as it was.
\<close>

theorem placed_order_is_listed_and_cancelled:
  assumes "path_matcher matches base" "rq_type body = Limit" "list_all path_char (od_order (bd_order dr))"
    and "\<forall>x\<in>set (st_openOrders st). oo_id x \<noteq> ''ord_'' @ od_order (bd_order dr)"
  shows "\<exists>st1 ack x. mock_serve matches base dr st (api_placeOrder body) = Some (Return (st1, ok_json (AckBody ack))) \<and>
    ack_status ack = AckAccepted \<and>
    mock_serve matches base dr1 st1 (query_fn QOpenOrders) = Some (Return (st1, ok_json (OrdersBody (x # st_openOrders st)))) \<and>
    oo_id x = ack_orderId ack \<and> oo_clientOrderId x = Some (rq_clientOrderId body) \<and> oo_marketId x = rq_marketId body \<and>
    oo_price x = rq_price body \<and> oo_remaining x = rq_qty body \<and>
    mock_serve matches base dr2 st1 (api_cancelOrder (ack_orderId ack)) =
      Some (Return (st, ok_json (CancelBody (ack_orderId ack))))"
proof -
  let ?x = "mock_order (bd_order dr) (rq_marketId body) body (bd_now dr)"
  let ?st1 = "st\<lparr>st_openOrders := ?x # st_openOrders st\<rparr>"
  let ?ack = "\<lparr>ack_orderId = ''ord_'' @ od_order (bd_order dr), ack_status = AckAccepted, ack_tsNs = nsStr (nowNs (bd_now dr))\<rparr>"
  note pm = assms(1)
  have place: "mock_serve matches base dr st (api_placeOrder body) = Some (Return (?st1, ok_json (AckBody ?ack)))"
    using assms(2) by (simp add: path_matcher.serve_order [OF pm] postOrder_def Let_def)
  have list: "mock_serve matches base dr1 ?st1 (query_fn QOpenOrders) = Some (Return (?st1, ok_json (OrdersBody (?x # st_openOrders st))))"
    by (simp add: path_matcher.serve_query [OF pm] getOpenOrders_def del: query_fn.simps)
  have "seg_ok (''ord_'' @ od_order (bd_order dr))" using assms(3) by (simp add: seg_ok_def path_char_def)
  then have "mock_serve matches base dr2 ?st1 (api_cancelOrder (ack_orderId ?ack)) =
      Some (Return (deleteOrder ?st1 (''ord_'' @ od_order (bd_order dr))))"
    using path_matcher.serve_cancel [OF pm] by simp
  moreover have "filter (\<lambda>x. oo_id x \<noteq> ''ord_'' @ od_order (bd_order dr)) (st_openOrders st) = st_openOrders st"
    using assms(4) by (auto intro: filter_True)
  ultimately have "mock_serve matches base dr2 ?st1 (api_cancelOrder (ack_orderId ?ack)) =
      Some (Return (st, ok_json (CancelBody (ack_orderId ?ack))))"
    by (simp add: deleteOrder_def mock_order_def)
  with place list show ?thesis using assms(2)
    by (intro exI [of _ ?st1] exI [of _ ?ack] exI [of _ ?x]) (simp add: mock_order_def)
qed

definition demo_order :: order_request where
  "demo_order = \<lparr>rq_marketId = BtcUsd, rq_side = Buy, rq_type = Limit, rq_price = ''99000.0'', rq_qty = ''0.5'',
     rq_timeInForce = Gtc, rq_reduceOnly = False, rq_postOnly = False, rq_clientOrderId = ''cli_1'', rq_nonce = ''1'',
     rq_signature = ''0x00''\<rparr>"

theorem placed_order_is_listed_and_cancelled_witness:
  "\<exists>st1 ack. mock_serve segment_match (API_BASE None) demo_draws (STATE (\<lambda>_ _. Fin 0) (\<lambda>_ _. 0) 0) (api_placeOrder demo_order) =
     Some (Return (st1, ok_json (AckBody ack))) \<and>
   mock_serve segment_match (API_BASE None) demo_draws st1 (api_cancelOrder (ack_orderId ack)) =
     Some (Return (STATE (\<lambda>_ _. Fin 0) (\<lambda>_ _. 0) 0, ok_json (CancelBody (ack_orderId ack))))"
proof -
  have "rq_type demo_order = Limit" "list_all path_char (od_order (bd_order demo_draws))"
    by (simp_all add: demo_order_def demo_draws_def path_char_def is_digit_def)
  moreover have "\<forall>x\<in>set (st_openOrders (STATE (\<lambda>_ _. Fin 0) (\<lambda>_ _. 0) 0)). oo_id x \<noteq> ''ord_'' @ od_order (bd_order demo_draws)"
    by (simp add: STATE_def)
  ultimately show ?thesis
    using placed_order_is_listed_and_cancelled [OF sm.path_matcher_axioms, of demo_order demo_draws
      "STATE (\<lambda>_ _. Fin 0) (\<lambda>_ _. 0) 0" demo_draws demo_draws] by blast
qed

end
