(* ===== verification/EndToEnd.thy ===== *)
theory EndToEnd
  imports Worker MockBackend
begin

text \<open>
  A query of the application from the call of the REST client to its result when the mocks run:
  the client issues the request of the query (\<open>issued\<close>), the service worker of theory \<open>Worker\<close>
  intercepts it and posts it to the page, the page's handlers of theory \<open>MockBackend\<close> compute the
  reply, and \<open>request\<close> of theory \<open>Session\<close> reads the response. The mocking library on the page is
  not part of the sources: it is the parameter \<open>page\<close>, and what it is relied on for
  (\<open>page_serves\<close>) is that it hands a posted request without a body to the first matching handler and
  posts back the handler's answer, its status and its serialised body; \<open>parse\<close> is \<open>JSON.parse\<close> at the
  type of the bodies.
\<close>

section \<open>The request as the client issues it\<close>

fun method_text :: "http_method \<Rightarrow> string" where
  "method_text GET = ''GET''"
| "method_text POST = ''POST''"
| "method_text DELETE = ''DELETE''"

text \<open>
  The target of \<open>fetch(`${BASE}${path}`, init)\<close>: the URL and the method of the request the worker
  is given. Everything else in it is the browser's.
\<close>

definition issued :: "string \<Rightarrow> api_request \<Rightarrow> sw_request \<Rightarrow> bool" where
  "issued base req r \<longleftrightarrow> sr_url r = base @ ar_path req \<and> sr_method r = method_text (ar_method req)"

section \<open>The response as the client reads it\<close>

definition read_response :: "(string \<Rightarrow> mock_body option) \<Rightarrow> sw_response \<Rightarrow> mock_body http_response" where
  "read_response parse res = \<lparr>hr_status = sp_status res, hr_statusText = sp_statusText res,
     hr_payload = (let s = (case sp_body res of None \<Rightarrow> [] | Some s \<Rightarrow> s) in
       case parse s of Some v \<Rightarrow> Json v | None \<Rightarrow> NotJson s)\<rparr>"

text \<open>A reply of the page carries what a handler answered.\<close>

definition carries :: "(string \<Rightarrow> mock_body option) \<Rightarrow> mock_response \<Rightarrow> sw_response \<Rightarrow> bool" where
  "carries parse r d \<longleftrightarrow> sp_status d = rs_status r \<and> (\<exists>s. sp_body d = Some s \<and> parse s = Some (rs_body r))"

definition page_serves ::
    "(sw_request \<Rightarrow> client_reply) \<Rightarrow> (string \<Rightarrow> mock_body option) \<Rightarrow> matcher \<Rightarrow> string \<Rightarrow> backend_draws \<Rightarrow> mock_state \<Rightarrow> bool" where
  "page_serves page parse matches base dr st \<longleftrightarrow> (\<forall>req r st' resp. issued base req r \<longrightarrow> ar_body req = NoBody \<longrightarrow>
     mock_serve matches base dr st req = Some (Return (st', resp)) \<longrightarrow> (\<exists>d. page r = MockReply d \<and> carries parse resp d))"

text \<open>Every reply to a request is what the page answers to a message the worker posted about it.\<close>

definition replies_by :: "(sw_request \<Rightarrow> client_reply) \<Rightarrow> worker_event list \<Rightarrow> worker \<Rightarrow> string \<Rightarrow> bool" where
  "replies_by page es w rid \<longleftrightarrow> (\<forall>rep. Answer rid (Reply rep) \<in> set es \<longrightarrow>
     (\<exists>p\<in>set (wk_posts w). \<exists>t r. po_message p = RequestMsg rid t r \<and> rep = page r))"

section \<open>Lemmas\<close>

subsection \<open>What the worker posts\<close>

text \<open>A message about a request carries that request.\<close>

definition posts_of :: "worker \<Rightarrow> string \<Rightarrow> sw_request \<Rightarrow> bool" where
  "posts_of w rid q = (\<forall>p\<in>set (wk_posts w). \<forall>t r. po_message p = RequestMsg rid t r \<longrightarrow> r = serializeRequest q)"

lemma resume_request_msg:
  "resume active rid ev t0 p a = Some (p', ms) \<Longrightarrow> m \<in> set ms \<Longrightarrow> po_message m = RequestMsg rid' t r \<Longrightarrow>
   rid' = rid \<and> r = serializeRequest (fv_request ev)"
  by (erule resume_Some) (auto simp: sendToClient_def)

lemma no_flight_no_post:
  "worker_runs es w \<Longrightarrow> mget (wk_flights w) rid = None \<Longrightarrow> posts_of w rid q"
  using run_worker_ok [of es w]
  by (fastforce simp: worker_ok_def posts_of_def requests_posted_def filter_empty_conv simp del: mget_None_iff)

lemma message_posts [simp]:
  "posts_of (on_install w) = posts_of w" "posts_of (on_activate w) = posts_of w"
  "posts_of (on_client_message src got cs d w) = posts_of w"
  by (auto simp: fun_eq_iff on_install_def on_activate_def on_client_message_def handle_message_def posts_of_def sendToClient_def split: option.splits list.splits)

lemma posted_request:
  "worker_runs es w \<Longrightarrow> mget (wk_flights w) rid = Some f \<Longrightarrow> posts_of w rid (fv_request (ft_event f))"
proof (induction arbitrary: f rule: worker_runs.induct)
  case start
  then show ?case by (simp add: initial_worker_def)
next
  case (step es w e w')
  show ?case
  proof (cases e)
    case (Fetch ev rid' now)
    then have w': "w' = on_fetch ev rid' now w" using step.hyps by (auto split: if_splits)
    have "posts_of w rid (fv_request (ft_event f))"
      using step.prems step.IH no_flight_no_post [OF step.hyps(1)] by (cases "mget (wk_flights w) rid")
        (use Fetch step.hyps in \<open>auto simp: w' on_fetch_def mhas_def simp del: mget_None_iff split: if_splits\<close>)
    then show ?thesis by (auto simp: w' on_fetch_def posts_of_def)
  next
    case (Answer rid' a)
    then have a: "on_answer rid' a w = Some w'" using step.hyps by simp
    obtain g p ms where g: "mget (wk_flights w) rid' = Some g"
      and r: "resume (wk_active w) rid' (ft_event g) (ft_interceptedAt g) (ft_phase g) a = Some (p, ms)"
      and w': "wk_flights w' = mset_key (wk_flights w) rid' (g\<lparr>ft_phase := p\<rparr>)" "wk_posts w' = wk_posts w @ ms"
      using a by (rule on_answer_flights)
    obtain f0 where f0: "mget (wk_flights w) rid = Some f0" "ft_event f0 = ft_event f" "rid' = rid \<longrightarrow> f0 = g"
      using step.prems g by (cases "rid' = rid") (auto simp: w')
    then show ?thesis using step.IH [OF f0(1)] resume_request_msg [OF r] unfolding posts_of_def w' by fastforce
  qed (use step in auto)
qed

lemma issued_serialized: "issued base req (serializeRequest r) = issued base req r"
  by (simp add: issued_def serializeRequest_def)

subsection \<open>A request the page was asked about\<close>

text \<open>The response a request in progress holds already.\<close>

fun held :: "phase \<Rightarrow> sw_response option" where
  "held (GotResponse mc res) = Some res"
| "held (SerializingForEvents c res) = Some res"
| "held (Responded res) = Some res"
| "held _ = None"

text \<open>Once the page was asked, only its answer \<open>d\<close> counts: the network is left alone.\<close>

definition page_decides :: "sw_response \<Rightarrow> worker \<Rightarrow> string \<Rightarrow> phase \<Rightarrow> bool" where
  "page_decides d w rid p \<longleftrightarrow> (requests_posted w rid \<noteq> 0 \<longrightarrow> network_calls w rid = 0 \<and> \<not> is_fetching p \<and>
     (\<forall>e. p \<noteq> Rejected e) \<and> (\<forall>res. held p = Some res \<longrightarrow> respondWithMock d = Return res))"

lemma resume_page_decides:
  assumes "on_answer rid a w = Some w'" "mget (wk_flights w) rid = Some f" "flight_ok w rid (ft_phase f)"
    "page_decides d w rid (ft_phase f)" "mget (wk_flights w') rid = Some f'"
    "\<And>rep. a = Reply rep \<Longrightarrow> rep = MockReply d" "respondWithMock d = Return res0"
  shows "page_decides d w' rid (ft_phase f')"
proof -
  obtain p ms where r: "resume (wk_active w) rid (ft_event f) (ft_interceptedAt f) (ft_phase f) a = Some (p, ms)"
    and w': "wk_flights w' = mset_key (wk_flights w) rid (f\<lparr>ft_phase := p\<rparr>)" "wk_posts w' = wk_posts w @ ms"
      "wk_network w' = wk_network w @ (if is_fetching p then [(rid, passthrough (fv_request (ft_event f)))] else [])"
    using on_answer_flights [OF assms(1)] assms(2) by (metis option.inject)
  have p: "ft_phase f' = p" using assms(5) by (auto simp: w')
  from r assms(3,4,6,7) show ?thesis
    by (elim resume_Some)
      (auto simp: p page_decides_def flight_ok_def count_defs w' sendToClient_def Let_def is_fetching_def
        resolve_sender_def start_response_def handle_reply_def finish_response_def
        split: sum.splits client_reply.splits option.splits if_splits)
qed

lemma run_page_decides:
  assumes "worker_runs es w" "mget (wk_flights w) rid = Some f" "respondWithMock d = Return res0"
    "\<And>rep. Answer rid (Reply rep) \<in> set es \<Longrightarrow> rep = MockReply d"
  shows "page_decides d w rid (ft_phase f)"
  using assms(1,2,4)
proof (induction arbitrary: f rule: worker_runs.induct)
  case start
  then show ?case by (simp add: initial_worker_def)
next
  case (step es w e w')
  have ok: "worker_ok w" using step.hyps(1) by (rule run_worker_ok)
  show ?case
  proof (cases e)
    case (Fetch ev rid' now)
    then have w': "w' = on_fetch ev rid' now w" using step.hyps by (auto split: if_splits)
    show ?thesis
    proof (cases "mget (wk_flights w) rid")
      case None
      then show ?thesis using ok by (simp add: w' page_decides_def worker_ok_def del: mget_None_iff)
    next
      case (Some g)
      then have "g = f" using step.prems(1) step.hyps(2) Fetch
        by (auto simp: on_fetch_def mhas_def simp del: mget_None_iff split: if_splits)
      then show ?thesis using step.IH [OF Some] step.prems(2) by (simp add: w' page_decides_def)
    qed
  next
    case (Answer rid' a)
    then have a: "on_answer rid' a w = Some w'" using step.hyps by simp
    show ?thesis
    proof (cases "rid' = rid")
      case True
      then obtain g where g: "mget (wk_flights w) rid = Some g" using on_answer_flights [OF a] by metis
      then have "flight_ok w rid (ft_phase g)" using ok by (simp add: worker_ok_def)
      moreover have "page_decides d w rid (ft_phase g)" using step.IH [OF g] step.prems(2) by simp
      ultimately show ?thesis
        using resume_page_decides [OF a [unfolded True] g _ _ step.prems(1) _ assms(3)] step.prems(2) Answer True by simp
    next
      case False
      then show ?thesis using step.IH step.prems answer_counts_other [OF a, of rid] by (auto simp: page_decides_def)
    qed
  qed (use step in \<open>auto simp: page_decides_def\<close>)
qed

lemma carried_response:
  assumes "carries parse (ok_json body) d"
  shows "respondWithMock d = Return (d\<lparr>sp_type := ''default'', sp_mocked := True\<rparr>)"
    "request (Inr (read_response parse (d\<lparr>sp_type := ''default'', sp_mocked := True\<rparr>))) b = (Return body, b)"
  using assms by (auto simp: carries_def ok_json_def respondWithMock_def read_response_def request_def res_ok_def Let_def)

lemma query_no_body: "ar_body (query_fn qy) = NoBody"
  by (cases qy) (simp_all add: get_req_def api_markets_def api_orderbook_def api_trades_def api_funding_def Let_def
      api_openOrders_def api_positions_def api_fills_def api_balance_def)

section \<open>Properties\<close>

text \<open>
  C12. With the mocks running, a query of the application is answered by the mock exchange and by
  nothing else. Take a request whose URL and method are those the client issues for the query and
  about which the worker asked the page, which serves every request it is told of from the handler
  table. However the worker's events interleave with those of other requests, the network is never
  called for it and it does not fail; and when it has its response, the REST client returns the
  body of the kind and for the market the query asks for, and the exchange stays well formed.
\<close>

theorem mocked_query_reaches_the_client:
  assumes "path_matcher matches base" "mock_ok st" "page_serves page parse matches base dr st"
    and "worker_runs es w" "mget (wk_flights w) rid = Some f" "issued base (query_fn qy) (fv_request (ft_event f))"
    and "replies_by page es w rid" "requests_posted w rid \<noteq> 0"
  shows "network_calls w rid = 0 \<and> (\<forall>e. ft_phase f \<noteq> Rejected e) \<and>
    (\<forall>res. ft_phase f = Responded res \<longrightarrow>
       (\<exists>st' body. mock_serve matches base dr st (query_fn qy) = Some (Return (st', ok_json body)) \<and> mock_ok st' \<and>
          answers st' qy body \<and> request (Inr (read_response parse res)) b = (Return body, b)))"
proof -
  let ?q = "serializeRequest (fv_request (ft_event f))"
  obtain st' body where s: "mock_serve matches base dr st (query_fn qy) = Some (Return (st', ok_json body))"
      "mock_ok st'" "answers st' qy body"
    using serve_answers [OF assms(1,2)] by blast
  have "issued base (query_fn qy) ?q" using assms(6) by (simp add: issued_serialized)
  then obtain d where d: "page ?q = MockReply d" "carries parse (ok_json body) d"
    using assms(3) s(1) query_no_body unfolding page_serves_def by blast
  have "rep = MockReply d" if "Answer rid (Reply rep) \<in> set es" for rep
    using that assms(7) posted_request [OF assms(4,5)] d(1) unfolding replies_by_def posts_of_def by metis
  from run_page_decides [OF assms(4,5) carried_response(1) [OF d(2)] this] have "page_decides d w rid (ft_phase f)" .
  then have p: "network_calls w rid = 0" "\<forall>e. ft_phase f \<noteq> Rejected e" "\<forall>res. held (ft_phase f) = Some res \<longrightarrow> respondWithMock d = Return res"
    using assms(8) by (simp_all add: page_decides_def)
  have "\<exists>st' body. mock_serve matches base dr st (query_fn qy) = Some (Return (st', ok_json body)) \<and> mock_ok st' \<and>
      answers st' qy body \<and> request (Inr (read_response parse res)) b = (Return body, b)" if "ft_phase f = Responded res" for res
    using that p(3) carried_response [OF d(2)] s by auto
  then show ?thesis using p by blast
qed

text \<open>
  A page that answers with the request line as the body, which \<open>demo_parse\<close> reads as the body the
  exchange serves at that line, and the run of an order book query.
\<close>

definition demo_base :: string where
  "demo_base = API_BASE None"

definition demo_exchange :: mock_state where
  "demo_exchange = STATE (\<lambda>_ _. Fin 0) (\<lambda>_ _. 0) 0"

definition demo_target :: "string \<Rightarrow> string \<Rightarrow> api_request" where
  "demo_target m u = \<lparr>ar_method = (if m = ''GET'' then GET else if m = ''POST'' then POST else DELETE),
     ar_path = drop (length demo_base) u, ar_body = NoBody\<rparr>"

definition demo_serve :: "api_request \<Rightarrow> mock_response option" where
  "demo_serve req = (case mock_serve segment_match demo_base demo_draws demo_exchange req of Some (Inr (st, r)) \<Rightarrow> Some r | _ \<Rightarrow> None)"

definition demo_page :: "sw_request \<Rightarrow> client_reply" where
  "demo_page r = (case demo_serve (demo_target (sr_method r) (sr_url r)) of None \<Rightarrow> PassthroughReply
     | Some resp \<Rightarrow> MockReply \<lparr>sp_type = ''default'', sp_status = rs_status resp, sp_statusText = ''OK'', sp_headers = [],
         sp_body = Some (sr_method r @ CHR '' '' # sr_url r), sp_mocked = False\<rparr>)"

definition demo_parse :: "string \<Rightarrow> mock_body option" where
  "demo_parse s = (let m = takeWhile (\<lambda>c. c \<noteq> CHR '' '') s in map_option rs_body (demo_serve (demo_target m (drop (Suc (length m)) s))))"

lemma demo_page_serves: "page_serves demo_page demo_parse segment_match demo_base demo_draws demo_exchange"
  unfolding page_serves_def
proof (intro allI impI)
  fix req r st' resp
  assume i: "issued demo_base req r" "ar_body req = NoBody"
    "mock_serve segment_match demo_base demo_draws demo_exchange req = Some (Return (st', resp))"
  have m: "takeWhile (\<lambda>c. c \<noteq> CHR '' '') (method_text mt @ CHR '' '' # u) = method_text mt" for mt u by (cases mt) simp_all
  have "demo_target (sr_method r) (sr_url r) = req"
    using i(1,2) by (cases "ar_method req") (auto simp: demo_target_def issued_def)
  then show "\<exists>d. demo_page r = MockReply d \<and> carries demo_parse resp d"
    using i(1,3) m by (simp add: demo_page_def demo_serve_def carries_def demo_parse_def issued_def Let_def)
qed

definition book_request :: sw_request where
  "book_request = demo_request\<lparr>sr_url := demo_base @ ar_path (query_fn (QOrderbook EthUsd)), sr_method := ''GET''\<rparr>"

text \<open>The mocked answer is what \<open>demo_page\<close> replies to the request.\<close>

definition book_answer :: sw_response where
  "book_answer = \<lparr>sp_type = ''default'', sp_status = 200, sp_statusText = ''OK'', sp_headers = [],
     sp_body = Some (''GET '' @ sr_url book_request), sp_mocked = False\<rparr>"

definition book_events :: "worker_event list" where
  "book_events = [Message (Some ''tab1'') (Some demo_window) [demo_window] ''MOCK_ACTIVATE'',
     Fetch \<lparr>fv_clientId = ''tab1'', fv_request = book_request\<rparr> ''r1'' 0, Answer ''r1'' (SenderIs (Some demo_window)),
     Answer ''r1'' Tick, Answer ''r1'' Tick, Answer ''r1'' (Reply (MockReply book_answer)), Answer ''r1'' Tick, Answer ''r1'' Tick]"

lemma demo_exchange_ok: "mock_ok demo_exchange"
  unfolding demo_exchange_def by (rule mock_ok_STATE) (simp add: draw_def)

lemma book_page: "demo_page (serializeRequest book_request) = MockReply book_answer"
proof -
  obtain st' body where "mock_serve segment_match demo_base demo_draws demo_exchange (query_fn (QOrderbook EthUsd)) =
      Some (Return (st', ok_json body))"
    using serve_answers [OF sm.path_matcher_axioms [folded demo_base_def] demo_exchange_ok] by blast
  moreover have "demo_target (sr_method book_request) (sr_url book_request) = query_fn (QOrderbook EthUsd)"
    using query_no_body [of "QOrderbook EthUsd"] by (simp add: demo_target_def book_request_def)
  ultimately show ?thesis
    by (simp add: demo_page_def demo_serve_def serializeRequest_def ok_json_def book_answer_def) (simp add: book_request_def)
qed

lemma book_run:
  "worker_runs book_events (worker_after book_events)"
  "mget (wk_flights (worker_after book_events)) ''r1'' = Some \<lparr>ft_event = \<lparr>fv_clientId = ''tab1'', fv_request = book_request\<rparr>,
     ft_interceptedAt = 0, ft_phase = Responded (book_answer\<lparr>sp_mocked := True\<rparr>)\<rparr>"
  "map po_message (wk_posts (worker_after book_events)) = [MockingEnabled ''tab1'' ''top-level'', RequestMsg ''r1'' 0 (serializeRequest book_request),
     ResponseMsg True ''r1'' (serializeRequest book_request) (book_answer\<lparr>sp_mocked := True\<rparr>)]"
proof -
  have "runnable book_events initial_worker" by code_simp
  from runnable_runs [OF worker_runs.start this] show "worker_runs book_events (worker_after book_events)"
    by (simp add: worker_after_def)
qed code_simp+

theorem mocked_query_reaches_the_client_witness:
  "network_calls (worker_after book_events) ''r1'' = 0 \<and>
   (\<exists>st' body. answers st' (QOrderbook EthUsd) body \<and>
     request (Inr (read_response demo_parse (book_answer\<lparr>sp_mocked := True\<rparr>))) demo_browser = (Return body, demo_browser))"
proof -
  let ?w = "worker_after book_events"
  have i: "issued demo_base (query_fn (QOrderbook EthUsd)) book_request" by (simp add: issued_def book_request_def)
  have msg: "RequestMsg ''r1'' 0 (serializeRequest book_request) \<in> set (map po_message (wk_posts ?w))" by (simp add: book_run(3))
  then obtain p where p: "p \<in> set (wk_posts ?w)" "po_message p = RequestMsg ''r1'' 0 (serializeRequest book_request)" by auto
  then have q: "requests_posted ?w ''r1'' \<noteq> 0" by (auto simp: requests_posted_def filter_empty_conv)
  have "rep = MockReply book_answer" if "Answer ''r1'' (Reply rep) \<in> set book_events" for rep
    using that by (simp add: book_events_def)
  then have "replies_by demo_page book_events ?w ''r1''"
    using p book_page unfolding replies_by_def by metis
  from mocked_query_reaches_the_client [OF sm.path_matcher_axioms [folded demo_base_def] demo_exchange_ok demo_page_serves
      book_run(1,2) _ this q, of "QOrderbook EthUsd" demo_browser] i
  show ?thesis by auto
qed

end
