(* ===== verification/Tab.thy ===== *)
theory Tab
  imports Session
begin

text \<open>
  A browser tab of the application as far as the session token goes: the storage, the hook
  \<open>useSiwe\<close> of \<^verbatim>\<open>web/lib/wallet/siwe.ts\<close> with the store it subscribes to, the REST client and the
  socket client, composed. A step is a handler followed by the hook's reaction: an event
  dispatched by the handler runs the listener of \<open>subscribeJwt\<close>, React reads the snapshot, renders
  again when it is another object, and then runs the effect whose dependency changed. React
  renders after the handler has returned. The other streams of the socket (theory \<open>LiveBook\<close>) do
  not touch the token; their calls are steps here too.
\<close>

section \<open>The tab\<close>

record tab =
  tb_browser :: browser
  tb_cached :: snapshot_ref
  tb_hook :: "snapshot_ref option"
  tb_siwe :: siwe_state
  tb_ws :: "ws_client option"
  tb_fresh :: nat

text \<open>
  \<open>tb_hook\<close> is the snapshot of the last render, \<open>None\<close> while the hook is not mounted;
  \<open>tb_fresh\<close> is the identity of the next snapshot object. The inputs of a step are the clock,
  whether the socket constructor returns, and the jitter of a reconnect.
\<close>

record turn =
  tn_now :: number
  tn_ctor_ok :: bool
  tn_jitter :: number

definition shown_jwt :: "snapshot_ref \<Rightarrow> string option" where
  "shown_jwt s = map_option (sj_jwt \<circ> snd) s"

definition hasJwt :: "snapshot_ref \<Rightarrow> bool" where
  "hasJwt s = (s \<noteq> None)"

definition expiresAt :: "snapshot_ref \<Rightarrow> string option" where
  "expiresAt s = map_option (sj_expiresAt \<circ> snd) s"

section \<open>The hook\<close>

definition mount_siwe :: "(string \<Rightarrow> number) \<Rightarrow> turn \<Rightarrow> tab \<Rightarrow> tab" where
  "mount_siwe dp n t = (case jwtSnapshot dp (tn_now n) (tb_fresh t) (tb_cached t, tb_browser t) of (s, b) \<Rightarrow>
     t\<lparr>tb_browser := b, tb_cached := s, tb_hook := Some s, tb_siwe := \<lparr>ss_isSigning = False, ss_error = None\<rparr>,
       tb_ws := siwe_effect (tn_ctor_ok n) (tn_jitter n) s (tb_ws t), tb_fresh := tb_fresh t + 1\<rparr>)"

definition unmount_siwe :: "tab \<Rightarrow> tab" where
  "unmount_siwe t = t\<lparr>tb_hook := None\<rparr>"

text \<open>The listener of \<open>subscribeJwt\<close> and the render and effect that follow.\<close>

definition on_jwt_change :: "(string \<Rightarrow> number) \<Rightarrow> turn \<Rightarrow> tab \<Rightarrow> tab" where
  "on_jwt_change dp n t = (case tb_hook t of None \<Rightarrow> t
     | Some s \<Rightarrow> (case jwtSnapshot dp (tn_now n) (tb_fresh t) (tb_cached t, tb_browser t) of (s', b) \<Rightarrow>
         let t' = t\<lparr>tb_browser := b, tb_cached := s', tb_fresh := tb_fresh t + 1\<rparr> in
         if s' = s then t'
         else t'\<lparr>tb_hook := Some s',
                tb_ws := (if shown_jwt s' = shown_jwt s then tb_ws t
                          else siwe_effect (tn_ctor_ok n) (tn_jitter n) s' (tb_ws t))\<rparr>))"

text \<open>A handler that dispatched the event is followed by the listener, another is not.\<close>

definition dispatching :: "(string \<Rightarrow> number) \<Rightarrow> turn \<Rightarrow> tab \<Rightarrow> tab \<Rightarrow> tab" where
  "dispatching dp n t t' = (if bw_events (tb_browser t') = bw_events (tb_browser t) then t' else on_jwt_change dp n t')"

section \<open>Events of the tab\<close>

datatype socket_event =
    CallSubscribe string | CallUnsubscribe string | CallOn nat | CallOff nat
  | Timer | Opened nat | Received nat "ws_message option" | WasClosed nat int | Failed nat

fun socket_step :: "turn \<Rightarrow> socket_event \<Rightarrow> ws_client \<Rightarrow> ws_client" where
  "socket_step n (CallSubscribe ch) c = subscribe ch c"
| "socket_step n (CallUnsubscribe ch) c = unsubscribe ch c"
| "socket_step n (CallOn fn) c = on fn c"
| "socket_step n (CallOff fn) c = off fn c"
| "socket_step n Timer c = (if wc_reconnectTimer c = None then c else onTimer (tn_ctor_ok n) (tn_jitter n) c)"
| "socket_step n (Opened i) c = (if sock_state c i = Connecting then onopen i c else c)"
| "socket_step n (Received i m) c = (if sock_state c i = Open then onmessage i m c else c)"
| "socket_step n (WasClosed i code) c = (if sock_state c i = Closed then c else onclose i code (tn_jitter n) c)"
| "socket_step n (Failed i) c = (if sock_state c i = Closed then c else onerror i c)"

datatype tab_event =
    MountSiwe
  | UnmountSiwe
  | Rerender
  | SignIn string "string option" "string \<Rightarrow> siwe_message" "string + string http_response" "siwe_message \<Rightarrow> string + string"
      "string \<Rightarrow> string + siwe_verify_response http_response"
  | SignOut
  | RestAnswer "string + unit http_response"
  | OtherTab "(string, string) jmap"
  | UseSocket
  | Socket socket_event

text \<open>
  \<open>Rerender\<close>: React renders the component for another reason, such as \<open>setIsSigning\<close>, and
  \<open>useSyncExternalStore\<close> reads the snapshot again. \<open>OtherTab\<close>: another tab wrote the storage, and the browser dispatches its \<open>storage\<close> event
  here; the writes of one \<open>writeJwt\<close> or \<open>clearJwt\<close> there are one step. \<open>UseSocket\<close> is a call of
  \<open>getWsClient\<close>. The socket client works on the tab's own storage.
\<close>

fun tab_step :: "(string \<Rightarrow> number) \<Rightarrow> turn \<Rightarrow> tab_event \<Rightarrow> tab \<Rightarrow> tab" where
  "tab_step dp n MountSiwe t = mount_siwe dp n t"
| "tab_step dp n UnmountSiwe t = unmount_siwe t"
| "tab_step dp n Rerender t = on_jwt_change dp n t"
| "tab_step dp n (SignIn host address msg_of nonceCall sign verifyCall) t =
     (if tb_hook t = None then t
      else case signIn host address msg_of nonceCall sign verifyCall (tb_siwe t, tb_browser t) of (s, b) \<Rightarrow>
        dispatching dp n t (t\<lparr>tb_siwe := s, tb_browser := b\<rparr>))"
| "tab_step dp n SignOut t = (if tb_hook t = None then t else dispatching dp n t (t\<lparr>tb_browser := signOut (tb_browser t)\<rparr>))"
| "tab_step dp n (RestAnswer r) t = dispatching dp n t (t\<lparr>tb_browser := snd (request r (tb_browser t))\<rparr>)"
| "tab_step dp n (OtherTab st) t = on_jwt_change dp n (t\<lparr>tb_browser := (tb_browser t)\<lparr>bw_storage := st\<rparr>\<rparr>)"
| "tab_step dp n UseSocket t =
     (case getWsClient True (tn_ctor_ok n) (tn_jitter n) (tb_browser t) (tb_ws t) of
        Inl e \<Rightarrow> t | Inr c \<Rightarrow> t\<lparr>tb_ws := Some c\<rparr>)"
| "tab_step dp n (Socket ev) t = (case tb_ws t of None \<Rightarrow> t
     | Some c \<Rightarrow> let c' = socket_step n ev (c\<lparr>wc_browser := tb_browser t\<rparr>) in
         dispatching dp n t (t\<lparr>tb_ws := Some c', tb_browser := wc_browser c'\<rparr>))"

definition new_tab :: "(string, string) jmap \<Rightarrow> tab" where
  "new_tab st = \<lparr>tb_browser = \<lparr>bw_storage = st, bw_events = []\<rparr>, tb_cached = None, tb_hook = None,
     tb_siwe = \<lparr>ss_isSigning = False, ss_error = None\<rparr>, tb_ws = None, tb_fresh = 0\<rparr>"

definition tab_run :: "(string \<Rightarrow> number) \<Rightarrow> (turn \<times> tab_event) list \<Rightarrow> tab \<Rightarrow> tab" where
  "tab_run dp evs t = foldl (\<lambda>t (n, ev). tab_step dp n ev t) t evs"

section \<open>The invariant\<close>

text \<open>The two keys are written and removed together.\<close>

definition paired :: "(string, string) jmap \<Rightarrow> bool" where
  "paired st = (truthy_str (mget st jwt_key) \<and> truthy_str (mget st jwt_exp_key) \<or>
     mget st jwt_key = None \<and> mget st jwt_exp_key = None)"

fun event_ok :: "tab_event \<Rightarrow> bool" where
  "event_ok (SignIn host address msg_of nonceCall sign verifyCall) \<longleftrightarrow>
     (\<forall>g v. accepted (verifyCall g) v \<longrightarrow> sv_jwt v \<noteq> [] \<and> sv_expiresAt v \<noteq> [])"
| "event_ok (OtherTab st) \<longleftrightarrow> paired st"
| "event_ok _ \<longleftrightarrow> True"

definition stored_jwt_of :: "tab \<Rightarrow> string option" where
  "stored_jwt_of t = mget (bw_storage (tb_browser t)) jwt_key"

definition tab_ok :: "tab \<Rightarrow> bool" where
  "tab_ok t \<longleftrightarrow> paired (bw_storage (tb_browser t)) \<and>
     (\<forall>s. tb_hook t = Some s \<longrightarrow> shown_jwt s = stored_jwt_of t \<and>
        (\<forall>c. tb_ws t = Some c \<longrightarrow> wc_token c = shown_jwt s))"

section \<open>Lemmas\<close>

lemma keys_differ [simp]: "jwt_key \<noteq> jwt_exp_key" "jwt_exp_key \<noteq> jwt_key"
  by (simp_all add: jwt_key_def jwt_exp_key_def)

lemma paired_cleared [simp]: "paired (mdelete (mdelete st jwt_key) jwt_exp_key)"
  by (simp add: paired_def del: mget_None_iff)

lemma paired_written: "j \<noteq> [] \<Longrightarrow> e \<noteq> [] \<Longrightarrow> paired (mset_key (mset_key st jwt_key j) jwt_exp_key e)"
  by (simp add: paired_def truthy_str_def del: mget_None_iff)

lemma read_paired:
  assumes "paired (bw_storage b)" "readStoredJwt dp now b = (r, b')"
  shows "paired (bw_storage b') \<and> map_option sj_jwt r = mget (bw_storage b') jwt_key"
  using assms by (auto simp: readStoredJwt_def paired_def truthy_str_def Let_def simp del: mget_None_iff
      split: if_splits option.splits)

lemma snapshot_paired:
  assumes "paired (bw_storage b)" "jwtSnapshot dp now fresh (cached, b) = (s, b')"
  shows "paired (bw_storage b') \<and> shown_jwt s = mget (bw_storage b') jwt_key"
proof -
  obtain r b'' where r: "readStoredJwt dp now b = (r, b'')" by (cases "readStoredJwt dp now b")
  then have "b' = b''" "map_option snd s = r" using assms(2) by (auto simp: jwtSnapshot_read [OF r] option.map_comp o_def option.map_ident)
  moreover have "shown_jwt s = map_option sj_jwt (map_option snd s)" by (simp add: shown_jwt_def option.map_comp)
  ultimately show ?thesis using read_paired [OF assms(1) r] by simp
qed

lemma effect_token: "siwe_effect ok jit s ws = Some c \<Longrightarrow> wc_token c = shown_jwt s"
  by (auto simp: siwe_effect_def syncWsToken_def setToken_def shown_jwt_def connect_def scheduleReconnect_def
      sock_close_def Let_def split: option.splits if_splits)

text \<open>After the listener ran, whatever a handler did to a paired storage is shown.\<close>

lemma on_jwt_change_ok:
  assumes "paired (bw_storage (tb_browser t))"
    and "\<And>s c. tb_hook t = Some s \<Longrightarrow> tb_ws t = Some c \<Longrightarrow> wc_token c = shown_jwt s"
  shows "tab_ok (on_jwt_change dp n t)"
proof (cases "tb_hook t")
  case None
  then show ?thesis using assms(1) by (simp add: on_jwt_change_def tab_ok_def)
next
  case (Some s)
  obtain s' b where sb: "jwtSnapshot dp (tn_now n) (tb_fresh t) (tb_cached t, tb_browser t) = (s', b)" by force
  from snapshot_paired [OF assms(1) sb] show ?thesis
    using assms(2) [OF Some] by (auto simp: on_jwt_change_def Some sb Let_def tab_ok_def stored_jwt_of_def dest: effect_token)
qed

lemma tab_ok_same_store:
  "tab_ok t \<Longrightarrow> bw_storage (tb_browser t') = bw_storage (tb_browser t) \<Longrightarrow> tb_hook t' = tb_hook t \<Longrightarrow>
   (\<And>c'. tb_ws t' = Some c' \<Longrightarrow> tb_hook t \<noteq> None \<Longrightarrow> wc_token c' = stored_jwt_of t) \<Longrightarrow> tab_ok t'"
  by (auto simp: tab_ok_def stored_jwt_of_def)

text \<open>A handler either dispatches nothing and leaves the storage, or is followed by the listener.\<close>

lemma dispatching_ok:
  assumes "tab_ok t" "tb_hook t' = tb_hook t" "paired (bw_storage (tb_browser t'))"
    and "bw_events (tb_browser t') = bw_events (tb_browser t) \<Longrightarrow> bw_storage (tb_browser t') = bw_storage (tb_browser t)"
    and "\<And>c'. tb_ws t' = Some c' \<Longrightarrow> \<exists>c. tb_ws t = Some c \<and> wc_token c' = wc_token c"
  shows "tab_ok (dispatching dp n t t')"
proof (cases "bw_events (tb_browser t') = bw_events (tb_browser t)")
  case True
  have "tab_ok t'" using assms(1) assms(4) [OF True] assms(2)
  proof (rule tab_ok_same_store)
    show "wc_token c' = stored_jwt_of t" if "tb_ws t' = Some c'" "tb_hook t \<noteq> None" for c'
      using assms(1) assms(5) [OF that(1)] that(2) by (auto simp: tab_ok_def)
  qed
  then show ?thesis by (simp add: dispatching_def True)
next
  case False
  have "wc_token c' = shown_jwt s" if "tb_hook t' = Some s" "tb_ws t' = Some c'" for s c'
  proof -
    have "tb_hook t = Some s" using that(1) assms(2) by simp
    then show ?thesis using assms(1) assms(5) [OF that(2)] by (auto simp: tab_ok_def)
  qed
  then show ?thesis using on_jwt_change_ok [OF assms(3)] False by (simp add: dispatching_def)
qed

subsection \<open>Each handler\<close>

lemma connect_fields [simp]:
  "wc_token (connect ok jit c) = wc_token c" "wc_browser (connect ok jit c) = wc_browser c"
  by (simp_all add: connect_def scheduleReconnect_def split: option.split)

lemma socket_step_token: "wc_token (socket_step n ev c) = wc_token c"
  by (cases ev) (auto simp: subscribe_def unsubscribe_def send_def on_def off_def onTimer_def onopen_def onmessage_def onclose_def
      onerror_def sock_close_def scheduleReconnect_def Let_def split: option.splits ws_message.splits)

lemma socket_step_browser:
  "wc_browser (socket_step n ev c) = wc_browser c \<or>
   wc_browser (socket_step n ev c) = clearStoredJwtOnUnauthorized (wc_browser c)"
  by (cases ev) (auto simp: subscribe_def unsubscribe_def send_def on_def off_def onTimer_def onopen_def onmessage_def onclose_def
      onerror_def sock_close_def scheduleReconnect_def Let_def split: option.splits ws_message.splits)

lemma clearing [simp]:
  "bw_events (clearStoredJwtOnUnauthorized b) \<noteq> bw_events b" "paired (bw_storage (clearStoredJwtOnUnauthorized b))"
  "bw_events (clearStoredJwtOn401 b) \<noteq> bw_events b" "paired (bw_storage (clearStoredJwtOn401 b))"
  "bw_events (clearJwt b) \<noteq> bw_events b" "paired (bw_storage (clearJwt b))"
  by (simp_all add: clearStoredJwtOnUnauthorized_def clearStoredJwtOn401_def clearJwt_def emitJwtChange_def)

lemma signIn_browser:
  assumes "signIn host address msg_of nonceCall sign verifyCall (s, b) = (s', b')"
  shows "b' = b \<or> b' = clearStoredJwtOn401 b \<and> (denied nonceCall \<or> (\<exists>g. denied (verifyCall g))) \<or>
    (\<exists>g v. accepted (verifyCall g) v \<and> b' = writeJwt (sv_jwt v) (sv_expiresAt v) b)"
  using assms by (auto simp: signIn_def Let_def split: if_splits sum.splits prod.splits dest!: request_accepted request_failed)

lemma writing:
  "bw_events (writeJwt j e b) \<noteq> bw_events b" "j \<noteq> [] \<Longrightarrow> e \<noteq> [] \<Longrightarrow> paired (bw_storage (writeJwt j e b))"
  by (simp_all add: writeJwt_def emitJwtChange_def paired_written)

lemma mount_ok: "tab_ok t \<Longrightarrow> tab_ok (mount_siwe dp n t)"
proof -
  assume t: "tab_ok t"
  obtain s b where sb: "jwtSnapshot dp (tn_now n) (tb_fresh t) (tb_cached t, tb_browser t) = (s, b)" by force
  from t snapshot_paired [OF _ sb] show ?thesis
    by (auto simp: mount_siwe_def sb tab_ok_def stored_jwt_of_def dest: effect_token)
qed

lemma tab_step_ok:
  assumes "tab_ok t" "event_ok ev"
  shows "tab_ok (tab_step dp n ev t)"
proof -
  have p: "paired (bw_storage (tb_browser t))" using assms(1) by (simp add: tab_ok_def)
  show ?thesis
  proof (cases ev)
    case (SignIn host a m nc sg v)
    obtain s b where sb: "signIn host a m nc sg v (tb_siwe t, tb_browser t) = (s, b)" by force
    have "paired (bw_storage b) \<and> (bw_events b = bw_events (tb_browser t) \<longrightarrow> bw_storage b = bw_storage (tb_browser t))"
      using signIn_browser [OF sb] assms(2) p writing by (auto simp: SignIn)
    then show ?thesis using assms(1) by (auto simp: SignIn sb intro!: dispatching_ok)
  next
    case SignOut
    then show ?thesis using assms(1) by (auto simp: signOut_def intro!: dispatching_ok)
  next
    case (RestAnswer r)
    then show ?thesis using assms(1) request_storage [of r "tb_browser t"]
      by (auto simp: p intro!: dispatching_ok [OF assms(1)])
  next
    case (OtherTab st)
    have "wc_token c = shown_jwt s" if "tb_hook t = Some s" "tb_ws t = Some c" for s c
      using assms(1) that by (auto simp: tab_ok_def)
    then show ?thesis using assms(2) by (auto simp: OtherTab intro!: on_jwt_change_ok)
  next
    case UseSocket
    have "wc_token c = stored_jwt_of t" if "getWsClient True ok jit (tb_browser t) (tb_ws t) = Return c" "tb_hook t \<noteq> None" for c ok jit
      using that assms(1) by (auto simp: getWsClient_def new_client_def tab_ok_def stored_jwt_of_def split: option.splits)
    then show ?thesis using assms(1) by (auto simp: UseSocket intro!: tab_ok_same_store [OF assms(1)] split: sum.splits)
  next
    case (Socket e)
    show ?thesis
    proof (cases "tb_ws t")
      case (Some c)
      let ?c = "c\<lparr>wc_browser := tb_browser t\<rparr>"
      have "wc_token (socket_step n e ?c) = wc_token c" by (simp add: socket_step_token)
      moreover have "wc_browser (socket_step n e ?c) = tb_browser t \<or> wc_browser (socket_step n e ?c) = clearStoredJwtOnUnauthorized (tb_browser t)"
        using socket_step_browser [of n e ?c] by simp
      ultimately show ?thesis using assms(1) Some
        by (auto simp: Socket Let_def p intro!: dispatching_ok [OF assms(1)])
    qed (simp add: Socket assms(1))
  next
    case MountSiwe
    then show ?thesis using mount_ok [OF assms(1)] by simp
  next
    case UnmountSiwe
    then show ?thesis by (simp add: unmount_siwe_def tab_ok_def p)
  next
    case Rerender
    have "wc_token c = shown_jwt s" if "tb_hook t = Some s" "tb_ws t = Some c" for s c
      using assms(1) that by (auto simp: tab_ok_def)
    then show ?thesis by (auto simp: Rerender p intro!: on_jwt_change_ok)
  qed
qed

interpretation tb: transition_system "\<lambda>t t'. \<exists>dp n ev. event_ok ev \<and> t' = tab_step dp n ev t" tab_ok
  by unfold_locales (auto intro: tab_step_ok)

lemma tab_run_ok:
  assumes "list_all (event_ok \<circ> snd) evs" "tab_ok t"
  shows "tab_ok (tab_run dp evs t)"
proof -
  have "(\<lambda>t t'. \<exists>dp n ev. event_ok ev \<and> t' = tab_step dp n ev t)\<^sup>*\<^sup>* t (tab_run dp evs t)"
    using assms(1)
  proof (induction evs rule: rev_induct)
    case (snoc x evs)
    then show ?case by (cases x) (auto simp: tab_run_def intro: rtranclp.rtrancl_into_rtrancl)
  qed (simp add: tab_run_def)
  then show ?thesis using assms(2) by (rule tb.run_inv)
qed

subsection \<open>What ends a session\<close>

fun ends_session :: "tab_event \<Rightarrow> bool" where
  "ends_session SignOut \<longleftrightarrow> True"
| "ends_session (OtherTab st) \<longleftrightarrow> True"
| "ends_session (SignIn host address msg_of nonceCall sign verifyCall) \<longleftrightarrow>
     denied nonceCall \<or> (\<exists>g. denied (verifyCall g) \<or> (\<exists>v. accepted (verifyCall g) v))"
| "ends_session (RestAnswer r) \<longleftrightarrow> (\<exists>res. r = Inr res \<and> hr_status res = 401)"
| "ends_session (Socket e) \<longleftrightarrow> (\<exists>i. e = WasClosed i 3000)"
| "ends_session _ \<longleftrightarrow> False"

text \<open>A read before the expiry leaves the storage alone.\<close>

definition fresh_session :: "(string \<Rightarrow> number) \<Rightarrow> turn \<Rightarrow> (string, string) jmap \<Rightarrow> bool" where
  "fresh_session dp n st \<longleftrightarrow> (\<exists>e. mget st jwt_exp_key = Some e \<and> \<not> num_le (dp e) (tn_now n))"

lemma snapshot_fresh: "fresh_session dp n (bw_storage b) \<Longrightarrow> snd (jwtSnapshot dp (tn_now n) k (cached, b)) = b"
  by (auto simp: jwtSnapshot_def readStoredJwt_def fresh_session_def Let_def split: option.splits prod.splits if_splits)

lemma change_keeps:
  "fresh_session dp n (bw_storage (tb_browser t)) \<Longrightarrow> tb_browser (on_jwt_change dp n t) = tb_browser t"
  using snapshot_fresh [of dp n "tb_browser t" "tb_fresh t" "tb_cached t"]
  by (auto simp: on_jwt_change_def Let_def split: option.split prod.split)

lemma dispatching_keeps:
  "tb_browser t' = tb_browser t \<Longrightarrow> dispatching dp n t t' = t'"
  by (simp add: dispatching_def)

lemma socket_step_keeps:
  "(\<nexists>i. e = WasClosed i 3000) \<Longrightarrow> wc_browser (socket_step n e c) = wc_browser c"
  by (cases e) (auto simp: subscribe_def unsubscribe_def send_def on_def off_def onTimer_def onopen_def onmessage_def onclose_def
      onerror_def sock_close_def scheduleReconnect_def Let_def split: option.splits ws_message.splits)

lemma step_keeps_session:
  assumes "\<not> ends_session ev" "fresh_session dp n (bw_storage (tb_browser t))"
  shows "tb_browser (tab_step dp n ev t) = tb_browser t"
proof (cases ev)
  case MountSiwe
  then show ?thesis using snapshot_fresh [OF assms(2), of "tb_fresh t" "tb_cached t"] by (auto simp: mount_siwe_def split: prod.split)
next
  case (SignIn host a m nc sg v)
  obtain s b where sb: "signIn host a m nc sg v (tb_siwe t, tb_browser t) = (s, b)" by force
  then have "b = tb_browser t" using signIn_browser [OF sb] assms(1) by (auto simp: SignIn)
  then show ?thesis by (simp add: SignIn sb dispatching_keeps)
next
  case (RestAnswer r)
  then have "snd (request r (tb_browser t)) = tb_browser t" using assms(1) by (auto simp: request_storage denied_def)
  then show ?thesis by (simp add: RestAnswer dispatching_keeps)
next
  case (Socket e)
  then have "wc_browser (socket_step n e c) = wc_browser c" for c using assms(1) by (intro socket_step_keeps) simp
  then show ?thesis by (simp add: Socket Let_def dispatching_keeps split: option.split)
qed (use assms change_keeps [OF assms(2)] in \<open>auto simp: unmount_siwe_def split: sum.split\<close>)

text \<open>A storage without the keys is read as no session; a close with code 3000 leaves such a storage.\<close>

lemma snapshot_cleared:
  assumes "mget (bw_storage b) jwt_key = None"
  shows "jwtSnapshot dp now fresh (cached, b) = (None, b)"
proof -
  have "readStoredJwt dp now b = (None, b)"
    using assms by (simp add: readStoredJwt_def truthy_str_def del: mget_None_iff)
  from jwtSnapshot_read [OF this] show ?thesis by simp
qed

lemma close_3000:
  assumes "tb_ws t = Some c" "sock_state c i \<noteq> Closed"
  shows "tab_step dp n (Socket (WasClosed i 3000)) t =
    on_jwt_change dp n (t\<lparr>tb_ws := Some (onclose i 3000 (tn_jitter n) (c\<lparr>wc_browser := tb_browser t\<rparr>)),
      tb_browser := clearStoredJwtOnUnauthorized (tb_browser t)\<rparr>)"
proof -
  have "sock_state (c\<lparr>wc_browser := tb_browser t\<rparr>) i \<noteq> Closed" using assms(2) by (auto simp: sock_state_def split: if_splits)
  moreover have "wc_browser (onclose i 3000 (tn_jitter n) (c\<lparr>wc_browser := tb_browser t\<rparr>)) =
      clearStoredJwtOnUnauthorized (tb_browser t)" by (simp add: onclose_def Let_def)
  ultimately show ?thesis by (simp add: assms(1) Let_def dispatching_def)
qed

lemma cleared_storage: "mget (bw_storage (clearStoredJwtOnUnauthorized b)) jwt_key = None"
  by (simp add: clearStoredJwtOnUnauthorized_def del: mget_None_iff)

lemma close_3000_reaction:
  assumes "tb_hook t = Some s" "tb_ws t = Some c" "sock_state c i \<noteq> Closed"
    "d = onclose i 3000 (tn_jitter n) (c\<lparr>wc_browser := tb_browser t\<rparr>)"
  shows "let t' = tab_step dp n (Socket (WasClosed i 3000)) t in
    tb_hook t' = Some None \<and>
    tb_ws t' = Some (if s = None then d else setToken (tn_ctor_ok n) (tn_jitter n) None d)"
  unfolding close_3000 [OF assms(2,3)]
  by (auto simp: on_jwt_change_def assms(1,4) snapshot_cleared cleared_storage Let_def
      shown_jwt_def siwe_effect_def syncWsToken_def)

section \<open>Properties\<close>

definition demo_turn :: turn where
  "demo_turn = \<lparr>tn_now = Fin 0, tn_ctor_ok = True, tn_jitter = Fin 0\<rparr>"

definition demo_signed_in :: "(turn \<times> tab_event) list" where
  "demo_signed_in = map (Pair demo_turn) [UseSocket, MountSiwe,
     SignIn [] (Some ''0xa'') (\<lambda>n. siwe_fields ''h'' ''o'' ''0xa'' 1 n ''d'') (Inr \<lparr>hr_status = 200, hr_statusText = [], hr_payload = Json ''n''\<rparr>)
       (\<lambda>m. Inr ''s'') (\<lambda>g. Inr \<lparr>hr_status = 200, hr_statusText = [], hr_payload = Json \<lparr>sv_jwt = ''t'', sv_expiresAt = ''x''\<rparr>\<rparr>)]"

lemmas tab_eval = demo_turn_def demo_signed_in_def tab_run_def new_tab_def mount_siwe_def on_jwt_change_def dispatching_def
  shown_jwt_def signIn_def request_def res_ok_def siwe_fields_def writeJwt_def emitJwtChange_def jwtSnapshot_def readStoredJwt_def siwe_effect_def
  syncWsToken_def setToken_def getWsClient_def new_client_def connect_def sock_close_def set_sock_state_def sock_state_def
  truthy_str_def jwt_key_def jwt_exp_key_def jwt_event_def Let_def

text \<open>
  C11. One session for the whole tab: from any storage in which the token and its expiry are
  both present and non-empty or both absent, after any sequence of mounting the hook, rendering,
  signing in and out, REST answers, writes of other tabs and socket calls and events, whatever a
  mounted \<open>useSiwe\<close> shows is what the next REST request carries in its \<open>Authorization\<close> header and
  what the socket client authenticates with when its next socket opens, and when it shows no
  session neither sends one.
\<close>

theorem tab_token_agrees:
  assumes "list_all (event_ok \<circ> snd) evs" "paired st" "t = tab_run dp evs (new_tab st)" "tb_hook t = Some s"
  shows "mget (request_headers (tb_browser t)) ''Authorization'' = map_option (\<lambda>j. ''Bearer '' @ j) (shown_jwt s) \<and>
    (\<forall>c. tb_ws t = Some c \<longrightarrow> open_frames c =
      (case shown_jwt s of None \<Rightarrow> [] | Some j \<Rightarrow> [Auth j]) @ map Subscribe (wc_subs c) @ wc_outboundQueue c)"
proof (intro conjI allI impI)
  have "tab_ok (new_tab st)" using assms(2) by (simp add: tab_ok_def new_tab_def)
  from tab_run_ok [OF assms(1) this] have ok: "tab_ok t" by (simp add: assms(3))
  then have j: "shown_jwt s = mget (bw_storage (tb_browser t)) jwt_key" "shown_jwt s \<noteq> Some []"
    using assms(4) by (auto simp: tab_ok_def stored_jwt_of_def paired_def truthy_str_def simp del: mget_None_iff)
  then show "mget (request_headers (tb_browser t)) ''Authorization'' = map_option (\<lambda>j. ''Bearer '' @ j) (shown_jwt s)"
    by (auto simp: request_headers_def authHeaders_def j(1) [symmetric] split: option.splits list.splits)
  show "open_frames c = (case shown_jwt s of None \<Rightarrow> [] | Some j \<Rightarrow> [Auth j]) @ map Subscribe (wc_subs c) @ wc_outboundQueue c"
    if "tb_ws t = Some c" for c
    using that ok assms(4) j(2) by (auto simp: tab_ok_def open_frames_def truthy_str_def split: option.splits)
qed

theorem tab_token_agrees_witness:
  "let t = tab_run (\<lambda>_. Fin 1) demo_signed_in (new_tab []) in
     mget (request_headers (tb_browser t)) ''Authorization'' = Some ''Bearer t'' \<and>
     open_frames (the (tb_ws t)) = [Auth ''t'']"
proof -
  let ?t = "tab_run (\<lambda>_. Fin 1) demo_signed_in (new_tab [])"
  have ok: "list_all (event_ok \<circ> snd) demo_signed_in" by (simp add: demo_signed_in_def accepted_def)
  have p: "paired []" by (simp add: paired_def)
  have h: "tb_hook ?t = Some (Some (1, \<lparr>sj_jwt = ''t'', sj_expiresAt = ''x''\<rparr>))" by (simp add: tab_eval)
  have w: "map_option (\<lambda>c. wc_subs c = [] \<and> wc_outboundQueue c = []) (tb_ws ?t) = Some True" by (simp add: tab_eval)
  then obtain c where c: "tb_ws ?t = Some c" "wc_subs c = []" "wc_outboundQueue c = []" by auto
  show ?thesis using tab_token_agrees [OF ok p refl h] c by (simp add: shown_jwt_def Let_def)
qed

text \<open>
  C13. A session is never lost without a cause: as long as nobody signs out or in, no other tab
  writes the storage, no request is answered by a 401, no socket is closed with code 3000 and the
  clock stays before the expiry, whatever else happens in the tab (failed requests and answers of
  other statuses, lost connections, reconnects, mounting and rendering) the token and its expiry
  stay in the storage, and a mounted \<open>useSiwe\<close> shows them.
\<close>

theorem session_survives:
  assumes "mget st jwt_key = Some j" "mget st jwt_exp_key = Some e" "j \<noteq> []" "e \<noteq> []"
    and "\<forall>(n, ev)\<in>set evs. \<not> ends_session ev \<and> \<not> num_le (dp e) (tn_now n)"
    and "t = tab_run dp evs (new_tab st)"
  shows "bw_storage (tb_browser t) = st \<and> (\<forall>s. tb_hook t = Some s \<longrightarrow> hasJwt s \<and> shown_jwt s = Some j)"
proof -
  have b: "tb_browser (tab_run dp evs (new_tab st)) = tb_browser (new_tab st)"
    using assms(5)
  proof (induction evs rule: rev_induct)
    case (snoc x evs)
    obtain n ev where x: "x = (n, ev)" by (cases x)
    have "fresh_session dp n (bw_storage (tb_browser (tab_run dp evs (new_tab st))))"
      using snoc assms(2) by (auto simp: x fresh_session_def new_tab_def)
    then show ?case using step_keeps_session [of ev dp n] snoc by (simp add: x tab_run_def)
  qed (simp add: tab_run_def)
  have "paired st" using assms(1-4) by (simp add: paired_def truthy_str_def)
  moreover have "list_all (event_ok \<circ> snd) evs"
    unfolding list_all_iff
  proof
    fix x assume "x \<in> set evs"
    then have "\<not> ends_session (snd x)" using assms(5) by (cases x) auto
    then show "(event_ok \<circ> snd) x" by (cases "snd x") auto
  qed
  ultimately have "tab_ok t" using tab_run_ok [of evs "new_tab st" dp] assms(6) by (simp add: tab_ok_def new_tab_def)
  then show ?thesis using b assms(1,6) by (auto simp: tab_ok_def stored_jwt_of_def new_tab_def hasJwt_def shown_jwt_def)
qed

theorem session_survives_witness:
  "let t = tab_run (\<lambda>_. Fin 1) [(demo_turn, UseSocket), (demo_turn, MountSiwe), (demo_turn, RestAnswer (Inl ''offline'')),
       (demo_turn, Socket (WasClosed 0 1006)), (demo_turn, Rerender)] (new_tab [(jwt_key, ''t''), (jwt_exp_key, ''x'')]) in
     bw_storage (tb_browser t) = [(jwt_key, ''t''), (jwt_exp_key, ''x'')]"
  unfolding Let_def
  by (rule session_survives [where j = "''t''" and e = "''x''", THEN conjunct1, OF _ _ _ _ _ refl]) (simp_all add: demo_turn_def)

text \<open>
  The socket is not quiet after the edge rejects its token: when a socket of a tab whose
  \<open>useSiwe\<close> shows a session closes with code 3000, the hook sees the session go and calls
  \<open>setToken(null)\<close>, which takes the closed mark off again and opens a fresh socket without a
  token, before any new sign-in. Only when that socket is closed with 3000 too, the client stays
  closed, without a socket.
\<close>

theorem unauthorized_close_reconnects:
  assumes "tb_hook t = Some (Some x)" "tb_ws t = Some c" "sock_state c i \<noteq> Closed" "tn_ctor_ok n"
    and "t' = tab_step dp n (Socket (WasClosed i 3000)) t" "j = length (wc_sockets c)"
    and "t'' = tab_step dp' n' (Socket (WasClosed j 3000)) t'"
  shows "\<exists>c' c''. tb_hook t' = Some None \<and> tb_ws t' = Some c' \<and> \<not> wc_closed c' \<and> wc_token c' = None \<and>
      wc_ws c' = Some j \<and> sock_state c' j = Connecting \<and>
      tb_ws t'' = Some c'' \<and> wc_closed c'' \<and> wc_ws c'' = None"
proof -
  let ?d = "onclose i 3000 (tn_jitter n) (c\<lparr>wc_browser := tb_browser t\<rparr>)"
  let ?c = "setToken True (tn_jitter n) None ?d"
  have t': "tb_hook t' = Some None" "tb_ws t' = Some ?c"
    using close_3000_reaction [OF assms(1,2,3) refl, of dp n] assms(4) by (simp_all add: assms(5) Let_def)
  have c': "\<not> wc_closed ?c \<and> wc_token ?c = None \<and> wc_ws ?c = Some j \<and> sock_state ?c j = Connecting"
    by (auto simp: onclose_def setToken_def connect_def sock_state_def set_sock_state_def nth_append Let_def assms(6))
  then have "sock_state ?c j \<noteq> Closed" by simp
  from close_3000_reaction [OF t' this refl, of dp' n'] t' c' show ?thesis
    by (auto simp: assms(7) Let_def onclose_def)
qed

theorem unauthorized_close_reconnects_witness:
  "let t = tab_run (\<lambda>_. Fin 1) demo_signed_in (new_tab []);
       t' = tab_step (\<lambda>_. Fin 1) demo_turn (Socket (WasClosed 0 3000)) t
   in \<exists>c'. tb_hook t' = Some None \<and> tb_ws t' = Some c' \<and> \<not> wc_closed c' \<and> wc_ws c' = Some 1"
proof -
  let ?t = "tab_run (\<lambda>_. Fin 1) demo_signed_in (new_tab [])"
  have h: "tb_hook ?t = Some (Some (1, \<lparr>sj_jwt = ''t'', sj_expiresAt = ''x''\<rparr>))" by (simp add: tab_eval)
  have w: "map_option (\<lambda>c. sock_state c 0 \<noteq> Closed \<and> length (wc_sockets c) = 1) (tb_ws ?t) = Some True" by (simp add: tab_eval)
  then obtain c where c: "tb_ws ?t = Some c" "sock_state c 0 \<noteq> Closed" "length (wc_sockets c) = 1" by auto
  have "tn_ctor_ok demo_turn" by (simp add: demo_turn_def)
  from unauthorized_close_reconnects [OF h c(1,2) this refl refl refl] show ?thesis
    by (simp add: c(3) Let_def) blast
qed

end
