(* ===== verification/Site.thy ===== *)
theory Site
  imports MockBackend Ticket
begin

text \<open>
  The marketing and documentation site and the small shared controls: the price tiles and the
  statistics of the landing page (\<^verbatim>\<open>components/spark/PriceTile.tsx\<close>, \<^verbatim>\<open>LogoCard.tsx\<close>,
  \<^verbatim>\<open>sections/Stats.tsx\<close>, \<^verbatim>\<open>RingBg.tsx\<close>), the navigation (\<^verbatim>\<open>PillNav.tsx\<close>,
  \<^verbatim>\<open>docs/Sidebar.tsx\<close>, \<^verbatim>\<open>layout/MobileTabBar.tsx\<close>), the copy button of \<^verbatim>\<open>docs/Code.tsx\<close>, what
  the documentation page says of the interface, and the class names and texts of the primitives
  under \<^verbatim>\<open>components/ui\<close>. Random draws, scroll positions and what the intersection observer
  reports are inputs.
\<close>

section \<open>Class names\<close>

text \<open>A part that is \<open>false\<close>, \<open>null\<close> or \<open>undefined\<close> is \<open>None\<close>; empty strings are dropped too.\<close>

definition cn :: "string option list \<Rightarrow> string" where
  "cn parts = concat (case filter (\<lambda>s. s \<noteq> []) (map the (filter (\<lambda>p. p \<noteq> None) parts)) of
     [] \<Rightarrow> [] | x # xs \<Rightarrow> x # map (\<lambda>s. CHR '' '' # s) xs)"

definition cls :: "bool \<Rightarrow> string \<Rightarrow> string option" where
  "cls b s = (if b then Some s else None)"

section \<open>Primitives\<close>

definition button_disabled :: "bool \<Rightarrow> bool \<Rightarrow> bool" where
  "button_disabled disabled loading = (disabled \<or> loading)"

datatype button_size = Sm | Md | Lg

fun sizeCls :: "button_size \<Rightarrow> string" where
  "sizeCls Sm = ''h-8 px-3 text-xs rounded-[var(--radius-sm)]''"
| "sizeCls Md = ''h-10 px-4 text-sm rounded-[var(--radius-md)]''"
| "sizeCls Lg = ''h-12 px-5 text-[15px] rounded-[var(--radius-md)]''"

datatype button_variant = Primary | Secondary | Ghost | LongVariant | ShortVariant | Danger

fun variantCls :: "button_variant \<Rightarrow> string" where
  "variantCls Primary = ''bg-accent text-white hover:bg-accent-strong active:translate-y-px font-medium shadow-[0_0_0_1px_var(--accent-strong)]''"
| "variantCls Secondary = ''bg-bg-2 text-fg hover:bg-bg-hover border border-border hover:border-border-strong font-medium''"
| "variantCls Ghost = ''bg-transparent text-fg-mid hover:text-fg hover:bg-bg-2''"
| "variantCls LongVariant = ''bg-long text-white hover:bg-long-strong font-semibold shadow-[0_0_0_1px_var(--long-strong)]''"
| "variantCls ShortVariant = ''bg-short text-white hover:bg-short-strong font-semibold shadow-[0_0_0_1px_var(--short-strong)]''"
| "variantCls Danger = ''bg-short-soft text-short border border-[var(--short-strong)] hover:bg-short hover:text-white''"

definition button_class :: "button_variant option \<Rightarrow> button_size option \<Rightarrow> bool \<Rightarrow> string option \<Rightarrow> string" where
  "button_class variant sz block className =
     cn [Some ''inline-flex items-center justify-center gap-2 transition-colors duration-150 select-none'',
         Some ''disabled:opacity-50 disabled:cursor-not-allowed'',
         Some (sizeCls (case sz of None \<Rightarrow> Md | Some s \<Rightarrow> s)),
         Some (variantCls (case variant of None \<Rightarrow> Secondary | Some v \<Rightarrow> v)),
         cls block ''w-full'', className]"

text \<open>
  The note under an input, with its class: \<open>error ?? hint\<close>, shown when one of them is not
  empty; the second component is \<open>aria-invalid\<close>.
\<close>

definition input_note :: "string option \<Rightarrow> string option \<Rightarrow> (string \<times> string) option \<times> bool" where
  "input_note error hint =
     (let text_ok = (\<lambda>s. s \<noteq> None \<and> s \<noteq> Some []) in
      (if text_ok error \<or> text_ok hint
       then Some (case error of Some e \<Rightarrow> e | None \<Rightarrow> the hint, cn [Some ''text-[11px]'', Some (if text_ok error then ''text-short'' else ''text-fg-muted'')])
       else None, text_ok error))"

definition input_id :: "string option \<Rightarrow> string option \<Rightarrow> string option" where
  "input_id i name = (case i of None \<Rightarrow> name | Some x \<Rightarrow> Some x)"

datatype tabs_variant = Underline | Pill | Segmented

definition tab_class :: "tabs_variant \<Rightarrow> bool \<Rightarrow> bool \<Rightarrow> string" where
  "tab_class variant small active =
     cn [Some ''transition-colors duration-150 select-none whitespace-nowrap'',
         Some (if small then ''text-[12px]'' else ''text-[13px]''),
         cls (variant = Underline) (cn [Some ''h-9 -mb-px border-b-2 px-1'',
           Some (if active then ''text-fg border-accent'' else ''text-fg-muted hover:text-fg-mid border-transparent'')]),
         cls (variant = Pill) (cn [Some ''h-8 px-3 rounded-[var(--radius-sm)]'',
           Some (if active then ''bg-accent-soft text-accent'' else ''text-fg-muted hover:text-fg'')]),
         cls (variant = Segmented) (cn [Some ''h-7 px-3 rounded-[var(--radius-sm)] font-medium flex-1 text-center'',
           Some (if active then ''bg-bg-hover text-fg'' else ''text-fg-muted hover:text-fg'')])]"

definition tablist_class :: "tabs_variant \<Rightarrow> string option \<Rightarrow> string" where
  "tablist_class variant className = cn [Some ''flex items-center'',
     cls (variant = Segmented) ''p-1 bg-bg-2 border border-border rounded-[var(--radius-md)] gap-1'',
     cls (variant = Underline) ''gap-4 border-b border-border'', cls (variant = Pill) ''gap-1'', className]"

definition tab_badge_class :: "bool \<Rightarrow> string" where
  "tab_badge_class active = cn [Some ''px-1.5 h-4 inline-flex items-center justify-center text-[10px] rounded-full font-mono'',
     Some (if active then ''bg-accent-soft text-accent'' else ''bg-bg-2 text-fg-muted'')]"

text \<open>The buttons of a tab list: value, label, whether selected, class and the count shown.\<close>

definition tabs_rows :: "tabs_variant \<Rightarrow> bool \<Rightarrow> 'v \<Rightarrow> ('v \<times> string \<times> nat option) list \<Rightarrow> ('v \<times> string \<times> bool \<times> string \<times> nat option) list" where
  "tabs_rows variant small value items = map (\<lambda>(v, label, count). (v, label, v = value, tab_class variant small (v = value), count)) items"

datatype callout_kind = InfoNote | WarnNote | TipNote

definition star :: string where "star = [CHR 0xE2, CHR 0x98, CHR 0x85]"

fun callout_style :: "callout_kind \<Rightarrow> string \<times> string \<times> string \<times> string" where
  "callout_style InfoNote = (''color-mix(in oklab, var(--info), transparent 88%)'', ''var(--info)'', ''i'', ''Note'')"
| "callout_style WarnNote = (''color-mix(in oklab, var(--warn), transparent 86%)'', ''var(--warn)'', ''!'', ''Warning'')"
| "callout_style TipNote = (''color-mix(in oklab, var(--accent), transparent 88%)'', ''var(--accent)'', star, ''Tip'')"

definition card_class :: "bool \<Rightarrow> bool \<Rightarrow> string option \<Rightarrow> string" where
  "card_class raised bordered className = cn [Some ''rounded-[var(--radius-lg)] overflow-hidden'',
     Some (if raised then ''bg-bg-2'' else ''bg-bg-1''), cls bordered ''border border-border'', className]"

definition card_header_class :: "string option \<Rightarrow> string" where
  "card_header_class className = cn [Some ''flex items-center justify-between px-4 h-11 border-b border-border text-[12px] uppercase tracking-wider text-fg-muted font-medium'', className]"

definition card_body_class :: "string option \<Rightarrow> string" where
  "card_body_class className = cn [Some ''p-4'', className]"

definition skeleton_class :: "string option \<Rightarrow> string" where
  "skeleton_class className = cn [Some ''rounded-[var(--radius-sm)] bg-gradient-to-r from-bg-2 via-bg-3 to-bg-2 bg-[length:200%_100%]'',
     Some ''animate-[shimmer_1.4s_ease-in-out_infinite]'', className]"

definition input_box_class :: "string option \<Rightarrow> string option \<Rightarrow> string" where
  "input_box_class error className = cn [Some ''flex items-center h-10 px-3 gap-2 bg-bg-2 border border-border rounded-[var(--radius-md)]'',
     Some ''focus-within:border-accent transition-colors'', cls (error \<noteq> None \<and> error \<noteq> Some []) ''border-short'', className]"

definition input_class :: "bool \<Rightarrow> string" where
  "input_class monospace = cn [Some ''flex-1 min-w-0 bg-transparent outline-none text-fg placeholder:text-fg-dim text-sm'', cls monospace ''font-mono'']"

text \<open>The texts of the two placeholder boxes, and whether the error box offers a retry.\<close>

definition error_state :: "string option \<Rightarrow> string option \<Rightarrow> bool \<Rightarrow> string list" where
  "error_state title description retry =
     (case title of None \<Rightarrow> ''Something went wrong'' | Some t \<Rightarrow> t) #
     (case description of Some (c # cs) \<Rightarrow> [c # cs] | _ \<Rightarrow> []) @ (if retry then [''Retry''] else [])"

definition empty_state :: "string \<Rightarrow> string option \<Rightarrow> string list" where
  "empty_state title description = title # (case description of Some (c # cs) \<Rightarrow> [c # cs] | _ \<Rightarrow> [])"

text \<open>\<open>CoinIcon\<close>: the palette of a market and the size of its mark.\<close>

fun coin_style :: "market_id \<Rightarrow> string \<times> string" where
  "coin_style BtcUsd = (''#f7931a'', ''#ffffff'')"
| "coin_style EthUsd = (''#627eea'', ''#ffffff'')"
| "coin_style SolUsd = (''#000000'', ''#14f195'')"

text \<open>\<open>Math.round\<close>: the nearest integer, halves upwards.\<close>

fun num_round :: "number \<Rightarrow> number" where
  "num_round (Fin a) = Fin (of_int \<lfloor>a + 1/2\<rfloor>)"
| "num_round x = x"

definition coin_mark_size :: "market_id \<Rightarrow> number \<Rightarrow> number" where
  "coin_mark_size m sz = num_round (sz * lit (if m = EthUsd then 6/10 else 58/100))"

section \<open>The price tiles\<close>








definition series_min :: "number list \<Rightarrow> number" where
  "series_min xs = foldl num_min PInf xs"

definition series_max :: "number list \<Rightarrow> number" where
  "series_max xs = foldl num_max MInf xs"

definition series_span :: "number list \<Rightarrow> number" where
  "series_span xs = num_max (Fin 1) (series_max xs - series_min xs)"

definition tile_sx :: "number list \<Rightarrow> nat \<Rightarrow> number" where
  "tile_sx xs i = Fin (of_nat i) / (Fin (of_nat (length xs)) - Fin 1) * Fin 100"

definition tile_sy :: "number list \<Rightarrow> number \<Rightarrow> number" where
  "tile_sy xs v = Fin 32 - Fin 2 - (v - series_min xs) / series_span xs * (Fin 32 - Fin 6)"

definition path_point :: "number list \<Rightarrow> nat \<Rightarrow> string" where
  "path_point xs i = (if i = 0 then ''M'' else ''L'') @ to_fixed (tile_sx xs i) 1 @ '','' @ to_fixed (tile_sy xs (xs ! i)) 1"

definition tile_path :: "number list \<Rightarrow> string" where
  "tile_path xs = join_with '' '' (map (path_point xs) [0..<length xs])"

definition tile_positive :: "number list \<Rightarrow> bool" where
  "tile_positive xs = num_le (hd xs) (last xs)"

definition tile_stroke :: "number list \<Rightarrow> string" where
  "tile_stroke xs = (if tile_positive xs then ''#1ad094'' else ''#ff5a6a'')"

definition tile_change :: "number list \<Rightarrow> string" where
  "tile_change xs = (if tile_positive xs then ''+'' else minus_sign) @
     to_fixed (num_abs ((last xs - hd xs) / hd xs * Fin 100)) 2 @ ''%''"

section \<open>Lemmas\<close>

subsection \<open>The sparkline\<close>










section \<open>Properties\<close>



end
