(* ===== verification/Pages.thy ===== *)
theory Pages
  imports Site Shell
begin

text \<open>
  The navigation and the documentation of the site: the live figures of the landing page
  (\<^verbatim>\<open>components/spark/sections/Stats.tsx\<close>) and its rings (\<^verbatim>\<open>RingBg.tsx\<close>), the pill navigation
  (\<^verbatim>\<open>PillNav.tsx\<close>), the documentation's side bar and copy button (\<^verbatim>\<open>docs/Sidebar.tsx\<close>,
  \<^verbatim>\<open>docs/Code.tsx\<close>), the tab bar of the small screen (\<^verbatim>\<open>layout/MobileTabBar.tsx\<close>), and the tables
  of the documentation page that restate the interface of the exchange. What the intersection
  observer, the scroll position and the clipboard answer are inputs of the model.
\<close>

section \<open>Landing page\<close>

definition BARS :: "(string \<times> nat) list" where
  "BARS = [(''Mon'', 38), (''Tue'', 52), (''Wed'', 44), (''Thu'', 70), (''Fri'', 86), (''Sat'', 64), (''Sun'', 92)]"

record stats =
  sf_vol :: number
  sf_oi :: number
  sf_fills :: number

definition initial_stats :: stats where
  "initial_stats = \<lparr>sf_vol = lit (242/100), sf_oi = lit (8914/10), sf_fills = Fin 184320000\<rparr>"

text \<open>One tick of the interval: three draws, the last scaled to a whole number of fills.\<close>

definition stats_tick :: "number \<times> number \<times> number \<Rightarrow> stats \<Rightarrow> stats" where
  "stats_tick d s = (case d of (a, b, c) \<Rightarrow>
     \<lparr>sf_vol = sf_vol s + a * lit (2/1000), sf_oi = sf_oi s + b * lit (4/100),
      sf_fills = sf_fills s + num_floor (c * Fin 80)\<rparr>)"

definition volume_text :: "stats \<Rightarrow> string" where
  "volume_text s = ''$'' @ to_fixed (sf_vol s) 2 @ ''B''"

definition open_interest_text :: "stats \<Rightarrow> string" where
  "open_interest_text s = ''$'' @ to_fixed (sf_oi s) 1 @ ''M''"

text \<open>The rings: radius and opacity of each.\<close>

definition rings :: "(number \<times> number) list" where
  "rings = map (\<lambda>i. (Fin 110 + Fin (of_nat i) * Fin 95,
                     num_max (lit (25/1000)) (lit (16/100) - Fin (of_nat i) * lit (11/1000)))) [0..<14]"

record coin =
  co_symbol :: string
  co_r :: int
  co_start :: int
  co_dur :: int
  co_ccw :: bool

definition COINS :: "coin list" where
  "COINS =
     [\<lparr>co_symbol = ''BTC'', co_r = 395, co_start = 20, co_dur = 28, co_ccw = False\<rparr>,
      \<lparr>co_symbol = ''ETH'', co_r = 490, co_start = 130, co_dur = 36, co_ccw = True\<rparr>,
      \<lparr>co_symbol = ''SOL'', co_r = 585, co_start = 240, co_dur = 44, co_ccw = False\<rparr>,
      \<lparr>co_symbol = ''ZEC'', co_r = 680, co_start = 70, co_dur = 54, co_ccw = True\<rparr>,
      \<lparr>co_symbol = ''DOGE'', co_r = 775, co_start = 310, co_dur = 64, co_ccw = False\<rparr>]"

definition orbit_delay :: "coin \<Rightarrow> number" where
  "orbit_delay c = - (Fin (of_int (co_start c)) / Fin 360) * Fin (of_int (co_dur c))"

text \<open>The classes of the two groups of a coin and the height of its centre.\<close>

definition orbit_coin :: "coin \<Rightarrow> string \<times> string \<times> int" where
  "orbit_coin c = ((if co_ccw c then ''orbit-ccw'' else ''orbit-cw'') @ '' orbit-coin'',
     if co_ccw c then ''orbit-counter-ccw'' else ''orbit-counter-cw'', 900 - co_r c)"

section \<open>Navigation\<close>

definition pill_links :: "(string \<times> string) list" where
  "pill_links = [(''Features'', ''/#features''), (''How it works'', ''/#how''), (''Docs'', ''/docs''),
     (''Stats'', ''/#stats''), (''Contact'', ''/#contact'')]"

record pill_nav =
  pn_open :: bool
  pn_scrolled :: bool
  pn_watch :: bool

text \<open>
  \<open>pn_watch\<close>: the effect found the hero's button and observes it; otherwise it follows the
  scroll position. The effect runs on mount and at every change of path.
\<close>

datatype pill_event = PillEffect bool number | PillScroll number | PillObserve bool number | PillMenu | PillFollow

definition show_nav :: "string option \<Rightarrow> bool" where
  "show_nav pathname = ((case pathname of None \<Rightarrow> ''/'' | Some p \<Rightarrow> if p = [] then ''/'' else p) = ''/'')"

fun pill_step :: "pill_event \<Rightarrow> pill_nav \<Rightarrow> pill_nav" where
  "pill_step (PillEffect hero y) s = (if hero then s\<lparr>pn_watch := True\<rparr>
     else s\<lparr>pn_watch := False, pn_scrolled := num_lt (Fin 520) y\<rparr>)"
| "pill_step (PillScroll y) s = (if pn_watch s then s else s\<lparr>pn_scrolled := num_lt (Fin 520) y\<rparr>)"
| "pill_step (PillObserve intersecting edge) s =
     (if pn_watch s then s\<lparr>pn_scrolled := \<not> intersecting \<and> num_lt edge (Fin 0)\<rparr> else s)"
| "pill_step PillMenu s = s\<lparr>pn_open := \<not> pn_open s\<rparr>"
| "pill_step PillFollow s = s\<lparr>pn_open := False\<rparr>"

text \<open>The entries of the small screen's menu; none when it is closed.\<close>

definition pill_menu :: "string option \<Rightarrow> pill_nav \<Rightarrow> (string \<times> string) list" where
  "pill_menu pathname s = (if pn_open s then (if show_nav pathname then pill_links else []) @ [(''Get Started'', ''/markets'')] else [])"

definition brand_class :: "pill_nav \<Rightarrow> string" where
  "brand_class s = ''flex items-center gap-2 shrink-0 text-[var(--s-text)] transition-opacity duration-700 ease-out '' @
     (if pn_scrolled s then ''opacity-0 pointer-events-none'' else ''opacity-100'')"

definition tab_items :: "(string \<times> string) list" where
  "tab_items = [(''/trade'', ''Trade''), (''/markets'', ''Markets''), (''/portfolio'', ''Portfolio''), (''/history'', ''History'')]"

text \<open>Target, label, whether active and class of each tab.\<close>

definition tab_bar :: "market_id \<Rightarrow> string \<Rightarrow> (string \<times> string \<times> bool \<times> string) list" where
  "tab_bar sel pathname = map (\<lambda>(href, label). let active = nav_match href pathname in
     (nav_href sel href, label, active,
      cn [Some ''flex flex-col items-center justify-center gap-0.5 text-[10px]'', Some (if active then ''text-accent'' else ''text-fg-muted'')])) tab_items"

section \<open>Overlays\<close>

fun kindCls :: "toast_kind \<Rightarrow> string" where
  "kindCls Info = ''border-border bg-bg-2 text-fg''"
| "kindCls Success = ''border-[var(--long-strong)] bg-long-soft text-fg''"
| "kindCls Warn = ''border-[var(--warn)] bg-warn-soft text-fg''"
| "kindCls Error = ''border-[var(--short-strong)] bg-short-soft text-fg''"

definition toast_dot_class :: "toast_kind \<Rightarrow> string" where
  "toast_dot_class k = cn [Some ''mt-1 size-1.5 rounded-full shrink-0'', cls (k = Success) ''bg-long'',
     cls (k = Error) ''bg-short'', cls (k = Warn) ''bg-warn'', cls (k = Info) ''bg-accent'']"

text \<open>The boxes on screen: id, class, dot and texts of each.\<close>

definition toast_boxes :: "ui_state \<Rightarrow> (string \<times> string \<times> string \<times> string list) list" where
  "toast_boxes u = map (\<lambda>t. (ts_id t,
     cn [Some ''border rounded-[var(--radius-md)] px-3 py-2.5 shadow-[var(--shadow-elev-2)] flex items-start gap-2 animate-[fadeIn_180ms_ease-out]'',
         Some (kindCls (ts_kind t))],
     toast_dot_class (ts_kind t),
     ts_title t # (case ts_body t of Some (c # cs) \<Rightarrow> [c # cs] | _ \<Rightarrow> []))) (ui_toasts u)"

definition celebration_texts :: "ui_state \<Rightarrow> string list option" where
  "celebration_texts u = (case ui_celebration u of None \<Rightarrow> None
     | Some c \<Rightarrow> Some (ce_title c # (case ce_body c of Some (x # xs) \<Rightarrow> [x # xs] | _ \<Rightarrow> [])))"

text \<open>What the providers show: the application or the splash, and the banner of a failed start.\<close>

datatype provider_part = AppChildren | BootSplash string | MocksErrorBanner string string

definition provider_parts :: "boot \<Rightarrow> provider_part list" where
  "provider_parts b = (if bt_ready b then [AppChildren] else [BootSplash (''booting mock backend'' @ ellipsis)]) @
     (case bt_error b of Some (c # cs) \<Rightarrow> [MocksErrorBanner ''Mock backend failed to start'' (c # cs)] | _ \<Rightarrow> [])"

section \<open>Documentation\<close>

definition GROUPS :: "(string \<times> (string \<times> string) list) list" where
  "GROUPS =
     [(''Getting started'', [(''intro'', ''Introduction''), (''quickstart'', ''Quickstart''), (''deposit'', ''Deposit USDC'')]),
      (''Concepts'', [(''what-is-perp'', ''What is a perpetual?''), (''margin'', ''Margin & leverage''),
                      (''funding'', ''Funding rates''), (''liquidation'', ''Liquidation'')]),
      (''Trading'', [(''order-types'', ''Order types''), (''tif'', ''Time in force''), (''session-keys'', ''Session keys''),
                     (''eip712'', ''EIP-712 orders''), (''fees'', ''Fees'')]),
      (''Tutorials'', [(''tut-first-long'', ''Open your first long''), (''tut-limit'', ''Place a limit order''),
                       (''tut-session'', ''Approve a session key''), (''tut-close'', ''Close a position'')]),
      (''Developers'', [(''api-rest'', ''REST API''), (''api-ws'', ''WebSocket channels'')]),
      (''Other'', [(''faq'', ''FAQ''), (''risk'', ''Risk disclosure'')])]"

definition section_ids :: "string list" where
  "section_ids = concat (map (\<lambda>(t, items). map fst items) GROUPS)"

text \<open>The observed sections: the listed ids the document has an element for.\<close>

definition observed :: "string list \<Rightarrow> string list" where
  "observed document_ids = filter (\<lambda>i. i \<in> set document_ids) section_ids"

record entry =
  en_id :: string
  en_isIntersecting :: bool
  en_top :: number

definition on_intersect :: "entry list \<Rightarrow> string \<Rightarrow> string" where
  "on_intersect entries active =
     (case sort_by (\<lambda>a b. en_top a - en_top b) (filter en_isIntersecting entries) of
        [] \<Rightarrow> active | e # es \<Rightarrow> en_id e)"

text \<open>The side bar: each group's title with, per link, target, label and whether it is marked.\<close>

definition sidebar :: "string \<Rightarrow> (string \<times> (string \<times> string \<times> bool) list) list" where
  "sidebar active = map (\<lambda>(t, items). (t, map (\<lambda>(i, label). (CHR ''#'' # i, label, active = i)) items)) GROUPS"

text \<open>The number of a step, from its index: two digits at least.\<close>

definition step_number :: "nat \<Rightarrow> string" where
  "step_number i = pad_start 2 (CHR ''0'') (int_str (int i + 1))"

text \<open>
  The copy button: the flag and the timers that will clear it, in the order they were set; every
  timer runs 1.4 seconds, so they fire in that order.
\<close>

record copy_button =
  cb_copied :: bool
  cb_timers :: nat

datatype copy_event = CopyWritten | CopyRejected | CopyTimer

definition copy_step :: "copy_event \<Rightarrow> copy_button \<Rightarrow> copy_button" where
  "copy_step ev c = (case ev of
       CopyWritten \<Rightarrow> \<lparr>cb_copied = True, cb_timers = Suc (cb_timers c)\<rparr>
     | CopyRejected \<Rightarrow> c
     | CopyTimer \<Rightarrow> if cb_timers c = 0 then c else \<lparr>cb_copied = False, cb_timers = cb_timers c - 1\<rparr>)"

definition copy_label :: "copy_button \<Rightarrow> string" where
  "copy_label c = (if cb_copied c then ''Copied'' else ''Copy'')"

text \<open>What the page says of the interface: endpoints, order codes, orders' lifetimes, fees, channels.\<close>

definition doc_endpoints :: "(http_method \<times> string) list" where
  "doc_endpoints =
     [(GET, ''/v1/markets''), (GET, ''/v1/orderbook/{marketId}''), (GET, ''/v1/trades/{marketId}''),
      (GET, ''/v1/funding/{marketId}''), (POST, ''/v1/orders''), (DELETE, ''/v1/orders/{orderId}''),
      (GET, ''/v1/orders/open''), (GET, ''/v1/positions''), (GET, ''/v1/fills''), (GET, ''/v1/account/balance'')]"

definition doc_side :: "(int \<times> string) list" where
  "doc_side = [(0, ''buy''), (1, ''sell'')]"

definition doc_orderType :: "(int \<times> string) list" where
  "doc_orderType = [(0, ''market''), (1, ''limit'')]"

definition doc_timeInForce :: "(int \<times> string) list" where
  "doc_timeInForce = [(0, ''gtc''), (1, ''ioc''), (2, ''fok'')]"

definition doc_tif_cards :: "(string \<times> string) list" where
  "doc_tif_cards = [(''GTC'', ''Good-Til-Cancelled''), (''IOC'', ''Immediate-Or-Cancel''), (''FOK'', ''Fill-Or-Kill'')]"

definition doc_taker_bps :: int where "doc_taker_bps = 5"

definition doc_maker_bps :: int where "doc_maker_bps = - 2"

definition doc_channels :: "string list" where
  "doc_channels = [''orderbook.{marketId}'', ''trades.{marketId}'', ''oracle.{marketId}'', ''funding.{marketId}'', ''account.{wallet}'']"

text \<open>The formula of the margin section, in exact arithmetic.\<close>

definition doc_liquidation :: "bool \<Rightarrow> rat \<Rightarrow> rat \<Rightarrow> rat \<Rightarrow> rat" where
  "doc_liquidation long entry leverage mm =
     (if long then entry * (1 - 1 / leverage + mm) else entry * (1 + 1 / leverage - mm))"

fun fee_palette :: "bool \<Rightarrow> string \<times> string" where
  "fee_palette warm = (if warm then ''var(--accent-soft)'' else ''color-mix(in oklab, var(--long), transparent 86%)'',
     if warm then ''var(--accent-strong)'' else ''var(--long-strong)'')"

fun endpoint_palette :: "http_method \<Rightarrow> string \<times> string \<times> string" where
  "endpoint_palette GET = (''var(--info)'', ''#1c6bc4'', ''color-mix(in oklab, var(--info), transparent 94%)'')"
| "endpoint_palette POST = (''var(--long)'', ''var(--long-strong)'', ''color-mix(in oklab, var(--long), transparent 94%)'')"
| "endpoint_palette DELETE = (''var(--short)'', ''var(--short-strong)'', ''color-mix(in oklab, var(--short), transparent 94%)'')"

section \<open>Lemmas\<close>

subsection \<open>The side bar\<close>

lemma distinct_section_ids: "distinct section_ids"
  by code_simp

lemma intro_listed: "''intro'' \<in> set section_ids"
  by code_simp

text \<open>The links of the side bar, group after group, are the listed sections.\<close>

lemma sidebar_marks: "map (\<lambda>(h, l, m). m) (concat (map snd (sidebar a))) = map (\<lambda>i. a = i) section_ids"
  by (simp add: sidebar_def section_ids_def map_concat o_def split_def)

lemma sidebar_marked_once:
  assumes "a \<in> set section_ids"
  shows "length (filter (\<lambda>(h, l, m). m) (concat (map snd (sidebar a)))) = 1" (is "length (filter _ ?links) = 1")
proof -
  have "length (filter (\<lambda>(h, l, m). m) ?links) = length (filter (\<lambda>m. m) (map (\<lambda>(h, l, m). m) ?links))"
    unfolding filter_map length_map o_def by (simp add: split_def)
  also have "\<dots> = length (filter ((=) a) section_ids)" unfolding sidebar_marks by (simp add: filter_map o_def)
  also have "\<dots> = 1" using assms distinct_section_ids by (simp add: distinct_length_filter Int_absorb2 Collect_conv_if)
  finally show ?thesis .
qed

lemma on_intersect_listed:
  assumes "\<forall>e\<in>set es. en_id e \<in> A" "a \<in> A"
  shows "on_intersect es a \<in> A"
proof (cases "sort_by (\<lambda>a b. en_top a - en_top b) (filter en_isIntersecting es)")
  case (Cons e rest)
  then have "e \<in> set (filter en_isIntersecting es)" by (metis list.set_intros(1) set_sort_by)
  then show ?thesis using assms(1) Cons by (simp add: on_intersect_def)
qed (simp add: on_intersect_def assms(2))

lemma on_intersect_run_listed:
  "\<forall>es\<in>set calls. \<forall>e\<in>set es. en_id e \<in> A \<Longrightarrow> a \<in> A \<Longrightarrow> foldl (\<lambda>a es. on_intersect es a) a calls \<in> A"
  by (induction calls arbitrary: a) (auto simp: on_intersect_listed)

definition top_of :: "entry \<Rightarrow> rat" where
  "top_of e = (case en_top e of Fin x \<Rightarrow> x | _ \<Rightarrow> 0)"

text \<open>A position on the page is a finite binary64 number.\<close>

definition entry_ok :: "entry \<Rightarrow> bool" where
  "entry_ok e = (is_finite (en_top e) \<and> b64_value (en_top e))"

lemma entry_ok_top: "entry_ok e \<Longrightarrow> en_top e = Fin (top_of e) \<and> representable (top_of e)"
  by (cases "en_top e") (simp_all add: entry_ok_def top_of_def b64_value_def)

lemma orders_top: "\<forall>e\<in>A. entry_ok e \<Longrightarrow> orders (\<lambda>a b. en_top a - en_top b) top_of A"
  unfolding orders_def by (simp add: entry_ok_top diff_sign del: fin_ops)

lemma on_intersect_topmost:
  assumes "\<forall>e\<in>set es. entry_ok e" "e \<in> set es" "en_isIntersecting e"
  shows "\<exists>f\<in>set es. en_isIntersecting f \<and> on_intersect es a = en_id f \<and>
    (\<forall>g\<in>set es. en_isIntersecting g \<longrightarrow> top_of f \<le> top_of g)"
proof -
  let ?s = "sort_by (\<lambda>a b. en_top a - en_top b) (filter en_isIntersecting es)"
  have "sorted (map top_of ?s)" using assms(1) by (intro sorted_sort_by orders_top) simp
  moreover have "e \<in> set ?s" using assms(2,3) by simp
  then obtain f rest where s: "?s = f # rest" by (cases ?s) auto
  ultimately have "\<forall>g\<in>set rest. top_of f \<le> top_of g" by simp
  moreover have "set (filter en_isIntersecting es) = insert f (set rest)" by (metis list.simps(15) s set_sort_by)
  ultimately show ?thesis using s by (intro bexI [of _ f]) (auto simp: on_intersect_def)
qed

lemma on_intersect_idle: "\<forall>e\<in>set es. \<not> en_isIntersecting e \<Longrightarrow> on_intersect es a = a"
  by (simp add: on_intersect_def sort_by_def)

subsection \<open>Overlays\<close>

text \<open>Whatever the starting mocks do, the splash is gone once their start has ended or timed out and the page is still mounted.\<close>

lemma splash_goes_away:
  assumes "bt_starting b" "bt_timer b" "\<not> bt_cancelled b" "ev \<noteq> BootUnmount"
  shows "AppChildren \<in> set (provider_parts (boot_event_step ev b))"
  using assms by (cases ev) (auto simp: provider_parts_def boot_event_step_def Let_def)

subsection \<open>The copy button\<close>

text \<open>The flag is shown only while a timer that clears it is pending.\<close>

lemma copied_has_timer:
  "(cb_copied c \<longrightarrow> 0 < cb_timers c) \<Longrightarrow> cb_copied (foldl (\<lambda>c e. copy_step e c) c evs) \<longrightarrow>
     0 < cb_timers (foldl (\<lambda>c e. copy_step e c) c evs)"
  by (induction evs arbitrary: c) (auto simp: copy_step_def split: copy_event.splits)

text \<open>A second copy within 1.4 seconds is cleared by the first timer, with its own still pending.\<close>

lemma second_copy_cleared_early:
  "foldl (\<lambda>c e. copy_step e c) \<lparr>cb_copied = False, cb_timers = 0\<rparr> [CopyWritten, CopyWritten, CopyTimer] =
   \<lparr>cb_copied = False, cb_timers = 1\<rparr>"
  by (simp add: copy_step_def)

subsection \<open>The documentation restates the interface\<close>

text \<open>A path parameter in the notation of the documentation.\<close>

fun braced :: "string \<Rightarrow> string" where
  "braced [] = []"
| "braced (c # s) = (if c = CHR '':'' then CHR ''{'' # s @ ''}'' else c # braced s)"

lemma doc_endpoints_are_served:
  "doc_endpoints = map (\<lambda>(m, p, e). (m, braced p)) (filter (\<lambda>(m, p, e). e \<noteq> ESiweNonce \<and> e \<noteq> ESiweVerify) handlers)"
  by code_simp

lemma doc_codes_are_signed:
  "map_of doc_side (SIDE sd) = Some (side_str sd) \<and> map_of doc_orderType (TYPE_CODE ty) = Some (order_type_str ty) \<and>
   map_of doc_timeInForce (TIF tif) = Some (time_in_force_str tif)"
  by (cases sd; cases ty; cases tif) (simp_all add: doc_side_def doc_orderType_def doc_timeInForce_def)

lemma doc_fees_are_charged:
  "mk_takerFeeBps (ms_market (makeMarket m b a t l rnd now)) = Fin (of_int doc_taker_bps) \<and>
   mk_makerRebateBps (ms_market (makeMarket m b a t l rnd now)) = Fin (of_int doc_maker_bps)"
  by (simp add: makeMarket_def doc_taker_bps_def doc_maker_bps_def)

text \<open>
  The liquidation diagram of \<^verbatim>\<open>docs/Diagram.tsx\<close> shows a ten times long entered at 98.5k and
  liquidated at 94.2k; the formula of the page gives 91112.5.
\<close>

lemma diagram_price_is_not_the_formulas: "doc_liquidation True 98500 10 (250/10000) = 91112 + 1/2"
  by (simp add: doc_liquidation_def)

section \<open>Properties\<close>

text \<open>
  Whatever the intersection observer reports of the sections it watches, the side bar of the
  documentation marks exactly one link, that of a listed section; and after a report that has a
  visible section, the marked one is a visible section of that report with the smallest distance
  to the top. A report with no visible section leaves the mark.
\<close>

theorem sidebar_marks_the_topmost_section:
  assumes "\<forall>es\<in>set calls. \<forall>e\<in>set es. en_id e \<in> set (observed ids) \<and> entry_ok e"
    and "a = foldl (\<lambda>a es. on_intersect es a) ''intro'' calls"
  shows "length (filter (\<lambda>(h, l, m). m) (concat (map snd (sidebar a)))) = 1 \<and> a \<in> set section_ids \<and>
    (calls \<noteq> [] \<longrightarrow> (\<exists>e\<in>set (last calls). en_isIntersecting e) \<longrightarrow>
       (\<exists>f\<in>set (last calls). en_isIntersecting f \<and> a = en_id f \<and>
          (\<forall>g\<in>set (last calls). en_isIntersecting g \<longrightarrow> top_of f \<le> top_of g))) \<and>
    (calls \<noteq> [] \<longrightarrow> (\<forall>e\<in>set (last calls). \<not> en_isIntersecting e) \<longrightarrow>
       a = foldl (\<lambda>a es. on_intersect es a) ''intro'' (butlast calls))"
proof -
  have "\<forall>es\<in>set calls. \<forall>e\<in>set es. en_id e \<in> set section_ids" using assms(1) by (auto simp: observed_def)
  then have a: "a \<in> set section_ids" unfolding assms(2) using intro_listed by (rule on_intersect_run_listed)
  show ?thesis
  proof (cases calls rule: rev_cases)
    case (snoc cs es)
    then have l: "a = on_intersect es (foldl (\<lambda>a es. on_intersect es a) ''intro'' cs)" by (simp add: assms(2))
    have ok: "\<forall>e\<in>set es. entry_ok e" using assms(1) snoc by simp
    show ?thesis using sidebar_marked_once [OF a] a on_intersect_topmost [OF ok] on_intersect_idle [of es]
      unfolding snoc l last_snoc butlast_snoc by blast
  qed (use sidebar_marked_once [OF a] a in simp)
qed

theorem sidebar_marks_the_topmost_section_witness:
  "\<exists>f\<in>{\<lparr>en_id = ''fees'', en_isIntersecting = True, en_top = Fin 120\<rparr>, \<lparr>en_id = ''tif'', en_isIntersecting = True, en_top = Fin 40\<rparr>}.
     foldl (\<lambda>a es. on_intersect es a) ''intro''
       [[\<lparr>en_id = ''fees'', en_isIntersecting = True, en_top = Fin 120\<rparr>, \<lparr>en_id = ''tif'', en_isIntersecting = True, en_top = Fin 40\<rparr>]] = en_id f"
  using sidebar_marks_the_topmost_section [of "[[\<lparr>en_id = ''fees'', en_isIntersecting = True, en_top = Fin 120\<rparr>,
      \<lparr>en_id = ''tif'', en_isIntersecting = True, en_top = Fin 40\<rparr>]]" "[''fees'', ''tif'']", OF _ refl]
    representable_of_int [of 120] representable_of_int [of 40]
  by (auto simp: observed_def section_ids_def GROUPS_def entry_ok_def b64_value_def)

end
