(* ===== verification/Views.thy ===== *)
theory Views
  imports Pages SdkSocket
begin

text \<open>
  The remaining views of the application as data: the rows, switches and side buttons of the
  order ticket, the frame of the order book panel, the wallet page and the wallet button, the
  market switcher, the statistics and categories of the markets page, the life of the price chart,
  and the frame parser of the SDK. A view is the texts, states and meaningful classes that the
  component renders from its state; a click is what its handler calls.
\<close>

section \<open>The order ticket\<close>

definition TIF_DOT :: string where
  "TIF_DOT = ''GTC: rests till filled. IOC: take what'' @ [CHR 0x27] @ ''s there, kill rest. FOK: full fill or reject.''"

text \<open>A row with its tooltip and the tooltip of its dot, which the browser prefers over the dot.\<close>

record form_row =
  orw_label :: string
  orw_value :: string
  orw_class :: string
  orw_title :: "string option"
  orw_dot :: "string option"

definition form_row_of :: "string \<Rightarrow> string \<Rightarrow> bool \<Rightarrow> highlight option \<Rightarrow> string option \<Rightarrow> form_row" where
  "form_row_of label value muted h help = \<lparr>orw_label = label, orw_value = value, orw_class = value_class h muted,
     orw_title = help, orw_dot = (if truthy_str help then Some TIF_DOT else None)\<rparr>"

definition liq_help :: "form_env \<Rightarrow> form \<Rightarrow> string" where
  "liq_help e f = ''Liq. price = entry '' @ [CHR 0xC3, CHR 0x97] @ '' (1 '' @ [CHR 0xE2, CHR 0x88, CHR 0x92] @
     '' 1/leverage + maint. margin) for longs (inverse for shorts). Entry is the volume-weighted fill price, so larger sizes that walk the book widen slippage and shift liq. Move leverage to see it shift further. Current entry: $'' @
     commaFmt (tk_effPrice (ticket_of e f)) (tickDec e) @ '' ('' @ (if of_side f = Buy then ''buy'' else ''sell'') @ '').''"

definition ticket_rows :: "form_env \<Rightarrow> form \<Rightarrow> form_row list" where
  "ticket_rows e f = (let t = ticket_of e f in
     [form_row_of ''Order value'' (dollars_or_dash (tk_notional t)) False None None,
      form_row_of ''Margin required'' (dollars_or_dash (tk_margin t)) False
        (if tk_insufficient t then Some ShortHighlight else None) None,
      form_row_of ''Est. fee'' (dollars_or_dash (tk_fee t)) True None None,
      form_row_of (''Liquidation @ '' @ num_str (of_leverage f) @ ''x'')
        (case tk_liqEst t of None \<Rightarrow> dash | Some l \<Rightarrow> CHR ''$'' # commaFmt l (tickDec e)) False
        (map_option (\<lambda>_. WarnHighlight) (tk_liqEst t)) (Some (liq_help e f)),
      form_row_of ''Free collateral'' (case tk_free t of None \<Rightarrow> dash | Some x \<Rightarrow> CHR ''$'' # commaFmt x 2) True None None])"

text \<open>
  The classes of a view are those that depend on its state, without shadows and borders. A
  switch, and what its change handler is called with when it is clicked.\<close>

record toggle_view =
  tgv_label :: string
  tgv_title :: "string option"
  tgv_class :: string
  tgv_text :: string
  tgv_track :: string
  tgv_knob :: string
  tgv_checked :: bool
  tgv_disabled :: bool

definition Toggle :: "string \<Rightarrow> string option \<Rightarrow> bool \<Rightarrow> bool \<Rightarrow> toggle_view" where
  "Toggle label help checked disabled = \<lparr>tgv_label = label, tgv_title = help,
     tgv_class = cn [cls checked ''bg-accent-soft border-accent'', cls disabled ''opacity-40 cursor-not-allowed''],
     tgv_text = (if checked then ''text-accent font-medium'' else ''text-fg-mid''),
     tgv_track = (if checked then ''bg-accent'' else ''bg-bg-3''),
     tgv_knob = (if checked then ''translate-x-3.5'' else ''translate-x-0.5''), tgv_checked = checked, tgv_disabled = disabled\<rparr>"

definition toggle_click :: "toggle_view \<Rightarrow> bool option" where
  "toggle_click v = (if tgv_disabled v then None else Some (\<not> tgv_checked v))"

definition ticket_toggles :: "form \<Rightarrow> (toggle_view \<times> (bool \<Rightarrow> form_event)) list" where
  "ticket_toggles f =
     [(Toggle ''Reduce only'' (Some ''Order can only shrink your existing position, never flip or grow it.'') (of_reduceOnly f) False, SetReduceOnly),
      (Toggle ''Post only'' (Some ''Cancel if this order would take liquidity (always rest as maker).'') (of_postOnly f) (of_type f = Market),
       SetPostOnly)]"

record side_button =
  sbn_side :: side
  sbn_pressed :: bool
  sbn_look :: string
  sbn_sheen :: bool
  sbn_chip :: string
  sbn_label :: string
  sbn_tag :: string
  sbn_tagLook :: string

definition SideButton :: "side \<Rightarrow> bool \<Rightarrow> side_button" where
  "SideButton sd active = (let isLong = (sd = Buy) in \<lparr>sbn_side = sd, sbn_pressed = active,
     sbn_look = (if active then (if isLong then ''bg-gradient-to-br from-[#1ad094] to-[#0c8f63]'' else ''bg-gradient-to-br from-[#ff5a6a] to-[#c52030]'')
                 else if isLong then ''bg-bg-2 text-fg-mid hover:text-long'' else ''bg-bg-2 text-fg-mid hover:text-short''),
     sbn_sheen = active,
     sbn_chip = (if active then ''bg-white/18'' else if isLong then ''bg-long-soft text-long'' else ''bg-short-soft text-short''),
     sbn_label = (if isLong then ''Long'' else ''Short''), sbn_tag = (if isLong then ''BUY'' else ''SELL''),
     sbn_tagLook = (if active then ''bg-white/15'' else ''bg-bg-1 border border-border'')\<rparr>)"

definition side_buttons :: "form \<Rightarrow> side_button list" where
  "side_buttons f = [SideButton Buy (of_side f = Buy), SideButton Sell (of_side f = Sell)]"

text \<open>The time in force, for limit orders: its buttons with the selected one, and the help line.\<close>

definition tif_section :: "form \<Rightarrow> ((time_in_force \<times> bool) list \<times> string) option" where
  "tif_section f = (if of_type f = Limit then Some (map (\<lambda>t. (t, of_tif f = t)) [Gtc, Ioc, Fok], TIF_HELP (of_tif f)) else None)"

section \<open>The order book panel\<close>

datatype book_body = BookSkeleton nat | BookLadder "row_view list" "(string \<times> string \<times> string) option" "row_view list"

record book_panel =
  bkp_units :: "string list"
  bkp_body :: book_body
  bkp_sequence :: string
  bkp_levels :: string

text \<open>The asks are listed from the best and stacked upwards, the bids downwards.\<close>

definition book_panel_of :: "live_orderbook option \<Rightarrow> market option \<Rightarrow> nat \<Rightarrow> book_layout \<Rightarrow> book_panel" where
  "book_panel_of ob mk grouping layout =
     (let v = book_view_of ob mk grouping; base = (case mk of None \<Rightarrow> [] | Some m \<Rightarrow> mk_base m) in
      \<lparr>bkp_units = [''USD'', base, base],
       bkp_body = (case ob of None \<Rightarrow> BookSkeleton (ROWS * 2)
         | Some _ \<Rightarrow> BookLadder (map (row_of AskSide v) (shown_asks layout v))
             (if layout = SplitLayout then Some (midSpread v) else None) (map (row_of BidSide v) (shown_bids layout v))),
       bkp_sequence = ''seq '' @ (case ob of None \<Rightarrow> dash | Some b \<Rightarrow> int_str (lo_sequence b)),
       bkp_levels = int_str (int ROWS * 2) @ '' levels''\<rparr>)"

fun layout_name :: "book_layout \<Rightarrow> string" where
  "layout_name SplitLayout = ''split''"
| "layout_name BidsLayout = ''bids''"
| "layout_name AsksLayout = ''asks''"

definition LayoutToggle :: "book_layout \<Rightarrow> (book_layout \<times> string \<times> string) list" where
  "LayoutToggle layout = map (\<lambda>v. (v, ''Layout '' @ layout_name v,
     if layout = v then ''bg-bg-hover text-fg'' else ''text-fg-muted hover:text-fg'')) [SplitLayout, BidsLayout, AsksLayout]"

definition ladder_size :: "book_body \<Rightarrow> nat" where
  "ladder_size b = (case b of BookSkeleton n \<Rightarrow> 0 | BookLadder asks m bids \<Rightarrow> length asks + length bids)"

section \<open>The wallet page\<close>

record balance_card =
  blc_label :: string
  blc_value :: string
  blc_hint :: string
  blc_ring :: string

definition BalanceCard :: "string \<Rightarrow> number \<Rightarrow> string \<Rightarrow> bool \<Rightarrow> balance_card" where
  "BalanceCard label value hint info = \<lparr>blc_label = label, blc_value = NumberDisplay ''$'' [] (NNum value) 2 False, blc_hint = hint,
     blc_ring = (if info then ''var(--info)'' else ''var(--accent)'')\<rparr>"

record transfer_form =
  trf_modes :: "(transfer_mode \<times> string \<times> bool) list"
  trf_amount :: string
  trf_error :: "string option"
  trf_button :: string
  trf_disabled :: bool

datatype wallet_body = WalletConnectHint "string list" | WalletForm "balance_card list" transfer_form

definition wallet_body_of :: "string option \<Rightarrow> string option \<Rightarrow> balance_response option \<Rightarrow> wallet_page \<Rightarrow> wallet_body" where
  "wallet_body_of status address balance w =
     (if status \<noteq> Some ''connected''
      then WalletConnectHint (empty_state ''Wallet not connected'' (Some ''Connect a wallet from the top-right to deposit USDC and start trading.''))
      else let v = wallet_view_of balance w in WalletForm
        [BalanceCard ''Wallet USDC'' (wv_walletBal v) (shortAddr (case address of None \<Rightarrow> [] | Some a \<Rightarrow> a)) True,
         BalanceCard ''Vault USDC'' (wv_vaultBal v) ''Available for margin'' False]
        \<lparr>trf_modes = map (\<lambda>m. (m, if m = Deposit then ''Deposit'' else ''Withdraw'', wp_mode w = m)) [Deposit, Withdraw],
         trf_amount = wp_amount w, trf_error = cls (wv_insufficient v) ''Exceeds available balance'',
         trf_button = snd (snd (wallet_labels (wp_mode w))),
         trf_disabled = button_disabled (wv_disabled v) (wp_submitting w)\<rparr>)"

text \<open>A click on the button reaches the handler only while it is shown and enabled.\<close>

definition wallet_page_click :: "string \<Rightarrow> string option \<Rightarrow> string option \<Rightarrow> balance_response option \<Rightarrow> wallet_page \<times> ui_state \<Rightarrow> wallet_page \<times> ui_state" where
  "wallet_page_click suffix status address balance s = (case s of (w, u) \<Rightarrow>
     (case wallet_body_of status address balance w of
        WalletConnectHint _ \<Rightarrow> (w, u)
      | WalletForm _ f \<Rightarrow> if trf_disabled f then (w, u) else wallet_submit suffix balance w u))"

section \<open>The wallet button\<close>

datatype wallet_button =
    ConnectedButton string string string "(string \<times> string list) option"
  | ConnectButton string bool "(string \<times> string \<times> string \<times> string) list option"

text \<open>
  Connected: the short address, the avatar, the chain and, when open, the line under the address
  with the items of the menu. Otherwise: the label, whether it is disabled and, when open, the
  connectors with their uid, name and icon.
\<close>

definition WalletButton :: "wallet_render \<Rightarrow> string option \<Rightarrow> int \<Rightarrow> bool \<Rightarrow> (string \<times> string) list \<Rightarrow> bool \<Rightarrow> wallet_button" where
  "WalletButton r connectorName chainId isPending connectors opened =
     (if wr_connected r \<and> truthy_str (wr_address r)
      then ConnectedButton (wallet_addr (the (wr_address r))) (avatarGradient (the (wr_address r))) (chain_text chainId)
        (if opened then Some ((case connectorName of None \<Rightarrow> [] | Some n \<Rightarrow> n) @ '' '' @ middle_dot @ '' '' @ chain_text chainId, menu_items r) else None)
      else ConnectButton (connect_label isPending) isPending
        (if opened then Some (map (\<lambda>(uid, name). (uid, name, ConnectorIcon name)) connectors) else None))"

text \<open>The clicks a view offers.\<close>

fun offered :: "wallet_render \<Rightarrow> wallet_button \<Rightarrow> wallet_click \<Rightarrow> bool" where
  "offered r (ConnectedButton a g c menu) ev \<longleftrightarrow> (case ev of ToggleMenu \<Rightarrow> True
     | SignInClick \<Rightarrow> menu \<noteq> None \<and> \<not> wr_hasJwt r \<and> \<not> wr_isSigning r
     | ChooseConnector _ \<Rightarrow> False | _ \<Rightarrow> menu \<noteq> None)"
| "offered r (ConnectButton l disabled menu) ev \<longleftrightarrow> (case ev of ToggleMenu \<Rightarrow> \<not> disabled
     | Backdrop \<Rightarrow> menu \<noteq> None
     | ChooseConnector uid \<Rightarrow> (case menu of None \<Rightarrow> False | Some cs \<Rightarrow> uid \<in> fst ` set cs) | _ \<Rightarrow> False)"

section \<open>The market switcher\<close>

datatype switcher_event = ToggleSwitcher | SwitcherBackdrop | ChooseMarket market_id

text \<open>The open flag, the store and the routes pushed.\<close>

fun switcher_step :: "switcher_event \<Rightarrow> bool \<times> ui_state \<times> string list \<Rightarrow> bool \<times> ui_state \<times> string list" where
  "switcher_step ToggleSwitcher (opened, u, routes) = (\<not> opened, u, routes)"
| "switcher_step SwitcherBackdrop (opened, u, routes) = (False, u, routes)"
| "switcher_step (ChooseMarket m) (opened, u, routes) = (case switch_market m u of (u', opened', href) \<Rightarrow> (opened', u', routes @ [href]))"

definition MarketSwitcher :: "(market_id \<Rightarrow> ws_oracle option) \<Rightarrow> market list option \<Rightarrow> market_id \<Rightarrow> bool
    \<Rightarrow> string list \<times> switcher_row list option" where
  "MarketSwitcher oracle data mid opened =
     ([BASE_LABEL mid @ ''-PERP'', ''Perpetual '' @ middle_dot @ '' 20x''],
      if opened then Some (switcher_rows oracle data mid) else None)"

fun switcher_offered :: "market list option \<Rightarrow> bool \<Rightarrow> switcher_event \<Rightarrow> bool" where
  "switcher_offered data opened ToggleSwitcher \<longleftrightarrow> True"
| "switcher_offered data opened SwitcherBackdrop \<longleftrightarrow> opened"
| "switcher_offered data opened (ChooseMarket m) \<longleftrightarrow> opened \<and> (case data of None \<Rightarrow> False | Some ms \<Rightarrow> m \<in> mk_id ` set ms)"

fun ICON :: "market_id \<Rightarrow> string" where
  "ICON BtcUsd = ''#f7931a''"
| "ICON EthUsd = ''#627eea''"
| "ICON SolUsd = ''#14f195''"

definition MarketBadge :: "market_id \<Rightarrow> string \<times> string \<times> string" where
  "MarketBadge m = (BASE_LABEL m, ICON m, ''radial-gradient(circle at 30% 30%, '' @ ICON m @ ''40, transparent 70%), var(--bg-2)'')"

section \<open>The markets page\<close>

definition network_label :: "string option \<Rightarrow> string" where
  "network_label env = (case env of None \<Rightarrow> ''Local '' @ middle_dot @ '' dev'' | Some l \<Rightarrow> l)"

definition StatBlock :: "string \<Rightarrow> string \<Rightarrow> string \<Rightarrow> string \<Rightarrow> string \<times> string \<times> string \<times> string" where
  "StatBlock label badge value tone = (label, badge, value, stat_color tone)"

record category_tab =
  ctt_label :: string
  ctt_disabled :: bool
  ctt_look :: string
  ctt_badge :: "string option"
  ctt_soon :: bool

definition CategoryTabs :: "category_tab list" where
  "CategoryTabs = map (\<lambda>c. \<lparr>ctt_label = ca_label c, ctt_disabled = ca_soon c,
     ctt_look = (if ca_active c then ''bg-accent-soft text-accent border-[color-mix(in_oklab,var(--accent),transparent_60%)]''
                 else if ca_soon c then ''bg-bg-1 text-fg-muted border-border opacity-60 cursor-not-allowed''
                 else ''bg-bg-1 text-fg-mid border-border hover:text-fg hover:border-border-strong''),
     ctt_badge = (if truthy_str (ca_badge c) then ca_badge c else None), ctt_soon = ca_soon c\<rparr>) CATS"

fun BASE_GLOW :: "market_id \<Rightarrow> string" where
  "BASE_GLOW BtcUsd = ''radial-gradient(circle, rgba(247,147,26,0.6), transparent 70%)''"
| "BASE_GLOW EthUsd = ''radial-gradient(circle, rgba(98,126,234,0.6), transparent 70%)''"
| "BASE_GLOW SolUsd = ''radial-gradient(circle, rgba(20,241,149,0.6), transparent 70%)''"

fun BASE_LINE :: "market_id \<Rightarrow> string" where
  "BASE_LINE BtcUsd = ''rgba(247,147,26,0.7)''"
| "BASE_LINE EthUsd = ''rgba(98,126,234,0.7)''"
| "BASE_LINE SolUsd = ''rgba(20,241,149,0.7)''"

text \<open>The id of the gradient under a sparkline: the letters of its colour.\<close>

definition is_letter :: "char \<Rightarrow> bool" where
  "is_letter c = (let n = (of_char c :: nat) in 65 \<le> n \<and> n \<le> 90 \<or> 97 \<le> n \<and> n \<le> 122)"

definition spark_id :: "string \<Rightarrow> string" where
  "spark_id color = ''sparkfill-'' @ filter is_letter color"

definition spark_color :: "bool \<Rightarrow> string" where
  "spark_color positive = (if positive then ''var(--long)'' else ''var(--short)'')"

section \<open>The life of the price chart\<close>

text \<open>
  The refs of \<open>PriceChart\<close> with the charts created and removed so far, what the series were given
  and the size of the chart. React runs the cleanup of the effect before its next run. The chart
  library is used through these calls only.
\<close>

record chart_refs =
  chr_open :: bool
  chr_size :: "number \<times> number"
  chr_data :: "candle list \<times> volume_bar list"
  chr_updates :: "(candle \<times> volume_bar option) list"
  chr_current :: "candle option"
  chr_created :: nat
  chr_removed :: nat

definition no_chart :: chart_refs where
  "no_chart = \<lparr>chr_open = False, chr_size = (Fin 0, Fin 0), chr_data = ([], []), chr_updates = [], chr_current = None,
     chr_created = 0, chr_removed = 0\<rparr>"

datatype chart_event =
    ChartEffect "(number \<times> number) option" number number "nat \<Rightarrow> nat \<Rightarrow> number"
  | ChartCleanup
  | ChartResized "(number \<times> number) list"
  | ChartOracle ws_oracle number number

text \<open>The effect, given the size of the container if it is mounted, the anchor, the clock and the draws.\<close>

definition chart_effect :: "(number \<times> number) option \<Rightarrow> number \<Rightarrow> number \<Rightarrow> (nat \<Rightarrow> nat \<Rightarrow> number) \<Rightarrow> chart_refs \<Rightarrow> chart_refs" where
  "chart_effect container anchor nowMs rnd c = (case container of None \<Rightarrow> c
     | Some wh \<Rightarrow> c\<lparr>chr_open := True, chr_size := wh, chr_data := seedCandles anchor nowMs rnd 240, chr_updates := [],
         chr_current := chart_start anchor nowMs rnd, chr_created := chr_created c + 1\<rparr>)"

definition chart_cleanup :: "chart_refs \<Rightarrow> chart_refs" where
  "chart_cleanup c = (if chr_open c then c\<lparr>chr_open := False, chr_current := None, chr_removed := chr_removed c + 1\<rparr> else c)"

definition chart_resized :: "(number \<times> number) list \<Rightarrow> chart_refs \<Rightarrow> chart_refs" where
  "chart_resized entries c = (case entries of [] \<Rightarrow> c
     | (width, height) # _ \<Rightarrow> if num_lt (Fin 0) width \<and> num_lt (Fin 0) height then c\<lparr>chr_size := (width, height)\<rparr> else c)"

definition chart_oracle :: "ws_oracle \<Rightarrow> number \<Rightarrow> number \<Rightarrow> chart_refs \<Rightarrow> chart_refs" where
  "chart_oracle oracle nowMs rnd c = (if \<not> chr_open c then c
     else case chart_tick oracle nowMs rnd (chr_current c) of (cur, sent) \<Rightarrow>
       c\<lparr>chr_current := cur, chr_updates := chr_updates c @ (case sent of None \<Rightarrow> [] | Some u \<Rightarrow> [u])\<rparr>)"

inductive chart_life :: "chart_event list \<Rightarrow> chart_refs \<Rightarrow> bool" where
  cl_start: "chart_life [] no_chart"
| cl_effect: "chart_life es c \<Longrightarrow> \<not> chr_open c \<Longrightarrow> chart_life (es @ [ChartEffect wh a n r]) (chart_effect wh a n r c)"
| cl_cleanup: "chart_life es c \<Longrightarrow> chart_life (es @ [ChartCleanup]) (chart_cleanup c)"
| cl_resized: "chart_life es c \<Longrightarrow> chr_open c \<Longrightarrow> chart_life (es @ [ChartResized xs]) (chart_resized xs c)"
| cl_oracle: "chart_life es c \<Longrightarrow> chart_life (es @ [ChartOracle o' n r]) (chart_oracle o' n r c)"

section \<open>Frames of the SDK\<close>

text \<open>\<open>parse\<close> is \<open>JSON.parse\<close>, \<open>None\<close> where it throws; \<open>raw\<close> is the data when it is a string.\<close>

definition parseFrame :: "(string \<Rightarrow> frame option) \<Rightarrow> string option \<Rightarrow> frame option" where
  "parseFrame parse raw = (case raw of None \<Rightarrow> None | Some s \<Rightarrow> parse s)"

section \<open>What the views show\<close>

lemma ticket_rows_summary: "map (\<lambda>r. (orw_label r, orw_value r, orw_class r)) (ticket_rows e f) = summary_rows e f"
  by (simp add: ticket_rows_def summary_rows_def form_row_of_def Let_def)

text \<open>
  The dot beside the liquidation price, the only one in the summary, explains the time in force;
  the formula the row means to explain is the tooltip of the rest of the row.
\<close>

theorem liquidation_dot_explains_time_in_force:
  "r \<in> set (ticket_rows e f) \<Longrightarrow> orw_dot r \<noteq> None \<Longrightarrow> orw_dot r = Some TIF_DOT \<and> orw_title r = Some (liq_help e f)"
  by (auto simp: ticket_rows_def form_row_of_def truthy_str_def Let_def split: if_splits)

lemma toggle_fields:
  "tgv_label (Toggle l h c d) = l" "tgv_checked (Toggle l h c d) = c" "tgv_disabled (Toggle l h c d) = d"
  by (simp_all add: Toggle_def)

text \<open>A click on a switch is an enabled control of the form and flips what the switch shows.\<close>

theorem toggles_work_the_form:
  assumes "(v, ev) \<in> set (ticket_toggles f)" "toggle_click v = Some b"
  shows "form_enabled e f (ev b) \<and> b = (\<not> tgv_checked v) \<and>
    (\<exists>v'. (v', ev) \<in> set (ticket_toggles (form_step e (ev b) f)) \<and> tgv_label v' = tgv_label v \<and> tgv_checked v' = b)"
proof -
  have b: "\<not> tgv_disabled v" "b = (\<not> tgv_checked v)" using assms(2) by (auto simp: toggle_click_def split: if_splits)
  consider (reduce) "v = fst (ticket_toggles f ! 0)" "ev = SetReduceOnly" | (post) "v = fst (ticket_toggles f ! 1)" "ev = SetPostOnly"
    using assms(1) by (auto simp: ticket_toggles_def)
  then show ?thesis
  proof cases
    case reduce
    then show ?thesis using b by (auto simp: ticket_toggles_def toggle_fields)
  next
    case post
    then show ?thesis using b by (auto simp: ticket_toggles_def toggle_fields)
  qed
qed

text \<open>Exactly one side button is pressed, and it has the word of the submit button.\<close>

theorem one_side_is_pressed:
  "map sbn_side (filter sbn_pressed (side_buttons f)) = [of_side f] \<and>
   map sbn_label (filter sbn_pressed (side_buttons f)) = [direction (of_side f)]"
  by (cases "of_side f") (simp_all add: side_buttons_def SideButton_def direction_def)

text \<open>One layout is marked, and exactly one button of the time in force, which is there for limit orders only.\<close>

theorem one_choice_is_marked:
  "length (filter (\<lambda>(v, l, c). c = ''bg-bg-hover text-fg'') (LayoutToggle layout)) = 1 \<and>
   (case tif_section f of None \<Rightarrow> of_type f \<noteq> Limit
    | Some (bs, help) \<Rightarrow> of_type f = Limit \<and> map fst (filter snd bs) = [of_tif f] \<and> help = TIF_HELP (of_tif f))"
  by (cases layout; cases "of_tif f") (simp_all add: LayoutToggle_def tif_section_def)

text \<open>The panel never has more than 28 rows; its footer says 28 levels whatever it shows.\<close>

theorem footer_overstates_the_ladder:
  "ladder_size (bkp_body (book_panel_of ob mk g layout)) \<le> (if layout = SplitLayout then 28 else 14) \<and>
   bkp_levels (book_panel_of ob mk g layout) = ''28 levels''"
proof -
  have "int_str 28 = ''28''" by code_simp
  then show ?thesis
    by (cases layout) (auto simp: book_panel_of_def ladder_size_def shown_asks_def shown_bids_def ROWS_def Let_def split: option.splits)
qed

text \<open>The wallet page submits only with a connected wallet, and never more than the source has.\<close>

theorem wallet_page_submits_within_balance:
  assumes "wallet_page_click suffix status address balance (w, u) \<noteq> (w, u)"
  shows "status = Some ''connected'' \<and> \<not> wp_submitting w \<and> \<not> num_lt (wv_source (wallet_view_of balance w)) (wv_amt (wallet_view_of balance w)) \<and>
    wallet_page_click suffix status address balance (w, u) = wallet_submit suffix balance w u"
  using assms by (auto simp: wallet_page_click_def wallet_body_of_def button_disabled_def wallet_view_of_def Let_def split: if_splits)

text \<open>
  A click on the wallet button reaches the wallet or the session only as offered: signing in only
  for a connected wallet without a session, connecting only with a listed connector.
\<close>

theorem wallet_button_offers:
  assumes "offered r (WalletButton r name ch p cs opened) ev" "wallet_click_step a ev (opened, b) = ((opened', b'), eff)"
  shows "(CallSignIn \<in> set eff \<longrightarrow> wr_connected r \<and> \<not> wr_hasJwt r \<and> \<not> wr_isSigning r \<and> opened) \<and>
    (\<forall>uid. WalletConnectWith uid \<in> set eff \<longrightarrow> \<not> (wr_connected r \<and> truthy_str (wr_address r)) \<and> uid \<in> fst ` set cs \<and> \<not> opened') \<and>
    (b' \<noteq> b \<longrightarrow> ev = DisconnectClick \<and> wr_connected r)"
  using assms by (cases ev) (auto simp: WalletButton_def wallet_click_step_def intro: rev_image_eqI split: if_splits)

text \<open>Choosing a market in the switcher selects it, goes to its page and closes the list.\<close>

theorem switcher_choice:
  assumes "switcher_offered data opened (ChooseMarket m)"
  shows "switcher_step (ChooseMarket m) (opened, u, routes) = (False, setSelectedMarket m u, routes @ [''/trade/'' @ market_id_str m]) \<and>
    (\<exists>r\<in>set (the (snd (MarketSwitcher oracle data mid opened))). sr_market r = m \<and> (sr_selected r \<longleftrightarrow> m = mid))"
  using assms by (auto simp: switch_market_def MarketSwitcher_def switcher_rows_def split: option.splits)

text \<open>Rising and falling sparklines have gradients of their own.\<close>

theorem spark_ids_differ: "spark_id (spark_color p) = spark_id (spark_color q) \<longleftrightarrow> p = q"
proof -
  have "spark_id ''var(--long)'' = ''sparkfill-varlong''" "spark_id ''var(--short)'' = ''sparkfill-varshort''" by code_simp+
  then show ?thesis by (cases p; cases q) (simp_all add: spark_color_def)
qed

text \<open>
  There is never more than one chart: every chart created was removed again except the open one,
  an oracle frame reaches a chart only while one is open, and the open one has a current candle.
\<close>

lemma chart_start_some: "\<exists>y. chart_start anchor nowMs rnd = Some y"
  by (simp add: chart_start_last)

lemma chart_tick_keeps: "cur \<noteq> None \<Longrightarrow> fst (chart_tick o' n r cur) \<noteq> None"
  by (auto simp: chart_tick_def Let_def split: option.splits)

theorem one_chart_at_a_time:
  assumes "chart_life es c"
  shows "chr_created c = chr_removed c + (if chr_open c then 1 else 0) \<and> (chr_open c \<longleftrightarrow> chr_current c \<noteq> None)"
  using assms
proof (induction rule: chart_life.induct)
  case (cl_oracle es c o' n r)
  then show ?case using chart_tick_keeps [of "chr_current c" o' n r]
    by (cases "chart_tick o' n r (chr_current c)") (auto simp: chart_oracle_def)
qed (auto simp: no_chart_def chart_effect_def chart_cleanup_def chart_resized_def chart_start_some split: option.splits list.splits)

end
