(* ===== verification/LoadTest.thy ===== *)
theory LoadTest
  imports JsString
begin

text \<open>
  The load test \<^verbatim>\<open>scripts/load/k6-rest-and-ws.js\<close>: the subscriber that each socket user runs, the
  development token and the order that each iteration places. The user number \<open>__VU\<close>, the
  iteration number \<open>__ITER\<close> (counted per user), the clock and the answers of the server are
  inputs; the load generator's scheduling is its own.
\<close>

definition load_markets :: "string list" where
  "load_markets = [''btc-usd'', ''eth-usd'', ''sol-usd'']"

definition market_at :: "nat \<Rightarrow> string" where
  "market_at n = load_markets ! (n mod length load_markets)"

text \<open>\<open>env || fallback\<close>: an unset or empty variable gives the fallback.\<close>

definition env_or :: "string option \<Rightarrow> string \<Rightarrow> string" where
  "env_or v d = (case v of Some (c # cs) \<Rightarrow> c # cs | _ \<Rightarrow> d)"

definition EDGE :: "string option \<Rightarrow> string" where
  "EDGE url = env_or url ''http://localhost:8080''"

definition WS_EDGE :: "string option \<Rightarrow> string" where
  "WS_EDGE url = env_or url ''ws://localhost:8081''"

section \<open>The subscriber\<close>

datatype load_frame = LoadSubscribe string | LoadPong

record load_socket =
  ls_open :: bool
  ls_sent :: "load_frame list"

text \<open>
  A message is the value of its \<open>type\<close> field, if any, and \<open>None\<close> where \<open>JSON.parse\<close> or the field
  access throws; the timeout is the one set for four minutes.
\<close>

datatype load_event = LoadOpen | LoadMessage "string option option" | LoadTimeout

definition subscriber_step :: "nat \<Rightarrow> load_event \<Rightarrow> load_socket \<Rightarrow> load_socket" where
  "subscriber_step vu ev s = (case ev of
       LoadOpen \<Rightarrow> s\<lparr>ls_open := True, ls_sent := ls_sent s @
         [LoadSubscribe (''orderbook.'' @ market_at vu), LoadSubscribe (''trades.'' @ market_at vu)]\<rparr>
     | LoadMessage m \<Rightarrow> if m = Some (Some ''ping'') then s\<lparr>ls_sent := ls_sent s @ [LoadPong]\<rparr> else s
     | LoadTimeout \<Rightarrow> s\<lparr>ls_open := False\<rparr>)"

definition subscriber_run :: "nat \<Rightarrow> load_event list \<Rightarrow> load_socket" where
  "subscriber_run vu evs = foldl (\<lambda>s e. subscriber_step vu e s) \<lparr>ls_open = False, ls_sent = []\<rparr> evs"

section \<open>The orders\<close>

text \<open>\<open>raw.replace(/^Bearer /, "")\<close> of the trimmed body, and \<open>null\<close> when the status is not 200.\<close>

definition devToken :: "nat \<Rightarrow> string \<Rightarrow> string option" where
  "devToken status body = (if status \<noteq> 200 then None
     else let raw = trim body in Some (if take 7 raw = ''Bearer '' then drop 7 raw else raw))"

definition load_authorization :: "string option \<Rightarrow> nat \<times> string \<Rightarrow> string" where
  "load_authorization jwt answer = ''Bearer '' @ (case jwt of Some (c # cs) \<Rightarrow> c # cs
     | _ \<Rightarrow> (case devToken (fst answer) (snd answer) of None \<Rightarrow> ''null'' | Some t \<Rightarrow> t))"

definition load_nonce :: "int \<Rightarrow> nat \<Rightarrow> string" where
  "load_nonce now iter = int_str now @ int_str (int iter)"

text \<open>The body as the pairs \<open>JSON.stringify\<close> writes, in order.\<close>

definition load_order :: "int \<Rightarrow> nat \<Rightarrow> (string \<times> string) list" where
  "load_order now iter =
     [(''marketId'', market_at iter), (''side'', if iter mod 2 = 0 then ''buy'' else ''sell''), (''type'', ''limit''),
      (''price'', ''100000.0''), (''qty'', ''0.001''), (''timeInForce'', ''ioc''), (''nonce'', load_nonce now iter),
      (''signature'', ''0x'' @ concat (replicate 65 ''00''))]"

definition load_request :: "string option \<Rightarrow> string option \<Rightarrow> nat \<times> string \<Rightarrow> int \<Rightarrow> nat
    \<Rightarrow> string \<times> (string \<times> string) list \<times> (string \<times> string) list" where
  "load_request edge jwt answer now iter = (EDGE edge @ ''/v1/orders'',
     [(''content-type'', ''application/json''), (''authorization'', load_authorization jwt answer)], load_order now iter)"

section \<open>Lemmas\<close>

lemma int_str_inj: "0 \<le> a \<Longrightarrow> 0 \<le> b \<Longrightarrow> int_str a = int_str b \<Longrightarrow> a = b"
  by (metis digits_val_nat_digits int_str_def linorder_not_less)

text \<open>Timestamps of one length keep the nonces apart, whatever the iterations.\<close>

lemma load_nonce_inj:
  assumes "0 \<le> t" "0 \<le> u" "length (int_str t) = length (int_str u)"
  shows "load_nonce t i = load_nonce u j \<longleftrightarrow> t = u \<and> i = j"
  using assms int_str_inj [of t u] int_str_inj [of "int i" "int j"] by (auto simp: load_nonce_def append_eq_append_conv)

text \<open>Six iterations in a row place one order for each market and side.\<close>

lemma market_at_eq: "market_at i = market_at j \<longleftrightarrow> i mod 3 = j mod 3"
proof -
  have "distinct load_markets" "length load_markets = 3" by (simp_all add: load_markets_def)
  then show ?thesis by (simp add: market_at_def nth_eq_iff_index_eq)
qed

lemma market_at_listed: "market_at i \<in> set load_markets"
proof -
  have "load_markets \<noteq> []" by (simp add: load_markets_def)
  then show ?thesis by (simp add: market_at_def)
qed

lemma same_residues:
  assumes "i mod 3 = j mod 3" "i mod 2 = 0 \<longleftrightarrow> j mod 2 = 0" "i \<le> j" "j < i + (6::nat)"
  shows "i = j"
proof -
  have "3 dvd j - i" using assms(1,3) by (metis mod_eq_dvd_iff_nat)
  moreover have "even (j - i)" using assms(2,3) by (metis dvd_diff_nat even_iff_mod_2_eq_zero odd_even_add le_add_diff_inverse)
  ultimately show ?thesis using assms(3,4) by presburger
qed

lemma six_orders:
  "(\<lambda>i. (market_at i, i mod 2 = 0)) ` {n..<n + 6} = set load_markets \<times> UNIV" (is "?f ` _ = ?R")
proof (rule card_subset_eq)
  have "i = j" if "i mod 3 = j mod 3" "i mod 2 = 0 \<longleftrightarrow> j mod 2 = 0" "n \<le> i" "i < n + 6" "n \<le> j" "j < n + 6" for i j :: nat
    using that same_residues [of i j] same_residues [of j i] by linarith
  then have "inj_on ?f {n..<n + 6}" by (auto simp: inj_on_def market_at_eq)
  then show "card (?f ` {n..<n + 6}) = card ?R" by (simp add: card_image load_markets_def card_cartesian_product)
  show "?f ` {n..<n + 6} \<subseteq> ?R" by (auto simp: market_at_listed)
qed (simp add: load_markets_def)

lemma subscriber_frames:
  "ls_sent (foldl (\<lambda>s e. subscriber_step vu e s) s evs) = ls_sent s @ concat (map (\<lambda>e. ls_sent (subscriber_step vu e \<lparr>ls_open = b, ls_sent = []\<rparr>)) evs)"
  by (induction evs arbitrary: s) (auto simp: subscriber_step_def split: load_event.splits)

section \<open>Properties\<close>

text \<open>
  In the load test the nonce of an order names its millisecond and its iteration: two orders
  whose timestamps have the same number of digits share a nonce exactly when they were placed in
  the same millisecond by iterations of the same number. Iterations are counted per virtual user,
  so one user never repeats a nonce while two users can; any six iterations in a row place one
  order per market and side.
\<close>

theorem load_orders_nonces:
  assumes "0 \<le> t" "0 \<le> u" "length (int_str t) = length (int_str u)"
  shows "(map_of (load_order t i) ''nonce'' = map_of (load_order u j) ''nonce'') = (t = u \<and> i = j) \<and>
    (\<lambda>k. (map_of (load_order u k) ''marketId'', map_of (load_order u k) ''side'')) ` {i..<i + 6} =
      (Some ` set load_markets) \<times> {Some ''buy'', Some ''sell''}"
proof -
  have "(\<lambda>k. (map_of (load_order u k) ''marketId'', map_of (load_order u k) ''side'')) ` {i..<i + 6} =
    (\<lambda>(m, b). (Some m, Some (if b then ''buy'' else ''sell''))) ` (\<lambda>k. (market_at k, k mod 2 = 0)) ` {i..<i + 6}"
    unfolding image_image by (intro image_cong) (simp_all add: load_order_def)
  also have "\<dots> = (Some ` set load_markets) \<times> {Some ''buy'', Some ''sell''}"
    unfolding six_orders by (force simp: image_iff UNIV_bool)
  finally show ?thesis using load_nonce_inj [OF assms] by (simp add: load_order_def)
qed

theorem load_orders_nonces_witness:
  "(map_of (load_order 1700000000000 7) ''nonce'' = map_of (load_order 1700000000000 7) ''nonce'') \<and>
   map_of (load_order 1700000000000 7) ''nonce'' \<noteq> map_of (load_order 1700000000001 7) ''nonce''"
proof -
  have "length (int_str 1700000000000) = length (int_str 1700000000001)" by code_simp
  from load_orders_nonces [OF _ _ this, of 7 7] show ?thesis by simp
qed

end
