(* ===== verification/Spec2Isabelle.thy ===== *)
theory Spec2Isabelle
  imports Lockstep Format Session SdkSocket SdkClient Ticket Sim Replay MarketPanels Portfolio Shell Devnet
    Worker MockBackend EndToEnd Tab Site Pages Views LoadTest
begin

text \<open>
  A verification development for Perplex, a perpetual futures exchange: the TypeScript side of
  the repository, that is the trading application under \<^verbatim>\<open>web/\<close>, the client library under
  \<^verbatim>\<open>sdk/typescript/\<close> and the scripts under \<^verbatim>\<open>scripts/\<close>.

  \<^bold>\<open>Parts of the program.\<close> The application talks to an exchange over REST
  (\<^verbatim>\<open>web/lib/api\<close>) and over one socket (\<^verbatim>\<open>web/lib/ws/client.ts\<close>); hooks
  (\<^verbatim>\<open>web/lib/ws/channels.ts\<close>) turn frames into state, panels and pages show it, the order
  ticket signs and sends orders, and the sign-in flow (\<^verbatim>\<open>web/lib/wallet/siwe.ts\<close>) keeps a
  token in the browser's storage. A mock exchange (\<^verbatim>\<open>web/mocks\<close>) answers the same requests and
  frames in the browser, behind a service worker that takes the requests of the page. The site has a landing page and
  a documentation page. The SDK has its own REST client and socket. The scripts simulate the
  market maker on price tapes and check a development network.

  \<^bold>\<open>Theories.\<close>
  \<^item> \<open>Prelude\<close>: results as sums, the insertion-ordered \<open>Map\<close> and \<open>Set\<close> of JavaScript, and the
    locale \<open>keyed_store\<close>, the contract of a store under replayed changes, interpreted on the map.
  \<^item> \<open>Binary64\<close>, \<open>JsNumber\<close>: rounding to IEEE binary64 as a function on rationals with its laws
    (locale \<open>rounding\<close>), and JavaScript numbers over it: \<open>Fin x\<close>, the infinities and \<open>NaN\<close>, with
    every operation rounded once. The sign of zero is not represented.
  \<^item> \<open>JsString\<close>, \<open>JsArray\<close>: \<open>Number\<close>, \<open>BigInt\<close>, \<open>toFixed\<close>, \<open>toString\<close>, slices, the thousands
    separator; \<open>Array.sort\<close> with a comparator and the best entries of a ladder.
  \<^item> \<open>Contract\<close>: \<^verbatim>\<open>web/lib/types/contract.ts\<close>. \<open>Format\<close>: \<^verbatim>\<open>web/lib/format/number.ts\<close> and
    \<open>NumberDisplay\<close>; its printers are proved equal to a reference.
  \<^item> \<open>WsClient\<close>: \<open>PerplexWs\<close>. Sockets are objects with identity, calls, socket events and timers
    are the steps of \<open>ws_step\<close>, and the invariant \<open>ws_inv\<close> of every reachable client says that
    the frames sent on an open socket leave a server with the client's channels; the locale
    \<open>subscription_peer\<close> states what a server has to do for this.
  \<^item> \<open>LiveBook\<close>: the hooks of \<^verbatim>\<open>web/lib/ws/channels.ts\<close>, with pending animation frames counted.
  \<^item> \<open>MockState\<close>, \<open>MockApi\<close>, \<open>MockWs\<close>: \<^verbatim>\<open>web/mocks/data/seed.ts\<close>, \<^verbatim>\<open>handlers.ts\<close>, \<^verbatim>\<open>ws-mock.ts\<close>;
    \<open>mock_step\<close> is every request, frame and timer of the mock exchange, and \<open>mock_ok\<close> the
    well-formedness that all of them keep. \<open>MockWs\<close> interprets \<open>subscription_peer\<close>.
  \<^item> \<open>Lockstep\<close>: the mock server and the book hook composed frame by frame.
  \<^item> \<open>Worker\<close>: \<^verbatim>\<open>web/public/mockServiceWorker.js\<close> and \<^verbatim>\<open>web/mocks/browser.ts\<close>. A handled request is a
    flight that waits for one answer at a time (the client, the window list, the reply of the
    page, the network), the worker's events are the steps of \<open>worker_step\<close>, and its set of clients
    is an interpretation of \<open>keyed_store\<close>.
  \<^item> \<open>MockBackend\<close>: the route table of \<^verbatim>\<open>handlers.ts\<close> composed with the request builders of
    \<open>Session\<close>. The path matching of the mock library is a parameter under the locale
    \<open>path_matcher\<close>, interpreted on a segment matcher.
  \<^item> \<open>Session\<close>: \<^verbatim>\<open>web/lib/api\<close> and \<^verbatim>\<open>web/lib/wallet/siwe.ts\<close>. \<open>Tab\<close>: a browser tab, that is the storage, the
    hook \<open>useSiwe\<close> with the store it subscribes to, the REST client and the socket client, whose
    handlers are the steps of \<open>tab_step\<close>; \<open>tab_ok\<close> is the invariant that they agree on the token.
  \<^item> \<open>EndToEnd\<close>: a query through the service worker, the route table and the REST client; the
    mocking library on the page is the parameter \<open>page\<close>.
  \<^item> \<open>Ticket\<close>: \<^verbatim>\<open>web/components/trade/OrderForm.tsx\<close>, \<^verbatim>\<open>web/lib/eip712/order.ts\<close>,
    \<^verbatim>\<open>web/lib/store/ui-store.ts\<close>, \<^verbatim>\<open>web/lib/trade/use-close-position.ts\<close>.
  \<^item> \<open>MarketPanels\<close>: \<^verbatim>\<open>Orderbook\<close>, \<^verbatim>\<open>MarketHeader\<close>, \<^verbatim>\<open>TradeTape\<close>, \<^verbatim>\<open>PriceChart\<close>.
    \<open>Portfolio\<close>: \<^verbatim>\<open>PositionPanel\<close>, the wallet, portfolio and history pages, toast timers.
    \<open>Shell\<close>: the markets page, wallet button, navigation, theme, boot sequence and chains.
  \<^item> \<open>Site\<close>: the shared controls under \<^verbatim>\<open>web/components/ui\<close>, price tiles and sparklines. \<open>Pages\<close>: the
    figures of the landing page, navigation, overlays, the documentation's side bar, copy button
    and tables of the interface. \<open>Views\<close>: the remaining views as data (rows and switches of the
    ticket, book panel, wallet page and button, market switcher, markets page) and the life of
    the price chart.
  \<^item> \<open>SdkClient\<close>, \<open>SdkSocket\<close>: \<^verbatim>\<open>sdk/typescript/src\<close>.
  \<^item> \<open>Sim\<close>, \<open>Replay\<close>: \<^verbatim>\<open>scripts/lib/sim\<close> and \<^verbatim>\<open>scripts/replay-binance.ts\<close>. \<open>Devnet\<close>: the dashboard
    gate, the seeding and the deposit smoke test. \<open>LoadTest\<close>: \<^verbatim>\<open>scripts/load\<close>.

  \<^bold>\<open>Conventions.\<close> A component's state is a record and an operation a function on it; a handler
  that can throw returns a sum whose left part is the error. Random draws, clock readings and
  generated ids are arguments, in the order the code makes them. What belongs to the host or to
  another package (\<open>fetch\<close>, the wallet, \<open>keccak256\<close>, \<open>Date.parse\<close>, locale formats, \<open>Math.sin\<close>,
  the chain) is a parameter. A React component is modelled by its state, its effects and
  handlers, and the texts it shows; class names and layout are left out unless they carry
  meaning, such as the colour of a gain.

  \<^bold>\<open>What the lemmas show.\<close> The socket client is never stranded, recovers from a lost connection
  and tells a server exactly its channels; the book hook paints the best levels of the latest
  book, refuses gaps, and follows the mock exchange without ever showing a level it does not have;
  the mock exchange keeps its data well formed; on a known chain what the ticket sends is what was
  signed, its preview never fills past a limit price, and its optimistic order always goes away; a
  position closed with the button is closed on the mock exchange; every query of the application is
  answered by the mock route table with a body of the kind it expects, and an order placed there is
  listed and cancelled; the service worker asks the page, tells it of the response and calls the
  network at most once per request, and its client set follows the messages it can attribute; a
  query the page was asked about never reaches the network and its answer reaches the caller; the
  token is stored only after a verified sign-in, read back as written and kept until there is a
  reason to drop it, and what the sign-in hook shows is what requests and the socket carry; the
  simulation ends and its quotes stay ordered after rounding, the replay ends with the exit code of
  its gate; the ladder sums every level once; the dashboard gate is exact. Several theorems record
  behaviour the code does not intend, each by a reachable state: a socket that reconnects after the
  edge rejected its token, timers that outlive \<open>close\<close>, a stream lost when one of two listeners
  goes, a post-only choice that a market order cannot take back, a gate that a size that is no
  number passes.

  \<^bold>\<open>Bounds and fuel.\<close> The decimal exponent search of \<open>toString\<close> takes 400 steps, more than the 324
  a binary64 value can need, and its digit search stops at 17 digits, which identify every
  value. The lot-matching loop of the simulation and the download loop of the replay are
  functions with measures or proved to return; no statement relies on running out of fuel.
  Statements on rounded arithmetic carry explicit ranges, such as leverage up to 32; the replay of
  downloaded tapes is bounded by \<open>2 ^ 1000\<close> days, below which the count of minutes is finite.

  \<^bold>\<open>Not modelled.\<close> The Rust back end and the Solidity contracts, which are other programs; icons,
  drawings, running text and layout of the pages, which have no behaviour; contract interface
  constants and tool configuration; the scheduling of the load generator; the constructors of
  chain clients; artificial delays of the mock handlers; the negative zero of JavaScript. Strings
  are sequences of bytes in UTF-8, so the source's string lengths are modelled for ASCII text.
\<close>

section \<open>Lemmas\<close>

lemma flo_positive: "2 powi (- 14) \<le> x \<Longrightarrow> x \<le> 1 \<Longrightarrow> num_lt (Fin 0) (flo x)"
proof -
  assume x: "2 powi (- 14) \<le> x" "x \<le> 1"
  have "rnd64 (2 powi (- 14)) = 2 powi (- 14)" by (intro rnd64_id representable_powi) simp
  with x(1) have "2 powi (- 14) \<le> rnd64 x" by (rule b64.above)
  moreover have "0 < (2::rat) powi (- 14)" by (rule powi2_pos)
  moreover have "\<bar>x\<bar> \<le> 2" using x powi2_pos [of "- 14"] by linarith
  ultimately show ?thesis using flo_le2 [of x] by simp
qed

lemma lot_positive: "l \<in> {''0.0001'', ''0.001'', ''0.01''} \<Longrightarrow> num_lt (Fin 0) (to_number l)"
proof -
  assume l: "l \<in> {''0.0001'', ''0.001'', ''0.01''}"
  have "to_number ''0.0001'' = flo (1/10000)" "to_number ''0.001'' = flo (1/1000)" "to_number ''0.01'' = flo (1/100)"
    by (simp_all add: read_literal power_divide)
  moreover have "(2::rat) powi (- 14) \<le> 1/10000" by (simp add: power_int_def power_divide)
  ultimately show ?thesis using l by (auto intro!: flo_positive)
qed

text \<open>An order of the size of a position against its side leaves nothing of it.\<close>

lemma close_nets_to_zero:
  assumes "price_ok (ps_size p)" "rq_qty req = ps_size p" "rq_side req = Sell \<longleftrightarrow> ps_side p = Long"
  shows "signed_size p + to_number (rq_qty req) * (if rq_side req = Buy then Fin 1 else Fin (- 1)) = Fin 0"
proof -
  let ?x = "num_key (ps_size p)"
  have x: "to_number (ps_size p) = Fin ?x" using assms(1) by (rule price_ok_key)
  have r: "representable ?x \<and> \<bar>?x\<bar> < 2 ^ 1024" using to_number_b64 [of "ps_size p"] unfolding x b64_value_def by simp
  have "flo ?x = Fin ?x" by (rule flo_exact) (use r in auto)
  moreover have "flo (- ?x) = Fin (- ?x)" by (rule flo_exact) (use r in auto)
  ultimately show ?thesis using assms(2,3)
    by (cases "rq_side req"; cases "ps_side p") (simp_all add: signed_size_def x)
qed

lemma refresh_all_positions: "refresh_all (st\<lparr>st_positions := ps\<rparr>) now xs = refresh_all st now xs"
  by (induction xs) (auto simp: oraclePrice_def get_market_def split: sum.split)

lemma closed_positions:
  assumes "market_ok m" "distinct (map ps_marketId ps)" "p \<in> set ps" "price_ok (ps_size p)"
    and "rq_qty req = ps_size p" "rq_side req = Sell \<longleftrightarrow> ps_side p = Long"
  shows "apply_market_order m (ps_marketId p) req now ps = filter (\<lambda>q. ps_marketId q \<noteq> ps_marketId p) ps"
proof -
  have "find (\<lambda>q. ps_marketId q = ps_marketId p) ps = Some p"
    using assms(2,3) by (induction ps) (auto simp: image_iff)
  moreover have "num_lt (num_abs (Fin 0)) (to_number (mk_lotSize (ms_market m)))"
    using assms(1) lot_positive by (auto simp: market_ok_def)
  ultimately show ?thesis
    unfolding apply_market_order_def Let_def by (simp add: close_nets_to_zero [OF assms(4-6)] del: fin_ops)
qed

section \<open>Properties that span components\<close>

text \<open>
  C21. Closing a position on the mock exchange closes it. When the close button's request for a
  position with a readable size reaches the mock order handler, the handler accepts it, the
  account has no position in that market any more, the positions in the other markets are the
  same in number and order, and one fill was recorded.
\<close>

theorem close_button_closes_on_mock:
  assumes "mock_ok st" "p \<in> set (st_positions st)" "price_ok (ps_size p)"
    and "closePosition address chain s p u = (u', Some req)"
  shows "\<exists>st' resp. postOrder st (market_id_str (rq_marketId req)) req dr now = Return (st', resp) \<and> rs_status resp = 200 \<and>
    map ps_marketId (st_positions st') = filter (\<lambda>m. m \<noteq> ps_marketId p) (map ps_marketId (st_positions st)) \<and>
    (\<exists>f. st_fills st' = take 500 (f # st_fills st) \<and> fl_marketId f = ps_marketId p \<and> fl_qty f = ps_size p)"
proof -
  obtain cid n sg where req: "req = close_req p cid n sg"
    using assms(4) by (auto simp: closePosition_def Let_def split: option.splits list.splits sum.splits)
  have rq: "rq_marketId req = ps_marketId p" "rq_qty req = ps_size p" "rq_type req = Market"
      "rq_side req = Sell \<longleftrightarrow> ps_side p = Long"
    unfolding req by (simp_all add: close_req_def close_side_def)
  let ?f = "mock_fill dr (ps_marketId p) req now"
  let ?s = "pushFill ?f st"
  have ok: "mock_ok ?s" using assms(1) by (rule pushFill_ok)
  obtain m where m: "get_market ?s (ps_marketId p) = Return m" "market_ok m" using mock_ok_get [OF ok] by blast
  have "apply_market_order m (ps_marketId p) req now (st_positions ?s) = filter (\<lambda>q. ps_marketId q \<noteq> ps_marketId p) (st_positions st)"
    using closed_positions [OF m(2) _ assms(2,3) rq(2,4)] assms(1) by (simp add: mock_ok_def pushFill_def)
  moreover obtain qs where qs: "refresh_all ?s now (filter (\<lambda>q. ps_marketId q \<noteq> ps_marketId p) (st_positions st)) = Return qs"
      "map ps_marketId qs = map ps_marketId (filter (\<lambda>q. ps_marketId q \<noteq> ps_marketId p) (st_positions st))"
    using refresh_all_ok [OF ok] by blast
  moreover have "market_of_str (market_id_str (ps_marketId p)) = Some (ps_marketId p)" by (cases "ps_marketId p") (simp_all add: market_of_str.simps)
  ultimately show ?thesis
    using m(1) rq by (simp add: postOrder_def Let_def refreshMarks_def refresh_all_positions ok_json_def filter_map comp_def pushFill_def mock_fill_def)
qed

theorem close_button_closes_on_mock_witness:
  "\<exists>req st' resp. snd (closePosition (Some ''0xA'') None demo_submit demo_position initial_ui) = Some req \<and>
     postOrder (STATE (\<lambda>_ _. Fin (1/2)) (\<lambda>_ _. 0) 0) (market_id_str (rq_marketId req)) req
       \<lparr>od_order = ''a'', od_fill = ''b'', od_hash = ''c''\<rparr> 1 = Return (st', resp) \<and> st_positions st' = []"
proof -
  let ?st = "STATE (\<lambda>_ _. Fin (1/2)) (\<lambda>_ _. 0) 0"
  have ok: "mock_ok ?st" by (rule mock_ok_STATE) (rule draw_half)
  have "nsStr (nowNs 0) = ''0''" by code_simp
  then have mem: "demo_position \<in> set (st_positions ?st)" "map ps_marketId (st_positions ?st) = [BtcUsd]"
    by (simp_all add: STATE_def demo_position_def)
  have sz: "price_ok (ps_size demo_position)" by (simp add: demo_position_def) code_simp
  obtain u' r where r: "closePosition (Some ''0xA'') None demo_submit demo_position initial_ui = (u', r)" by (metis surj_pair)
  then have "r \<noteq> None" by (auto simp: closePosition_def sign_order_def demo_submit_def Let_def)
  then obtain r' where c: "closePosition (Some ''0xA'') None demo_submit demo_position initial_ui = (u', Some r')" using r by auto
  show ?thesis
    using close_button_closes_on_mock [OF ok mem(1) sz c, of "\<lparr>od_order = ''a'', od_fill = ''b'', od_hash = ''c''\<rparr>" 1]
    unfolding c by (auto simp: mem(2)) (auto simp: demo_position_def)
qed

lemma first_oracle_price:
  "oraclePrice (STATE rnd now t) mid = Return (case mid of BtcUsd \<Rightarrow> ''100000.0'' | EthUsd \<Rightarrow> ''3500.00'' | SolUsd \<Rightarrow> ''200.00'')"
proof -
  have f: "fixed_str 100000 1 = ''100000.0''" "fixed_str 3500 2 = ''3500.00''" "fixed_str 200 2 = ''200.00''"
    by code_simp+
  have d: "decFromStep ''0.1'' = 1" "decFromStep ''0.05'' = 2" "decFromStep ''0.01'' = 2"
    by (simp_all add: decFromStep_def index_of_def)
  have t: "to_fixed (Fin 100000) 1 = fixed_str 100000 1" "to_fixed (Fin 3500) 2 = fixed_str 3500 2" "to_fixed (Fin 200) 2 = fixed_str 200 2"
    by (simp_all only: to_fixed.simps) simp_all
  show ?thesis by (cases mid) (simp_all add: oraclePrice_def get_market_def STATE_has_markets makeMarket_def d t f del: One_nat_def to_fixed.simps)
qed

lemma tiny_prints_zero:
  assumes "0 \<le> x" "x \<le> 2 powi (- 20)"
  shows "NumberDisplay ''$'' [] (NNum (flo x)) 2 False = ''$0.00''" "is_finite (flo x)"
proof -
  have p: "(2::rat) powi (- 20) \<le> 1/400" by (simp add: power_int_def power_divide)
  have "\<bar>x\<bar> \<le> 2" using assms p by linarith
  then have f: "flo x = Fin (rnd64 x)" by (rule flo_le2)
  have "rnd64 x \<le> 2 powi (- 20)" using assms(2) by (intro b64.below rnd64_id representable_powi) simp_all
  moreover have r0: "0 \<le> rnd64 x" using assms(1) by (rule rnd64_nonneg)
  ultimately have "\<lfloor>rnd64 x * 10 ^ 2 + 1/2\<rfloor> = 0" using p by (simp add: floor_eq_iff)
  then have "comma_join (fixed_str (rnd64 x) 2) = ''0.00''"
    unfolding fixed_grouped [OF r0] grouped_def Let_def by simp code_simp
  moreover have "to_fixed (num_abs (Fin (rnd64 x))) 2 = fixed_str (rnd64 x) 2"
    using r0 \<open>rnd64 x \<le> 2 powi (- 20)\<close> p by simp
  ultimately show "NumberDisplay ''$'' [] (NNum (flo x)) 2 False = ''$0.00''" "is_finite (flo x)"
    using r0 by (simp_all add: NumberDisplay_def displayText_def f Let_def)
qed

lemma unscaled_price_prints_zero:
  assumes "wo_priceX18 o' = (case mid of BtcUsd \<Rightarrow> ''100000.0'' | EthUsd \<Rightarrow> ''3500.00'' | SolUsd \<Rightarrow> ''200.00'')"
  shows "NumberDisplay ''$'' [] (NNum (header_cur (Some o') mk)) 2 False = ''$0.00''"
proof -
  obtain x where x: "x18ToDollars (NStr (wo_priceX18 o')) = flo x" "0 \<le> x" "x \<le> 2 powi (- 20)"
  proof -
    have "\<exists>x. x18ToDollars (NStr (wo_priceX18 o')) = flo x \<and> 0 \<le> x \<and> x \<le> 2 powi (- 20)"
      unfolding assms
      by (cases mid; rule exI [of _ "(case mid of BtcUsd \<Rightarrow> 100000 | EthUsd \<Rightarrow> 3500 | SolUsd \<Rightarrow> 200) / 10 ^ 18"])
        (simp_all add: read_literal flo_of_int [of 100000, simplified] flo_of_int [of 3500, simplified]
          flo_of_int [of 200, simplified] power_int_def power_divide)
    then show thesis using that by blast
  qed
  show ?thesis
    unfolding header_cur_def Let_def option.case x(1) using tiny_prints_zero [OF x(2,3)] by (simp only: if_True)
qed

text \<open>
  The mock exchange quotes its oracle price in plain dollars, where the application reads a
  fixed-point number with eighteen decimals: on the seeded data the first oracle frame of every
  market, read by the oracle hook, makes the market header print a price of zero.
\<close>

theorem mock_oracle_price_prints_zero:
  "\<exists>o'. on_oracle_message mid (last (map snd (sr_sent (tick_oracle mid n
        ((new_server (STATE rnd now t))\<lparr>sr_clients := [0], sr_subs := [(0, [channel_of ''oracle'' mid])]\<rparr>))))) None = Some o' \<and>
     wo_priceX18 o' = (case mid of BtcUsd \<Rightarrow> ''100000.0'' | EthUsd \<Rightarrow> ''3500.00'' | SolUsd \<Rightarrow> ''200.00'') \<and>
     NumberDisplay ''$'' [] (NNum (header_cur (Some o') mk)) 2 False = ''$0.00''"
proof -
  have "on_oracle_message mid (Oracle \<lparr>wo_channel = channel_of ''oracle'' mid, wo_priceX18 = p, wo_confidenceX18 = cf,
      wo_sourceTsNs = a, wo_tsNs = b\<rparr>) None = Some \<lparr>wo_channel = channel_of ''oracle'' mid, wo_priceX18 = p, wo_confidenceX18 = cf,
      wo_sourceTsNs = a, wo_tsNs = b\<rparr>" for p cf a b
    by (simp add: on_oracle_message_def channel_of_def)
  then show ?thesis
    using unscaled_price_prints_zero [of _ mid mk]
    by (auto simp: tick_oracle_def Let_def new_server_def first_oracle_price broadcast_def subs_for_def split: sum.split)
qed

end
